(* ===== verification/Guard_Prelude.thy ===== *)
theory Guard_Prelude
  imports Main "HOL-Library.Word" "HOL-Library.List_Lexorder" "HOL-Library.Monad_Syntax"
begin

text \<open>
  Shared vocabulary of the development.

  \<^item> Go's fixed-size values: bytes, fixed-width integers, \<^verbatim>\<open>common.Address\<close> and
    \<^verbatim>\<open>[32]byte\<close> arrays. An array of \<open>n\<close> bytes is the \<open>8 * n\<close>-bit word whose
    big-endian bytes it holds, so the zero array is \<open>0\<close>, Go's \<open>==\<close> is equality and
    \<^verbatim>\<open>bytes.Compare\<close> on two arrays of one size is the order of the words.
  \<^item> \<^verbatim>\<open>time.Time\<close>: nanoseconds since the Unix epoch. Location and monotonic reading
    are not part of the value, so \<^verbatim>\<open>Round(0)\<close> and \<^verbatim>\<open>UTC()\<close> are the identity.
  \<^item> Big-endian integer encodings and the offset-based readers built on them.
  \<^item> Early-exit iteration (\<^verbatim>\<open>Bucket.ForEach\<close> with a callback that may fail).
  \<^item> The contract of the external key-value engine (bbolt): buckets are ordered maps
    of byte strings, writes may fail, and a transaction commits as a whole or not at all.
\<close>

named_theorems codec_simps \<open>lengths and read-back equations of the binary codec\<close>
named_theorems bucket_simps \<open>effect of bucket writes on the list of entries\<close>

section \<open>Scalars\<close>

type_synonym byte = "8 word"
type_synonym bytes = "8 word list"
type_synonym u16 = "16 word"
type_synonym u32 = "32 word"
type_synonym u64 = "64 word"
type_synonym u256 = "256 word"
type_synonym address = "160 word"
type_synonym hash = "256 word"

text \<open>ASCII text as bytes, for domain separators and stored keys (\<^verbatim>\<open>[]byte("...")\<close>).\<close>

definition ascii :: "string \<Rightarrow> bytes" where
  "ascii s = map (\<lambda>c. of_nat (of_char c)) s"

section \<open>Big-endian encodings\<close>

fun be_bytes :: "nat \<Rightarrow> nat \<Rightarrow> bytes" where
  "be_bytes 0 x = []"
| "be_bytes (Suc n) x = be_bytes n (x div 256) @ [word_of_nat x]"

definition be_value :: "bytes \<Rightarrow> nat" where
  "be_value bs = foldl (\<lambda>acc b. acc * 256 + unat b) 0 bs"

lemma length_be_bytes [simp]: "length (be_bytes n x) = n"
  by (induction n arbitrary: x) auto

lemma be_value_Nil [simp]: "be_value [] = 0"
  by (simp add: be_value_def)

lemma be_value_snoc [simp]: "be_value (bs @ [b]) = be_value bs * 256 + unat b"
  by (simp add: be_value_def)

lemma be_value_be_bytes: "be_value (be_bytes n x) = x mod 256 ^ n"
proof (induction n arbitrary: x)
  case 0
  then show ?case by simp
next
  case (Suc n)
  have "be_value (be_bytes (Suc n) x) = (x div 256) mod 256 ^ n * 256 + x mod 256"
    by (simp add: Suc unat_of_nat)
  also have "\<dots> = x mod (256 * 256 ^ n)"
    by (simp add: mod_mult2_eq)
  finally show ?case by simp
qed

lemma byte_times_256 [simp]: "(x :: byte) * 256 = 0"
proof -
  have e: "(256 :: byte) = 0" by simp
  show ?thesis by (subst e) simp
qed

lemma unat_bound: "unat (w :: 'a::len word) < 2 ^ LENGTH('a)"
  by (rule unsigned_less)

lemma be_bytes_be_value: "be_bytes (length bs) (be_value bs) = bs"
proof (induction bs rule: rev_induct)
  case Nil
  then show ?case by simp
next
  case (snoc b bs)
  have "(be_value bs * 256 + unat b) div 256 = be_value bs"
    using unat_bound [of b] by simp
  moreover have "(word_of_nat (be_value bs * 256 + unat b) :: byte) = b"
    by simp
  ultimately show ?case using snoc by simp
qed

lemma be_value_less: "be_value bs < 256 ^ length bs"
  by (metis be_bytes_be_value be_value_be_bytes mod_less_divisor zero_less_numeral zero_less_power)

text \<open>The bytes of a word of \<open>n\<close> bytes, and the word read back from them.\<close>

definition word_bytes :: "nat \<Rightarrow> 'a::len word \<Rightarrow> bytes" where
  "word_bytes n w = be_bytes n (unat w)"

definition bytes_word :: "bytes \<Rightarrow> 'a::len word" where
  "bytes_word bs = word_of_nat (be_value bs)"

lemma length_word_bytes [simp, codec_simps]: "length (word_bytes n w) = n"
  by (simp add: word_bytes_def)

text \<open>Both computed on words, for evaluation.\<close>

lemma word_bytes_code [code]:
  "word_bytes n w =
     (case n of 0 \<Rightarrow> [] | Suc m \<Rightarrow> word_bytes m (drop_bit 8 w) @ [ucast w])"
proof (cases n)
  case (Suc m)
  have "unat (drop_bit 8 w) = unat w div 256"
    by (simp add: unsigned_drop_bit_eq take_bit_nat_eq_self unsigned_less)
      (simp add: drop_bit_eq_div)
  with Suc show ?thesis
    by (simp only: word_bytes_def be_bytes.simps nat.case) simp
qed (simp add: word_bytes_def)

lemma bytes_word_code [code]:
  "bytes_word bs = foldl (\<lambda>acc b. acc * 256 + ucast b) 0 bs"
proof -
  have "word_of_nat (be_value bs) = foldl (\<lambda>acc b. acc * 256 + ucast b) (0 :: 'a word) bs"
  proof (induction bs rule: rev_induct)
    case (snoc b bs)
    then show ?case by (simp only: be_value_snoc of_nat_add of_nat_mult foldl_append foldl.simps) simp
  qed simp
  then show ?thesis by (simp add: bytes_word_def)
qed

lemma bytes_word_word_bytes:
  assumes "LENGTH('a::len) = 8 * n"
  shows "bytes_word (word_bytes n (w :: 'a word)) = w"
proof -
  have "unat w < 256 ^ n"
    using unat_bound [of w] assms by (simp add: power_mult)
  then show ?thesis
    by (simp add: bytes_word_def word_bytes_def be_value_be_bytes)
qed

lemma word_bytes_bytes_word:
  assumes "LENGTH('a::len) = 8 * n" and "length bs = n"
  shows "word_bytes n (bytes_word bs :: 'a word) = bs"
proof -
  have "be_value bs < 2 ^ LENGTH('a)"
    using be_value_less [of bs] assms by (simp add: power_mult)
  then have "unat (bytes_word bs :: 'a word) = be_value bs"
    by (simp add: bytes_word_def unat_of_nat)
  then show ?thesis
    using assms(2) be_bytes_be_value [of bs] by (simp add: word_bytes_def)
qed

lemma word_bytes_inject:
  assumes "LENGTH('a::len) = 8 * n"
  shows "word_bytes n (v :: 'a word) = word_bytes n w \<longleftrightarrow> v = w"
  using bytes_word_word_bytes [OF assms] by metis

abbreviation id_bytes :: "hash \<Rightarrow> bytes" where
  "id_bytes \<equiv> word_bytes 32"

lemma id_bytes_inject [simp]: "id_bytes v = id_bytes w \<longleftrightarrow> v = w"
  by (rule word_bytes_inject) simp

lemma bytes_word_id_bytes [simp]: "bytes_word (id_bytes w) = w"
  by (rule bytes_word_word_bytes) simp

section \<open>Offset-based readers\<close>

text \<open>
  The readers of the source take the data and a pointer to an offset, and report failure as
  \<^verbatim>\<open>false\<close>. Here they take the offset and return the value with the advanced offset, or
  \<open>None\<close>. A fixed-width field is read back from wherever it was written: this is the law
  every reader below provides and every record decoder uses.
\<close>

definition read_slice :: "nat \<Rightarrow> bytes \<Rightarrow> int \<Rightarrow> (bytes \<times> int) option" where
  "read_slice n data off =
     (if off < 0 \<or> int (length data) - off < int n then None
      else Some (take n (drop (nat off) data), off + int n))"

text \<open>Evaluates a chain of reads from the left, leaving each continuation alone until it runs.\<close>

lemma bind_weak_cong: "m = n \<Longrightarrow> Option.bind m f = Option.bind n f"
  by simp

text \<open>\<open>rest_at data off rest\<close>: the offset is inside the data and \<open>rest\<close> is what follows it.\<close>

definition rest_at :: "bytes \<Rightarrow> int \<Rightarrow> bytes \<Rightarrow> bool" where
  "rest_at data off rest \<longleftrightarrow> 0 \<le> off \<and> off \<le> int (length data) \<and> drop (nat off) data = rest"

lemma rest_at_append: "rest_at (pre @ rest) (int (length pre)) rest"
  by (simp add: rest_at_def)

lemma rest_at_start: "rest_at data 0 data"
  by (simp add: rest_at_def)

lemma rest_at_step:
  assumes "rest_at data off (xs @ rest)"
  shows "rest_at data (off + int (length xs)) rest"
proof -
  from assms have d: "0 \<le> off" "off \<le> int (length data)" "drop (nat off) data = xs @ rest"
    by (auto simp: rest_at_def)
  from d(3) have "length data - nat off = length xs + length rest"
    by (metis length_append length_drop)
  with d(1,2) have "off + int (length xs) \<le> int (length data)"
    by linarith
  moreover have "drop (nat (off + int (length xs))) data = rest"
    using d by (metis add.commute append_eq_conv_conj drop_drop nat_add_distrib nat_int of_nat_0_le_iff)
  ultimately show ?thesis
    using d(1) by (simp add: rest_at_def)
qed

lemma rest_at_end: "rest_at data off [] \<Longrightarrow> off = int (length data)"
  by (auto simp: rest_at_def)

lemma rest_at_length: "rest_at data off rest \<Longrightarrow> int (length data) - off = int (length rest)"
  by (auto simp: rest_at_def)

lemma read_slice_back:
  assumes "rest_at data off (xs @ rest)" and "length xs = n"
  shows "read_slice n data off = Some (xs, off + int n)"
  using rest_at_length [OF assms(1)] assms by (auto simp: read_slice_def rest_at_def)

text \<open>
  The contract of a fixed-width field: what the writer appends, the reader finds at the offset
  where it was written, for every value the field can represent.
\<close>

locale fixed_codec =
  fixes enc :: "'a \<Rightarrow> bytes"
    and rd :: "bytes \<Rightarrow> int \<Rightarrow> ('a \<times> int) option"
    and width :: nat
    and ok :: "'a \<Rightarrow> bool"
  assumes enc_length: "length (enc x) = width"
    and read_back: "rest_at data off (enc x @ rest) \<Longrightarrow> ok x \<Longrightarrow>
      rd data off = Some (x, off + int width)"
begin

lemma rest_after:
  "rest_at data off (enc x @ rest) \<Longrightarrow> rest_at data (off + int width) rest"
  using rest_at_step [of data off "enc x" rest] by (simp add: enc_length)

lemma read_append:
  assumes "ok x"
  shows "rd (pre @ enc x @ rest) (int (length pre)) = Some (x, int (length pre) + int width)"
  by (rule read_back [OF rest_at_append assms])

end

section \<open>Time\<close>

text \<open>
  \<^verbatim>\<open>time.Time\<close> counts seconds since January 1 of year 1 in an \<^verbatim>\<open>int64\<close>; the zero
  value is that instant. Times are kept here as nanoseconds since the Unix epoch, and the
  places where Go's representation is finite are written out: \<^verbatim>\<open>time.Unix\<close> and
  \<^verbatim>\<open>Time.Unix()\<close> wrap, \<^verbatim>\<open>Add\<close> and \<^verbatim>\<open>Sub\<close> saturate. \<open>time_ok\<close> are the representable
  instants.
\<close>

type_synonym time = int
type_synonym duration = int

definition second :: duration where "second = 1000000000"
definition minute :: duration where "minute = 60 * second"
definition hour :: duration where "hour = 60 * minute"

definition unixToInternal :: int where "unixToInternal = 62135596800"

definition zeroTime :: time where "zeroTime = - unixToInternal * second"

definition IsZero :: "time \<Rightarrow> bool" where "IsZero t \<longleftrightarrow> t = zeroTime"

text \<open>Seconds since the epoch, and the \<^verbatim>\<open>int64\<close> that the method \<^verbatim>\<open>Unix()\<close> returns.\<close>

definition unix_seconds :: "time \<Rightarrow> int" where "unix_seconds t = t div second"

definition Unix :: "time \<Rightarrow> int" where "Unix t = sint (word_of_int (unix_seconds t) :: u64)"

definition Nanosecond :: "time \<Rightarrow> int" where "Nanosecond t = t mod second"

definition time_ok :: "time \<Rightarrow> bool" where
  "time_ok t \<longleftrightarrow>
     - (2 ^ 63) \<le> unix_seconds t + unixToInternal \<and> unix_seconds t + unixToInternal < 2 ^ 63"

text \<open>\<^verbatim>\<open>time.Unix(sec, nsec)\<close> for \<open>0 \<le> nsec < 1e9\<close>.\<close>

definition timeUnix :: "int \<Rightarrow> int \<Rightarrow> time" where
  "timeUnix sec nsec =
     (sint (word_of_int (sec + unixToInternal) :: u64) - unixToInternal) * second + nsec"

definition time_Add :: "time \<Rightarrow> duration \<Rightarrow> time" where
  "time_Add t d =
     (let n = t + d; s = unix_seconds n + unixToInternal
      in if s \<ge> 2 ^ 63 then (2 ^ 63 - 1 - unixToInternal) * second + Nanosecond n
         else if s < - (2 ^ 63) then (- (2 ^ 63 - 1) - unixToInternal) * second + Nanosecond n
         else n)"

definition time_Sub :: "time \<Rightarrow> time \<Rightarrow> duration" where
  "time_Sub t u = max (- (2 ^ 63)) (min (2 ^ 63 - 1) (t - u))"

definition Before :: "time \<Rightarrow> time \<Rightarrow> bool" where "Before t u \<longleftrightarrow> t < u"

definition After :: "time \<Rightarrow> time \<Rightarrow> bool" where "After t u \<longleftrightarrow> u < t"

lemmas duration_defs = second_def minute_def hour_def
lemmas time_defs = zeroTime_def IsZero_def Unix_def unix_seconds_def Nanosecond_def unixToInternal_def

lemma second_pos [simp]: "0 < second"
  by (simp add: second_def)

lemma unix_seconds_Nanosecond: "unix_seconds t * second + Nanosecond t = t"
  by (simp add: unix_seconds_def Nanosecond_def)

lemma Nanosecond_range [simp]: "0 \<le> Nanosecond t" "Nanosecond t < second"
  by (simp_all add: Nanosecond_def)

lemma timeUnix_Unix:
  assumes "time_ok t"
  shows "timeUnix (Unix t) (Nanosecond t) = t"
proof -
  have "(word_of_int (Unix t + unixToInternal) :: u64) = word_of_int (unix_seconds t + unixToInternal)"
    by (simp add: Unix_def)
  moreover have "sint (word_of_int (unix_seconds t + unixToInternal) :: u64) =
      unix_seconds t + unixToInternal"
    unfolding signed_of_int using assms by (simp add: time_ok_def signed_take_bit_int_eq_self)
  ultimately have "sint (word_of_int (Unix t + unixToInternal) :: u64) = unix_seconds t + unixToInternal"
    by (simp only:)
  then show ?thesis
    by (simp add: timeUnix_def unix_seconds_Nanosecond del: of_int_add)
qed

text \<open>The word that \<^verbatim>\<open>uint64(t.Unix())\<close> stores is zero only in the first second of the epoch.\<close>

lemma Unix_word_zero:
  assumes "time_ok t"
  shows "(word_of_int (Unix t) :: u64) = 0 \<longleftrightarrow> unix_seconds t = 0"
proof -
  have "(word_of_int (Unix t) :: u64) = word_of_int (unix_seconds t)"
    by (simp add: Unix_def)
  moreover have "\<bar>unix_seconds t\<bar> < 2 ^ 64"
    using assms by (auto simp: time_ok_def unixToInternal_def)
  ultimately show ?thesis
    by (auto simp: word_of_int_eq_0_iff zdvd_not_zless abs_less_iff)
qed

section \<open>Iteration with early exit\<close>

text \<open>A callback that returns an error stops the iteration, as in \<^verbatim>\<open>Bucket.ForEach\<close>.\<close>

fun foldE :: "('s \<Rightarrow> 'x \<Rightarrow> 'e + 's) \<Rightarrow> 's \<Rightarrow> 'x list \<Rightarrow> 'e + 's" where
  "foldE f s [] = Inr s"
| "foldE f s (x # xs) = (case f s x of Inl e \<Rightarrow> Inl e | Inr s' \<Rightarrow> foldE f s' xs)"

lemma foldE_append:
  "foldE f s (xs @ ys) = (case foldE f s xs of Inl e \<Rightarrow> Inl e | Inr s' \<Rightarrow> foldE f s' ys)"
  by (induction xs arbitrary: s) (auto split: sum.splits)

lemma foldE_Inr_rev_induct:
  assumes "foldE f s xs = Inr s'"
    and "P [] s"
    and "\<And>ys y t t'. P ys t \<Longrightarrow> f t y = Inr t' \<Longrightarrow> y \<in> set xs \<Longrightarrow> P (ys @ [y]) t'"
  shows "P xs s'"
  using assms
proof (induction xs arbitrary: s' rule: rev_induct)
  case Nil
  then show ?case by simp
next
  case (snoc x xs)
  from snoc.prems(1) obtain t where t: "foldE f s xs = Inr t" "f t x = Inr s'"
    by (auto simp: foldE_append split: sum.splits)
  have "P xs t"
    by (rule snoc.IH [OF t(1) snoc.prems(2)]) (use snoc.prems(3) in auto)
  then show ?case
    by (rule snoc.prems(3) [OF _ t(2)]) simp
qed

lemma foldE_Cons_Inr: "foldE f s (x # xs) = Inr t \<longleftrightarrow> (\<exists>s1. f s x = Inr s1 \<and> foldE f s1 xs = Inr t)"
  by (simp split: sum.splits)

lemma foldE_unit: "foldE f () xs = Inr () \<longleftrightarrow> (\<forall>x \<in> set xs. f () x = Inr ())"
  by (induction xs) (auto split: sum.splits)

text \<open>Early returns: \<open>bindE\<close> goes on with a result, \<open>rejectE\<close> and \<open>optE\<close> turn a test into an error.\<close>

definition bindE :: "'e + 'a \<Rightarrow> ('a \<Rightarrow> 'e + 'b) \<Rightarrow> 'e + 'b" where
  "bindE m f = (case m of Inl e \<Rightarrow> Inl e | Inr x \<Rightarrow> f x)"

definition rejectE :: "bool \<Rightarrow> 'e \<Rightarrow> 'e + unit" where
  "rejectE c e = (if c then Inl e else Inr ())"

definition optE :: "'e \<Rightarrow> 'a option \<Rightarrow> 'e + 'a" where
  "optE e m = (case m of None \<Rightarrow> Inl e | Some x \<Rightarrow> Inr x)"

named_theorems flow_simps

lemma bindE_simps [simp]: "bindE (Inl e) f = Inl e" "bindE (Inr x) f = f x"
  by (simp_all add: bindE_def)

lemma rejectE_simps [simp]: "rejectE True e = Inl e" "rejectE False e = Inr ()"
  by (simp_all add: rejectE_def)

lemma optE_simps [simp]: "optE e None = Inl e" "optE e (Some x) = Inr x"
  by (simp_all add: optE_def)

lemma bindE_Inr [flow_simps]: "bindE m f = Inr y \<longleftrightarrow> (\<exists>x. m = Inr x \<and> f x = Inr y)"
  by (cases m) simp_all

lemma rejectE_Inr [flow_simps]: "rejectE c e = Inr u \<longleftrightarrow> \<not> c"
  by (cases c) simp_all

lemma optE_Inr [flow_simps]: "optE e m = Inr x \<longleftrightarrow> m = Some x"
  by (cases m) simp_all

section \<open>Buckets\<close>

text \<open>
  A bucket holds key-value pairs of byte strings in the order of their keys. These two functions
  say what a successful write does to that sequence.
\<close>

fun kv_put :: "'k::linorder \<Rightarrow> 'v \<Rightarrow> ('k \<times> 'v) list \<Rightarrow> ('k \<times> 'v) list" where
  "kv_put k v [] = [(k, v)]"
| "kv_put k v (e # es) =
     (if fst e < k then e # kv_put k v es
      else if fst e = k then (k, v) # es
      else (k, v) # e # es)"

definition kv_del :: "'k \<Rightarrow> ('k \<times> 'v) list \<Rightarrow> ('k \<times> 'v) list" where
  "kv_del k es = filter (\<lambda>e. fst e \<noteq> k) es"

abbreviation kv_sorted :: "('k::linorder \<times> 'v) list \<Rightarrow> bool" where
  "kv_sorted es \<equiv> sorted_wrt (<) (map fst es)"

lemma kv_sorted_distinct: "kv_sorted es \<Longrightarrow> distinct (map fst es)"
  by (induction es) auto

lemma set_kv_put:
  "kv_sorted es \<Longrightarrow> set (kv_put k v es) = insert (k, v) {e \<in> set es. fst e \<noteq> k}"
  by (induction es) (auto simp: order_less_imp_not_eq2)

lemma kv_sorted_put: "kv_sorted es \<Longrightarrow> kv_sorted (kv_put k v es)"
  by (induction es) (auto simp: set_kv_put)

lemma kv_sorted_del: "kv_sorted es \<Longrightarrow> kv_sorted (kv_del k es)"
  by (induction es) (auto simp: kv_del_def)

lemma map_of_kv_put: "kv_sorted es \<Longrightarrow> map_of (kv_put k v es) = (map_of es)(k \<mapsto> v)"
  by (induction es) (auto simp: fun_eq_iff)

lemma map_of_kv_del: "map_of (kv_del k es) = (map_of es)(k := None)"
  by (induction es) (auto simp: fun_eq_iff kv_del_def)

lemma set_kv_del: "set (kv_del k es) = {e \<in> set es. fst e \<noteq> k}"
  by (auto simp: kv_del_def)

lemma kv_put_fresh:
  "map_of es k = None \<Longrightarrow> sum_list (map f (kv_put k v es)) = f (k, v) + (sum_list (map f es) :: 'n::comm_monoid_add)"
  by (induction es) (auto simp: ac_simps split: if_splits)

lemma length_kv_put_fresh: "map_of es k = None \<Longrightarrow> length (kv_put k v es) = Suc (length es)"
  by (induction es) (auto split: if_splits)

lemma kv_put_overwrite:
  "kv_sorted es \<Longrightarrow> map_of es k = Some w \<Longrightarrow>
     f (k, w) + sum_list (map f (kv_put k v es)) = f (k, v) + (sum_list (map f es) :: 'n::comm_monoid_add)"
proof (induction es)
  case (Cons e es)
  show ?case
  proof (cases "fst e = k")
    case True
    then show ?thesis using Cons.prems by (cases e) (auto simp: ac_simps)
  next
    case False
    with Cons.prems have w: "map_of es k = Some w" by (cases e) auto
    then have "(k, w) \<in> set es" by (rule map_of_SomeD)
    then have "fst e < k" using Cons.prems(1) by auto
    moreover have "f (k, w) + sum_list (map f (kv_put k v es)) = f (k, v) + sum_list (map f es)"
      using Cons.IH Cons.prems(1) w by simp
    ultimately show ?thesis
      by (simp add: ac_simps)
  qed
qed simp

lemma length_kv_put_overwrite:
  "kv_sorted es \<Longrightarrow> map_of es k = Some w \<Longrightarrow> length (kv_put k v es) = length es"
  using kv_put_overwrite [of es k w "\<lambda>_. 1 :: nat" v] by (simp add: sum_list_triv)

lemma kv_del_present:
  "kv_sorted es \<Longrightarrow> map_of es k = Some w \<Longrightarrow>
     f (k, w) + sum_list (map f (kv_del k es)) = (sum_list (map f es) :: 'n::comm_monoid_add)"
proof (induction es)
  case (Cons e es)
  show ?case
  proof (cases "fst e = k")
    case True
    with Cons.prems(1) have "filter (\<lambda>e. fst e \<noteq> k) es = es"
      by (auto simp: filter_id_conv)
    with True Cons.prems show ?thesis by (cases e) (auto simp: kv_del_def)
  next
    case False
    with Cons.prems have w: "map_of es k = Some w" by (cases e) auto
    with Cons.IH Cons.prems(1) have "f (k, w) + sum_list (map f (kv_del k es)) = sum_list (map f es)"
      by simp
    with False show ?thesis
      by (simp add: kv_del_def ac_simps)
  qed
qed simp

lemma length_kv_del_present:
  "kv_sorted es \<Longrightarrow> map_of es k = Some w \<Longrightarrow> length es = Suc (length (kv_del k es))"
  using kv_del_present [of es k w "\<lambda>_. 1 :: nat"] by (simp add: sum_list_triv)

text \<open>
  The external engine: operations on a bucket of an open transaction. \<open>bput\<close> and \<open>bdel\<close>
  return \<open>None\<close> where the Go call returns an error. The laws are the documented behaviour of
  bbolt: a bucket is ordered by key, a lookup finds what the iteration shows, and a successful
  write changes exactly the key it names.
\<close>

record 'b bolt =
  bempty :: 'b
  bget :: "'b \<Rightarrow> bytes \<Rightarrow> bytes option"
  bput :: "'b \<Rightarrow> bytes \<Rightarrow> bytes \<Rightarrow> 'b option"
  bdel :: "'b \<Rightarrow> bytes \<Rightarrow> 'b option"
  bentries :: "'b \<Rightarrow> (bytes \<times> bytes) list"

locale bolt_engine =
  fixes B :: "'b bolt"
  assumes entries_empty [bucket_simps]: "bentries B (bempty B) = []"
    and entries_sorted: "kv_sorted (bentries B b)"
    and get_entries: "bget B b k = map_of (bentries B b) k"
    and put_entries: "bput B b k v = Some b' \<Longrightarrow> bentries B b' = kv_put k v (bentries B b)"
    and del_entries: "bdel B b k = Some b' \<Longrightarrow> bentries B b' = kv_del k (bentries B b)"
begin

lemma get_put:
  "bput B b k v = Some b' \<Longrightarrow> bget B b' j = (if j = k then Some v else bget B b j)"
  by (simp add: get_entries put_entries map_of_kv_put entries_sorted)

lemma get_del:
  "bdel B b k = Some b' \<Longrightarrow> bget B b' j = (if j = k then None else bget B b j)"
  by (simp add: get_entries del_entries map_of_kv_del)

lemma get_empty: "bget B (bempty B) k = None"
  by (simp add: get_entries entries_empty)

lemma entries_distinct: "distinct (map fst (bentries B b))"
  by (rule kv_sorted_distinct [OF entries_sorted])

lemma entry_get: "(k, v) \<in> set (bentries B b) \<longleftrightarrow> bget B b k = Some v"
  by (simp add: get_entries entries_distinct map_of_eq_Some_iff)

end

text \<open>
  An engine that does not fail on keys and values within bbolt's documented size limits. What
  the code promises to do (rather than not to do) holds over such an engine.
\<close>

locale bolt_engine_live = bolt_engine +
  assumes put_ok: "k \<noteq> [] \<Longrightarrow> length k \<le> 32768 \<Longrightarrow> length v \<le> 2147483646 \<Longrightarrow> bput B b k v \<noteq> None"
    and del_ok: "bdel B b k \<noteq> None"

text \<open>The reference engine: a bucket is its ordered list of entries.\<close>

typedef ordered_bucket = "{es :: (bytes \<times> bytes) list. kv_sorted es}"
  morphisms bucket_list Bucket
  by (rule exI [of _ "[]"]) simp

definition ob_empty :: ordered_bucket where
  "ob_empty = Bucket []"

definition ob_put :: "ordered_bucket \<Rightarrow> bytes \<Rightarrow> bytes \<Rightarrow> ordered_bucket" where
  "ob_put b k v = Bucket (kv_put k v (bucket_list b))"

definition ob_del :: "ordered_bucket \<Rightarrow> bytes \<Rightarrow> ordered_bucket" where
  "ob_del b k = Bucket (kv_del k (bucket_list b))"

lemma bucket_list_sorted [simp]: "kv_sorted (bucket_list b)"
  using bucket_list [of b] by simp

lemma bucket_list_simps [simp]:
  "bucket_list ob_empty = []"
  "bucket_list (ob_put b k v) = kv_put k v (bucket_list b)"
  "bucket_list (ob_del b k) = kv_del k (bucket_list b)"
  by (simp_all add: ob_empty_def ob_put_def ob_del_def Bucket_inverse kv_sorted_put kv_sorted_del)

lemma Bucket_code [code abstype]: "Bucket (bucket_list b) = b"
  by (rule bucket_list_inverse)

lemmas ob_code [code abstract] = bucket_list_simps

definition list_bolt :: "ordered_bucket bolt" where
  "list_bolt = \<lparr>bempty = ob_empty,
     bget = (\<lambda>b k. map_of (bucket_list b) k),
     bput = (\<lambda>b k v. Some (ob_put b k v)),
     bdel = (\<lambda>b k. Some (ob_del b k)),
     bentries = bucket_list\<rparr>"

interpretation reference_engine: bolt_engine_live list_bolt
  by unfold_locales (auto simp: list_bolt_def)

text \<open>
  \<^verbatim>\<open>db.Update\<close>: the callback's writes are kept when it returns no error and the commit
  succeeds, otherwise none of them is. \<^verbatim>\<open>db.View\<close> keeps nothing.
\<close>

definition db_Update ::
  "bool \<Rightarrow> 'e \<Rightarrow> 'db \<Rightarrow> ('db \<Rightarrow> 'e + 'r \<times> 'db) \<Rightarrow> ('e + 'r) \<times> 'db" where
  "db_Update commit_ok commit_error db f =
     (case f db of
        Inl e \<Rightarrow> (Inl e, db)
      | Inr (r, db') \<Rightarrow> if commit_ok then (Inr r, db') else (Inl commit_error, db))"

lemma db_Update_error_unchanged: "db_Update c ce db f = (Inl e, db') \<Longrightarrow> db' = db"
  by (auto simp: db_Update_def split: sum.splits if_splits)

lemma db_Update_ok:
  "db_Update c ce db f = (Inr r, db') \<longleftrightarrow> c \<and> f db = Inr (r, db')"
  by (auto simp: db_Update_def split: sum.splits if_splits)

lemma db_Update_cases:
  obtains (rollback) e where "db_Update c ce db f = (Inl e, db)"
  | (commit) r db' where "c" "f db = Inr (r, db')" "db_Update c ce db f = (Inr r, db')"
  by (cases "f db"; cases c) (auto simp: db_Update_def)

text \<open>
  \<^verbatim>\<open>context.Context\<close> as the code observes it: \<^verbatim>\<open>nil\<close>, or live, cancelled or past its
  deadline at the moment of the check.
\<close>

datatype ctx_state = CtxNil | CtxLive | CtxCanceled | CtxDeadlineExceeded

end
