(* ===== verification/Sha256.thy ===== *)
theory Sha256
  imports Guard_Prelude
begin

text \<open>
  SHA-256 as Go's \<^verbatim>\<open>crypto/sha256\<close> computes it (FIPS 180-4). The daemon derives every
  durable identifier with it: candidate, incident and reservation IDs and the claim digest.
  The message is a byte string, the digest an array of 32 bytes.
\<close>

unbundle bit_operations_syntax

text \<open>
  The round constants, each with the prime it comes from: the first 32 bits of the fractional part of
  the cube root of the prime. The lemma \<open>sha256_roots_exact\<close> below checks every one.
\<close>

definition sha256_roots :: "(int \<times> int) list" where
  "sha256_roots = [
   (2, 1116352408), (3, 1899447441), (5, 3049323471), (7, 3921009573), (11, 961987163),
   (13, 1508970993), (17, 2453635748), (19, 2870763221), (23, 3624381080), (29, 310598401),
   (31, 607225278), (37, 1426881987), (41, 1925078388), (43, 2162078206), (47, 2614888103),
   (53, 3248222580), (59, 3835390401), (61, 4022224774), (67, 264347078), (71, 604807628),
   (73, 770255983), (79, 1249150122), (83, 1555081692), (89, 1996064986), (97, 2554220882),
   (101, 2821834349), (103, 2952996808), (107, 3210313671), (109, 3336571891), (113, 3584528711),
   (127, 113926993), (131, 338241895), (137, 666307205), (139, 773529912), (149, 1294757372),
   (151, 1396182291), (157, 1695183700), (163, 1986661051), (167, 2177026350), (173, 2456956037),
   (179, 2730485921), (181, 2820302411), (191, 3259730800), (193, 3345764771), (197, 3516065817),
   (199, 3600352804), (211, 4094571909), (223, 275423344), (227, 430227734), (229, 506948616),
   (233, 659060556), (239, 883997877), (241, 958139571), (251, 1322822218), (257, 1537002063),
   (263, 1747873779), (269, 1955562222), (271, 2024104815), (277, 2227730452), (281, 2361852424),
   (283, 2428436474), (293, 2756734187), (307, 3204031479), (311, 3329325298)]"

definition sha256_k :: "u32 list" where
  "sha256_k = map (\<lambda>(p, c). word_of_int c) sha256_roots"

definition rotr :: "nat \<Rightarrow> u32 \<Rightarrow> u32" where
  "rotr n x = drop_bit n x OR push_bit (32 - n) x"

definition bsig0 :: "u32 \<Rightarrow> u32" where
  "bsig0 x = rotr 2 x XOR rotr 13 x XOR rotr 22 x"

definition bsig1 :: "u32 \<Rightarrow> u32" where
  "bsig1 x = rotr 6 x XOR rotr 11 x XOR rotr 25 x"

definition ssig0 :: "u32 \<Rightarrow> u32" where
  "ssig0 x = rotr 7 x XOR rotr 18 x XOR drop_bit 3 x"

definition ssig1 :: "u32 \<Rightarrow> u32" where
  "ssig1 x = rotr 17 x XOR rotr 19 x XOR drop_bit 10 x"

definition sha_ch :: "u32 \<Rightarrow> u32 \<Rightarrow> u32 \<Rightarrow> u32" where
  "sha_ch x y z = (x AND y) XOR (NOT x AND z)"

definition sha_maj :: "u32 \<Rightarrow> u32 \<Rightarrow> u32 \<Rightarrow> u32" where
  "sha_maj x y z = (x AND y) XOR (x AND z) XOR (y AND z)"

text \<open>The message schedule: a sliding window of sixteen words.\<close>

fun sha_schedule :: "nat \<Rightarrow> u32 list \<Rightarrow> u32 list" where
  "sha_schedule 0 w = []"
| "sha_schedule (Suc n) w =
     (case w of
        [] \<Rightarrow> []
      | w0 # ws \<Rightarrow> w0 # sha_schedule n (ws @ [ssig1 (w ! 14) + w ! 9 + ssig0 (w ! 1) + w0]))"

type_synonym sha_state = "u32 \<times> u32 \<times> u32 \<times> u32 \<times> u32 \<times> u32 \<times> u32 \<times> u32"

fun sha_rounds :: "(u32 \<times> u32) list \<Rightarrow> sha_state \<Rightarrow> sha_state" where
  "sha_rounds [] s = s"
| "sha_rounds ((k, w) # r) (a, b, c, d, e, f, g, h) =
     (let t1 = h + bsig1 e + sha_ch e f g + k + w;
          t2 = bsig0 a + sha_maj a b c
      in sha_rounds r (t1 + t2, a, b, c, d + t1, e, f, g))"

fun sha_add :: "sha_state \<Rightarrow> sha_state \<Rightarrow> sha_state" where
  "sha_add (a, b, c, d, e, f, g, h) (a', b', c', d', e', f', g', h') =
     (a + a', b + b', c + c', d + d', e + e', f + f', g + g', h + h')"

fun be_words :: "bytes \<Rightarrow> u32 list" where
  "be_words (a # b # c # d # r) = bytes_word [a, b, c, d] # be_words r"
| "be_words _ = []"

definition sha_block :: "sha_state \<Rightarrow> bytes \<Rightarrow> sha_state" where
  "sha_block s blk = sha_add s (sha_rounds (zip sha256_k (sha_schedule 64 (be_words blk))) s)"

definition sha_pad :: "bytes \<Rightarrow> bytes" where
  "sha_pad m =
     m @ [0x80] @ replicate ((119 - length m mod 64) mod 64) 0 @ be_bytes 8 (8 * length m)"

fun sha_blocks :: "nat \<Rightarrow> sha_state \<Rightarrow> bytes \<Rightarrow> sha_state" where
  "sha_blocks 0 s m = s"
| "sha_blocks (Suc n) s m = sha_blocks n (sha_block s (take 64 m)) (drop 64 m)"

text \<open>The initial state comes from the square roots of the first eight primes in the same way.\<close>

definition sha_init :: sha_state where
  "sha_init = (1779033703, 3144134277, 1013904242, 2773480762,
               1359893119, 2600822924, 528734635, 1541459225)"

fun sha_digest :: "sha_state \<Rightarrow> bytes" where
  "sha_digest (a, b, c, d, e, f, g, h) = concat (map (word_bytes 4) [a, b, c, d, e, f, g, h])"

definition sha256 :: "bytes \<Rightarrow> hash" where
  "sha256 m =
     (let p = sha_pad m
      in bytes_word (sha_digest (sha_blocks (length p div 64) sha_init p)))"

text \<open>The constants are the roots that the standard prescribes.\<close>

definition root_fraction :: "nat \<Rightarrow> int \<Rightarrow> int \<Rightarrow> int \<Rightarrow> bool" where
  "root_fraction n whole p c \<longleftrightarrow>
     (let r = whole * 2 ^ 32 + c in 0 \<le> c \<and> c < 2 ^ 32 \<and> r ^ n \<le> p * 2 ^ (32 * n) \<and> p * 2 ^ (32 * n) < (r + 1) ^ n)"

lemma sha256_roots_exact: "list_all (\<lambda>(p, c). list_ex (\<lambda>w. root_fraction 3 w p c) [1, 2, 3, 4, 5, 6]) sha256_roots"
  by code_simp

lemma sha_init_exact:
  "case sha_init of (a, b, c, d, e, f, g, h) \<Rightarrow>
     list_all (\<lambda>(p, x). list_ex (\<lambda>w. root_fraction 2 w p (uint x)) [1, 2, 3, 4])
       [(2, a), (3, b), (5, c), (7, d), (11, e), (13, f), (17, g), (19, h)]"
  by code_simp

text \<open>The padded message is a whole number of blocks, so no byte of the message is dropped.\<close>

lemma sha_pad_blocks: "64 dvd length (sha_pad m)"
proof -
  define q k where "q = length m div 64" and "k = length m mod 64"
  have m: "length m = 64 * q + k" and k: "k < 64"
    by (simp_all add: q_def k_def)
  have "(119 - k) mod 64 = (if k \<le> 55 then 55 - k else 119 - k)"
  proof (cases "k \<le> 55")
    case True
    then have "119 - k = (55 - k) + 64" by simp
    then show ?thesis using True by (simp only: mod_add_self2) simp
  next
    case False
    then show ?thesis using k by simp
  qed
  then have "length (sha_pad m) = 64 * (q + (if k \<le> 55 then 1 else 2))"
    using m k by (simp add: sha_pad_def k_def [symmetric])
  then show ?thesis by simp
qed

lemma length_sha_digest: "length (sha_digest s) = 32"
  by (cases s rule: sha_digest.cases) simp

text \<open>\<^verbatim>\<open>h.Sum(nil)\<close> is the 32 bytes of the digest.\<close>

lemma id_bytes_sha256:
  "id_bytes (sha256 m) = sha_digest (sha_blocks (length (sha_pad m) div 64) sha_init (sha_pad m))"
  by (simp add: sha256_def Let_def word_bytes_bytes_word length_sha_digest)

text \<open>Rotation computed on integers, which evaluates faster.\<close>

lemma rotr_code [code]:
  "rotr n x =
     (if n \<le> 32 then word_of_int (drop_bit n (uint x) OR (0xffffffff AND push_bit (32 - n) (uint x)))
      else drop_bit n x OR push_bit (32 - n) x)"
proof -
  have m: "(0xffffffff :: int) = mask 32"
    by (simp add: mask_eq_exp_minus_1)
  have "drop_bit n x OR push_bit (32 - n) x =
      word_of_int (drop_bit n (uint x) OR (mask 32 AND push_bit (32 - n) (uint x)))" if "n \<le> 32"
    by (rule bit_word_eqI) (use that in \<open>auto simp: bit_or_iff bit_and_iff bit_push_bit_iff
        bit_drop_bit_eq bit_mask_iff bit_uint_iff bit_word_of_int_iff dest: bit_imp_le_length\<close>)
  then show ?thesis
    unfolding m by (simp add: rotr_def)
qed

end
