(* ===== verification/Domain_Model.thy ===== *)
theory Domain_Model
  imports Sha256
begin

text \<open>
  The shared data model: networks, tokens, rescue candidates, incident identifiers and claim plans
  (\<^verbatim>\<open>internal/domain/model.go\<close>, \<^verbatim>\<open>internal/domain/claim.go\<close>).

  Identifiers are SHA-256 digests of a fixed-layout byte string. The layouts are shown to be
  injective, so two different identities share an identifier only if SHA-256 collides on them,
  and the five kinds of identifier never hash the same byte string.
\<close>

section \<open>Candidates\<close>

text \<open>\<^verbatim>\<open>NetworkID\<close> is an \<^verbatim>\<open>int64\<close>: order comparisons read the word as signed.\<close>

type_synonym NetworkID = u64
type_synonym CandidateID = hash
type_synonym IncidentID = hash
type_synonym CandidateKind = byte

abbreviation CandidateToken :: CandidateKind where "CandidateToken \<equiv> 1"
abbreviation CandidateNative :: CandidateKind where "CandidateNative \<equiv> 2"
abbreviation CandidatePeriodic :: CandidateKind where "CandidatePeriodic \<equiv> 3"
abbreviation CandidateClaim :: CandidateKind where "CandidateClaim \<equiv> 4"
abbreviation CandidateFastToken :: CandidateKind where "CandidateFastToken \<equiv> 5"

record Token =
  tok_Address :: address
  tok_Symbol :: bytes
  tok_Decimals :: byte

definition zeroToken :: Token where
  "zeroToken = \<lparr>tok_Address = 0, tok_Symbol = [], tok_Decimals = 0\<rparr>"

record RescueCandidate =
  cand_ID :: CandidateID
  cand_Network :: NetworkID
  cand_Kind :: CandidateKind
  cand_Source :: address
  cand_Token :: Token
  cand_BlockHash :: hash
  cand_BlockNumber :: u64
  cand_TxHash :: hash
  cand_LogIndex :: u64
  cand_Generation :: u64
  cand_Observation :: u64

text \<open>The byte string hashed by \<^verbatim>\<open>candidateID\<close>, and the digest.\<close>

definition candidate_preimage :: "RescueCandidate \<Rightarrow> bytes" where
  "candidate_preimage c =
     ascii ''guard-daemon/candidate/v1'' @
     word_bytes 8 (cand_Network c) @
     [cand_Kind c] @
     word_bytes 20 (cand_Source c) @
     word_bytes 20 (tok_Address (cand_Token c)) @
     word_bytes 32 (cand_BlockHash c) @
     word_bytes 8 (cand_BlockNumber c) @
     word_bytes 32 (cand_TxHash c) @
     word_bytes 8 (cand_LogIndex c) @
     word_bytes 8 (cand_Observation c)"

definition candidateID :: "RescueCandidate \<Rightarrow> CandidateID" where
  "candidateID c = sha256 (candidate_preimage c)"

definition NewLogCandidate ::
  "NetworkID \<Rightarrow> address \<Rightarrow> Token \<Rightarrow> hash \<Rightarrow> hash \<Rightarrow> u64 \<Rightarrow> u64 \<Rightarrow> RescueCandidate" where
  "NewLogCandidate network source token blockHash txHash blockNumber logIndex =
     (let candidate = \<lparr>cand_ID = 0, cand_Network = network, cand_Kind = CandidateToken,
            cand_Source = source, cand_Token = token, cand_BlockHash = blockHash,
            cand_BlockNumber = blockNumber, cand_TxHash = txHash, cand_LogIndex = logIndex,
            cand_Generation = 0, cand_Observation = 0\<rparr>
      in candidate\<lparr>cand_ID := candidateID candidate\<rparr>)"

definition NewFastTokenCandidate ::
  "NetworkID \<Rightarrow> address \<Rightarrow> Token \<Rightarrow> hash \<Rightarrow> hash \<Rightarrow> u64 \<Rightarrow> u64 \<Rightarrow> bool \<Rightarrow> RescueCandidate" where
  "NewFastTokenCandidate network source token blockHash txHash blockNumber logIndex dryRun =
     (let c0 = NewLogCandidate network source token blockHash txHash blockNumber logIndex;
          c1 = c0\<lparr>cand_Kind := CandidateFastToken\<rparr>;
          c2 = (if dryRun then c1\<lparr>cand_Observation := 1\<rparr> else c1)
      in c2\<lparr>cand_ID := candidateID c2\<rparr>)"

definition NewBlockCandidate ::
  "NetworkID \<Rightarrow> CandidateKind \<Rightarrow> address \<Rightarrow> hash \<Rightarrow> u64 \<Rightarrow> RescueCandidate" where
  "NewBlockCandidate network kind source blockHash blockNumber =
     (let candidate = \<lparr>cand_ID = 0, cand_Network = network, cand_Kind = kind,
            cand_Source = source, cand_Token = zeroToken, cand_BlockHash = blockHash,
            cand_BlockNumber = blockNumber, cand_TxHash = 0, cand_LogIndex = 0,
            cand_Generation = 0, cand_Observation = 0\<rparr>
      in candidate\<lparr>cand_ID := candidateID candidate\<rparr>)"

definition NewPeriodicCandidate ::
  "NetworkID \<Rightarrow> address \<Rightarrow> u64 \<Rightarrow> u64 \<Rightarrow> RescueCandidate" where
  "NewPeriodicCandidate network source generation observation =
     (let candidate = \<lparr>cand_ID = 0, cand_Network = network, cand_Kind = CandidatePeriodic,
            cand_Source = source, cand_Token = zeroToken, cand_BlockHash = 0,
            cand_BlockNumber = 0, cand_TxHash = 0, cand_LogIndex = 0,
            cand_Generation = generation, cand_Observation = observation\<rparr>
      in candidate\<lparr>cand_ID := candidateID candidate\<rparr>)"

definition NewTokenReconciliationCandidate ::
  "NetworkID \<Rightarrow> address \<Rightarrow> Token \<Rightarrow> u64 \<Rightarrow> u64 \<Rightarrow> RescueCandidate" where
  "NewTokenReconciliationCandidate network source token generation observation =
     (let candidate = \<lparr>cand_ID = 0, cand_Network = network, cand_Kind = CandidateToken,
            cand_Source = source, cand_Token = token, cand_BlockHash = 0,
            cand_BlockNumber = 0, cand_TxHash = 0, cand_LogIndex = 0,
            cand_Generation = generation, cand_Observation = observation\<rparr>
      in candidate\<lparr>cand_ID := candidateID candidate\<rparr>)"

text \<open>\<open>True\<close> where the Go function returns \<^verbatim>\<open>nil\<close>, \<open>False\<close> for \<^verbatim>\<open>ErrInvalidCandidate\<close>.\<close>

definition ValidateCandidate :: "RescueCandidate \<Rightarrow> bool" where
  "ValidateCandidate c \<longleftrightarrow>
     \<not> (sint (cand_Network c) \<le> 0 \<or> cand_Source c = 0 \<or> cand_ID c \<noteq> candidateID c) \<and>
     (if cand_Kind c = CandidateFastToken then
        \<not> (tok_Address (cand_Token c) = 0 \<or> cand_BlockHash c = 0 \<or> cand_TxHash c = 0 \<or>
           1 < cand_Observation c)
      else if cand_Kind c = CandidateClaim then
        \<not> (tok_Address (cand_Token c) = 0 \<or> cand_TxHash c = 0 \<or> cand_BlockNumber c \<noteq> 0 \<or>
           cand_BlockHash c \<noteq> 0)
      else if cand_Kind c = CandidateToken then
        tok_Address (cand_Token c) \<noteq> 0
      else if cand_Kind c = CandidateNative \<or> cand_Kind c = CandidatePeriodic then
        tok_Address (cand_Token c) = 0
      else False)"

section \<open>Incidents\<close>

definition incident_preimage :: "CandidateID \<Rightarrow> bytes" where
  "incident_preimage candidate = ascii ''guard-daemon/incident/v1'' @ id_bytes candidate"

definition NewIncidentID :: "CandidateID \<Rightarrow> IncidentID" where
  "NewIncidentID candidate = sha256 (incident_preimage candidate)"

definition asset_incident_preimage :: "CandidateID \<Rightarrow> CandidateKind \<Rightarrow> address \<Rightarrow> bytes" where
  "asset_incident_preimage candidate kind asset =
     ascii ''guard-daemon/asset-incident/v1'' @ id_bytes candidate @ [kind] @ word_bytes 20 asset"

definition NewAssetIncidentID :: "CandidateID \<Rightarrow> CandidateKind \<Rightarrow> address \<Rightarrow> IncidentID" where
  "NewAssetIncidentID candidate kind asset = sha256 (asset_incident_preimage candidate kind asset)"

section \<open>Claim plans\<close>

record ClaimPlan =
  plan_Target :: address
  plan_Data :: bytes
  plan_Value :: u256
  plan_Token :: address
  plan_MinimumReceived :: u256
  plan_GasLimit :: u64
  plan_MaximumCost :: u256
  plan_ValidUntil :: u64

definition ClaimPlan_Validate :: "ClaimPlan \<Rightarrow> bool" where
  "ClaimPlan_Validate p \<longleftrightarrow>
     \<not> (plan_Target p = 0 \<or> plan_Token p = 0 \<or> length (plan_Data p) < 4 \<or>
        16384 < length (plan_Data p) \<or> plan_MinimumReceived p = 0 \<or> plan_GasLimit p = 0 \<or>
        plan_MaximumCost p = 0 \<or> plan_MaximumCost p < plan_Value p \<or> plan_ValidUntil p = 0)"

definition claim_preimage :: "ClaimPlan \<Rightarrow> bytes" where
  "claim_preimage p =
     ascii ''guard-daemon/claim/v1'' @
     word_bytes 20 (plan_Target p) @
     word_bytes 20 (plan_Token p) @
     word_bytes 32 (plan_Value p) @
     word_bytes 32 (plan_MinimumReceived p) @
     word_bytes 32 (plan_MaximumCost p) @
     word_bytes 8 (plan_GasLimit p) @
     word_bytes 8 (plan_ValidUntil p) @
     word_bytes 8 (word_of_nat (length (plan_Data p)) :: u64) @
     plan_Data p"

definition Digest :: "ClaimPlan \<Rightarrow> hash" where
  "Digest p = sha256 (claim_preimage p)"

definition NewClaimCandidate :: "NetworkID \<Rightarrow> address \<Rightarrow> ClaimPlan \<Rightarrow> RescueCandidate" where
  "NewClaimCandidate network source plan =
     (let candidate = \<lparr>cand_ID = 0, cand_Network = network, cand_Kind = CandidateClaim,
            cand_Source = source, cand_Token = zeroToken\<lparr>tok_Address := plan_Token plan\<rparr>,
            cand_BlockHash = 0, cand_BlockNumber = 0, cand_TxHash = Digest plan,
            cand_LogIndex = 0, cand_Generation = 0, cand_Observation = 0\<rparr>
      in candidate\<lparr>cand_ID := candidateID candidate\<rparr>)"

section \<open>Lemmas\<close>

lemmas candidate_constructors =
  NewLogCandidate_def NewFastTokenCandidate_def NewBlockCandidate_def NewPeriodicCandidate_def
  NewTokenReconciliationCandidate_def NewClaimCandidate_def Let_def zeroToken_def

text \<open>The identity fields: everything but the ID itself, the token metadata and the generation.\<close>

definition identity_fields where
  "identity_fields c =
     (cand_Network c, cand_Kind c, cand_Source c, tok_Address (cand_Token c), cand_BlockHash c,
      cand_BlockNumber c, cand_TxHash c, cand_LogIndex c, cand_Observation c)"

lemma word_bytes_append_inject:
  assumes "LENGTH('a::len) = 8 * n"
  shows "word_bytes n (v :: 'a word) @ xs = word_bytes n w @ ys \<longleftrightarrow> v = w \<and> xs = ys"
  using word_bytes_inject [OF assms] by (auto simp: append_eq_append_conv)

lemmas fixed_fields_inject =
  word_bytes_append_inject [where 'a = 64 and n = 8, simplified]
  word_bytes_append_inject [where 'a = 160 and n = 20, simplified]
  word_bytes_append_inject [where 'a = 256 and n = 32, simplified]
  word_bytes_inject [where 'a = 64 and n = 8, simplified]
  word_bytes_inject [where 'a = 160 and n = 20, simplified]
  word_bytes_inject [where 'a = 256 and n = 32, simplified]

lemma candidateID_ID_update [simp]: "candidateID (c\<lparr>cand_ID := i\<rparr>) = candidateID c"
  by (simp add: candidateID_def candidate_preimage_def)

lemma candidate_preimage_inject:
  "candidate_preimage c = candidate_preimage d \<longleftrightarrow> identity_fields c = identity_fields d"
  by (auto simp: candidate_preimage_def identity_fields_def fixed_fields_inject)

lemma candidateID_identity:
  "identity_fields c = identity_fields d \<Longrightarrow> candidateID c = candidateID d"
  by (simp add: candidateID_def candidate_preimage_inject [symmetric])

lemma asset_incident_preimage_inject:
  "asset_incident_preimage c k a = asset_incident_preimage c' k' a' \<longleftrightarrow> c = c' \<and> k = k' \<and> a = a'"
  by (auto simp: asset_incident_preimage_def fixed_fields_inject)

lemma incident_preimage_inject: "incident_preimage c = incident_preimage c' \<longleftrightarrow> c = c'"
  by (simp add: incident_preimage_def)

lemma claim_preimage_inject:
  assumes "claim_preimage p = claim_preimage q"
  shows "p = q"
  using assms by (cases p; cases q) (simp add: claim_preimage_def fixed_fields_inject)

end
