(* ===== verification/Wire_Fields.thy ===== *)
theory Wire_Fields
  imports Guard_Prelude
begin

text \<open>
  The fields of the persisted records: writers and offset-based readers of integers, byte arrays
  and times, as the codecs of \<^verbatim>\<open>internal/budget/codec.go\<close> and
  \<^verbatim>\<open>internal/store/codec.go\<close> define them (the two files repeat them). Every one is an instance
  of the fixed-width contract: what is written is read back at the offset where it was written.
\<close>

section \<open>Writers and readers\<close>

definition appendUint32 :: "bytes \<Rightarrow> u32 \<Rightarrow> bytes" where
  "appendUint32 target v = target @ word_bytes 4 v"

definition encodeUint32 :: "u32 \<Rightarrow> bytes" where
  "encodeUint32 v = appendUint32 [] v"

definition appendUint64 :: "bytes \<Rightarrow> u64 \<Rightarrow> bytes" where
  "appendUint64 target v = target @ word_bytes 8 v"

definition appendUint256 :: "bytes \<Rightarrow> u256 \<Rightarrow> bytes" where
  "appendUint256 target v = target @ word_bytes 32 v"

definition readUint32 :: "bytes \<Rightarrow> int \<Rightarrow> (u32 \<times> int) option" where
  "readUint32 data off = do { (bs, off) \<leftarrow> read_slice 4 data off; Some (bytes_word bs, off) }"

definition readUint64 :: "bytes \<Rightarrow> int \<Rightarrow> (u64 \<times> int) option" where
  "readUint64 data off = do { (bs, off) \<leftarrow> read_slice 8 data off; Some (bytes_word bs, off) }"

definition readUint256 :: "bytes \<Rightarrow> int \<Rightarrow> (u256 \<times> int) option" where
  "readUint256 data off = do { (bs, off) \<leftarrow> read_slice 32 data off; Some (bytes_word bs, off) }"

text \<open>\<^verbatim>\<open>readFixed\<close> into a 32-byte and into a 20-byte array.\<close>

definition readFixed32 :: "bytes \<Rightarrow> int \<Rightarrow> (hash \<times> int) option" where
  "readFixed32 data off = do { (bs, off) \<leftarrow> read_slice 32 data off; Some (bytes_word bs, off) }"

definition readFixed20 :: "bytes \<Rightarrow> int \<Rightarrow> (address \<times> int) option" where
  "readFixed20 data off = do { (bs, off) \<leftarrow> read_slice 20 data off; Some (bytes_word bs, off) }"

definition time_bytes :: "time \<Rightarrow> bytes" where
  "time_bytes t =
     (if IsZero t then replicate 12 0
      else word_bytes 8 (word_of_int (Unix t) :: u64) @ word_bytes 4 (word_of_int (Nanosecond t) :: u32))"

definition appendTime :: "bytes \<Rightarrow> time \<Rightarrow> bytes" where
  "appendTime target t = target @ time_bytes t"

definition readTime :: "bytes \<Rightarrow> int \<Rightarrow> (time \<times> int) option" where
  "readTime data off = do {
     (seconds, off) \<leftarrow> readUint64 data off;
     (nanoseconds, off) \<leftarrow> readUint32 data off;
     if 1000000000 \<le> nanoseconds then None
     else if seconds = 0 \<and> nanoseconds = 0 then Some (zeroTime, off)
     else Some (timeUnix (sint seconds) (uint nanoseconds), off)
   }"

text \<open>Sixteen-bit lengths and single bytes, as the store's records use them.\<close>

definition appendUint16 :: "bytes \<Rightarrow> u16 \<Rightarrow> bytes" where
  "appendUint16 target v = target @ word_bytes 2 v"

definition readUint16 :: "bytes \<Rightarrow> int \<Rightarrow> (u16 \<times> int) option" where
  "readUint16 data off = do { (bs, off) \<leftarrow> read_slice 2 data off; Some (bytes_word bs, off) }"

definition readByte :: "bytes \<Rightarrow> int \<Rightarrow> (byte \<times> int) option" where
  "readByte data off =
     (if int (length data) \<le> off then None else Some (data ! nat off, off + 1))"

section \<open>Read-back\<close>

lemma word_reader:
  assumes "LENGTH('a::len) = 8 * n"
    and "\<And>data off. rd data off = do { (bs, off) \<leftarrow> read_slice n data off; Some (bytes_word bs :: 'a word, off) }"
  shows "fixed_codec (word_bytes n) rd n (\<lambda>_ :: 'a word. True)"
  by unfold_locales (simp_all add: assms(2) read_slice_back bytes_word_word_bytes [OF assms(1)])

interpretation u32_field: fixed_codec "word_bytes 4" readUint32 4 "\<lambda>_. True"
  by (rule word_reader) (simp_all add: readUint32_def)

interpretation u64_field: fixed_codec "word_bytes 8" readUint64 8 "\<lambda>_. True"
  by (rule word_reader) (simp_all add: readUint64_def)

interpretation u256_field: fixed_codec "word_bytes 32" readUint256 32 "\<lambda>_. True"
  by (rule word_reader) (simp_all add: readUint256_def)

interpretation hash_field: fixed_codec "word_bytes 32" readFixed32 32 "\<lambda>_. True"
  by (rule word_reader) (simp_all add: readFixed32_def)

interpretation address_field: fixed_codec "word_bytes 20" readFixed20 20 "\<lambda>_. True"
  by (rule word_reader) (simp_all add: readFixed20_def)

text \<open>
  Twelve zero bytes stand for the zero time, so the epoch itself is the one representable instant
  that is not read back; the ledger never stores it.
\<close>

definition storable_time :: "time \<Rightarrow> bool" where
  "storable_time t \<longleftrightarrow> time_ok t \<and> t \<noteq> 0"

lemma zero_bytes_split: "replicate 12 (0 :: byte) = word_bytes 8 (0 :: u64) @ word_bytes 4 (0 :: u32)"
  by code_simp

lemma time_bytes_split:
  "time_bytes t =
     (if IsZero t then word_bytes 8 (0 :: u64) @ word_bytes 4 (0 :: u32)
      else word_bytes 8 (word_of_int (Unix t) :: u64) @ word_bytes 4 (word_of_int (Nanosecond t) :: u32))"
  by (simp add: time_bytes_def zero_bytes_split)

lemma uint_Nanosecond: "uint (word_of_int (Nanosecond t) :: u32) = Nanosecond t"
proof -
  have "Nanosecond t < 2 ^ 32"
    using Nanosecond_range(2) [of t] by (simp add: second_def)
  then show ?thesis by (simp add: unsigned_of_int take_bit_int_eq_self)
qed

lemma read_two_fields:
  assumes "rest_at data off ((word_bytes 8 (s :: u64) @ word_bytes 4 (n :: u32)) @ rest)"
  shows "readUint64 data off = Some (s, off + 8)" and "readUint32 data (off + 8) = Some (n, off + 12)"
proof -
  from assms have a: "rest_at data off (word_bytes 8 s @ word_bytes 4 n @ rest)" by simp
  from u64_field.read_back [OF this] show "readUint64 data off = Some (s, off + 8)" by simp
  from u32_field.read_back [OF u64_field.rest_after [OF a]]
  show "readUint32 data (off + 8) = Some (n, off + 12)" by simp
qed

lemma read_time_back:
  assumes at: "rest_at data off (time_bytes t @ rest)" and t: "storable_time t"
  shows "readTime data off = Some (t, off + 12)"
proof (cases "IsZero t")
  case True
  with at have "rest_at data off ((word_bytes 8 (0 :: u64) @ word_bytes 4 (0 :: u32)) @ rest)"
    by (simp only: time_bytes_split if_True)
  from read_two_fields [OF this] True show ?thesis
    by (simp add: readTime_def IsZero_def)
next
  case False
  with at have r: "rest_at data off ((word_bytes 8 (word_of_int (Unix t) :: u64) @
      word_bytes 4 (word_of_int (Nanosecond t) :: u32)) @ rest)"
    by (simp only: time_bytes_split if_False)
  have "\<not> 1000000000 \<le> (word_of_int (Nanosecond t) :: u32)"
    using Nanosecond_range(2) [of t] by (simp add: word_le_def uint_Nanosecond second_def)
  moreover have "\<not> ((word_of_int (Unix t) :: u64) = 0 \<and> (word_of_int (Nanosecond t) :: u32) = 0)"
  proof
    assume z: "(word_of_int (Unix t) :: u64) = 0 \<and> (word_of_int (Nanosecond t) :: u32) = 0"
    then have "unix_seconds t = 0" "Nanosecond t = 0"
      using t Unix_word_zero [of t] uint_Nanosecond [of t] by (auto simp: storable_time_def)
    then have "t = 0" using unix_seconds_Nanosecond [of t] by simp
    with t show False by (simp add: storable_time_def)
  qed
  moreover have "timeUnix (sint (word_of_int (Unix t) :: u64)) (uint (word_of_int (Nanosecond t) :: u32)) = t"
    using t timeUnix_Unix [of t] by (simp add: storable_time_def uint_Nanosecond Unix_def)
  ultimately show ?thesis
    using read_two_fields [OF r] by (auto simp: readTime_def)
qed

interpretation time_field: fixed_codec time_bytes readTime 12 storable_time
  by unfold_locales (simp_all add: read_time_back time_bytes_def)

interpretation u16_field: fixed_codec "word_bytes 2" readUint16 2 "\<lambda>_. True"
  by (rule word_reader) (simp_all add: readUint16_def)

lemma read_byte_back:
  assumes "rest_at data off (b # rest)"
  shows "readByte data off = Some (b, off + 1)"
proof -
  have "0 \<le> off" "off < int (length data)" "drop (nat off) data = b # rest"
    using assms rest_at_length [OF assms] by (auto simp: rest_at_def)
  moreover from this have "data ! nat off = b"
    by (metis nth_via_drop)
  ultimately show ?thesis by (simp add: readByte_def)
qed

interpretation byte_field: fixed_codec "\<lambda>b. [b]" readByte 1 "\<lambda>_. True"
  by unfold_locales (simp_all add: read_byte_back)

lemma zeroTime_storable [simp]: "storable_time zeroTime"
  by (simp add: storable_time_def time_ok_def time_defs second_def)

lemmas append_defs = appendUint16_def appendUint32_def appendUint64_def appendUint256_def appendTime_def

text \<open>Every instant a reader returns can be written again.\<close>

lemma timeUnix_storable:
  assumes "0 \<le> n" and "n < second" and "s \<noteq> 0 \<or> n \<noteq> 0"
  shows "storable_time (timeUnix (sint (s :: u64)) n)"
proof -
  define w :: u64 where "w = word_of_int (sint s + unixToInternal)"
  define t where "t = timeUnix (sint s) n"
  have t: "t = (sint w - unixToInternal) * second + n"
    by (simp only: t_def timeUnix_def w_def)
  then have u: "unix_seconds t = sint w - unixToInternal" and n: "Nanosecond t = n"
    using assms by (simp_all add: unix_seconds_def Nanosecond_def)
  have "time_ok t"
    using sint_range_size [of w] by (simp add: time_ok_def u word_size)
  moreover have "t \<noteq> 0"
  proof
    assume z: "t = 0"
    then have "n = 0" and "sint w = unixToInternal"
      using u n by (simp_all add: unix_seconds_def Nanosecond_def)
    then have "w = word_of_int unixToInternal"
      by (metis of_int_sint scast_id)
    then have "s = 0" by (simp add: w_def)
    with \<open>n = 0\<close> assms(3) show False by simp
  qed
  ultimately show ?thesis by (simp add: storable_time_def t_def)
qed

lemma readTime_storable:
  assumes "readTime data off = Some (t, off')"
  shows "storable_time t"
  using assms
  by (auto simp: readTime_def bind_eq_Some_conv not_le word_less_def second_def uint_0_iff
      intro!: timeUnix_storable split: if_splits)

end
