(* ===== verification/Budget_Model.thy ===== *)
theory Budget_Model
  imports Domain_Model Wire_Fields
begin

text \<open>
  Data model and binary codec of the budget ledger
  (\<^verbatim>\<open>internal/budget/interfaces.go\<close>, \<^verbatim>\<open>internal/budget/codec.go\<close>).

  A \<^verbatim>\<open>uint256.Int\<close> is a 256-bit word; the \<^verbatim>\<open>...Overflow\<close> operations return the wrapped
  result and whether the exact one does not fit.
\<close>

section \<open>Errors and limits\<close>

datatype ledger_error =
    ErrInvalidOptions
  | ErrOpenFailed
  | ErrPolicyMismatch
  | ErrCorrupt
  | ErrClosed
  | ErrInvalidRequest
  | ErrArithmeticOverflow
  | ErrBudgetExceeded
  | ErrSponsorReserve
  | ErrStateConflict
  | ErrCapacity
  | CtxErr ctx_state
  | EngineError

record Limits =
  PerTransaction :: u256
  PerHour :: u256
  PerDay :: u256
  Cumulative :: u256

record NetworkPolicy =
  np_Network :: NetworkID
  np_Sponsor :: address
  np_Limits :: Limits
  np_TransactionOverhead :: u256
  np_EmergencySponsorReserve :: u256
  np_AllowFeeOverrun :: bool

definition zeroLimits :: Limits where
  "zeroLimits = \<lparr>PerTransaction = 0, PerHour = 0, PerDay = 0, Cumulative = 0\<rparr>"

definition zeroNetworkPolicy :: NetworkPolicy where
  "zeroNetworkPolicy = \<lparr>np_Network = 0, np_Sponsor = 0, np_Limits = zeroLimits,
     np_TransactionOverhead = 0, np_EmergencySponsorReserve = 0, np_AllowFeeOverrun = False\<rparr>"

record Policy =
  pol_Global :: Limits
  pol_Networks :: "NetworkPolicy list"

section \<open>Cost quotes\<close>

record CostQuote =
  GasLimit :: u64
  MaxFeePerGas :: u256
  MaximumCost :: u256

definition AddOverflow :: "u256 \<Rightarrow> u256 \<Rightarrow> u256 \<times> bool" where
  "AddOverflow x y = (x + y, 2 ^ 256 \<le> uint x + uint y)"

definition MulOverflow :: "u256 \<Rightarrow> u256 \<Rightarrow> u256 \<times> bool" where
  "MulOverflow x y = (x * y, 2 ^ 256 \<le> uint x * uint y)"

definition Maximum :: "CostQuote \<Rightarrow> u256 \<Rightarrow> ledger_error + u256" where
  "Maximum quote overhead =
     (if GasLimit quote = 0 \<or> MaxFeePerGas quote = 0 then Inl ErrInvalidRequest
      else
        let (maximum, overflow) = MulOverflow (ucast (GasLimit quote)) (MaxFeePerGas quote)
        in if overflow then Inl ErrArithmeticOverflow
           else
             let (maximum, overflow) = AddOverflow maximum overhead
             in if overflow \<or> maximum = 0 then Inl ErrArithmeticOverflow
                else if MaximumCost quote \<noteq> 0 then
                  if MaximumCost quote < maximum then Inl ErrInvalidRequest
                  else Inr (MaximumCost quote)
                else Inr maximum)"

section \<open>Reservations\<close>

record Attempt =
  att_Incident :: IncidentID
  att_Number :: u32

type_synonym ReservationID = hash

definition reservation_preimage :: "Attempt \<Rightarrow> bytes" where
  "reservation_preimage attempt =
     ascii ''guard-daemon/budget-reservation/v1'' @ id_bytes (att_Incident attempt) @
     word_bytes 4 (att_Number attempt)"

definition NewReservationID :: "Attempt \<Rightarrow> ReservationID" where
  "NewReservationID attempt = sha256 (reservation_preimage attempt)"

record ReservationRequest =
  req_Network :: NetworkID
  req_Sponsor :: address
  req_Candidate :: CandidateID
  req_Attempt :: Attempt
  req_Quote :: CostQuote
  req_SponsorBalance :: u256
  req_ObservedAt :: time

text \<open>A stored state byte is not checked when decoded, so the type is the whole \<^verbatim>\<open>uint8\<close>.\<close>

type_synonym ReservationState = byte

abbreviation ReservationHeld :: ReservationState where "ReservationHeld \<equiv> 1"
abbreviation ReservationExposed :: ReservationState where "ReservationExposed \<equiv> 2"
abbreviation ReservationCommitted :: ReservationState where "ReservationCommitted \<equiv> 3"
abbreviation ReservationReleased :: ReservationState where "ReservationReleased \<equiv> 4"

record Reservation =
  res_ID :: ReservationID
  res_Request :: ReservationRequest
  res_Maximum :: u256
  res_State :: ReservationState
  res_TxHash :: hash
  res_Actual :: u256
  res_CreatedAt :: time
  res_ExposedAt :: time
  res_UpdatedAt :: time

record FinalizedCharge =
  chg_ReservationID :: ReservationID
  chg_TxHash :: hash
  chg_Actual :: u256
  chg_ObservedAt :: time

record Totals =
  tot_PerHour :: u256
  tot_PerDay :: u256
  tot_Cumulative :: u256

definition zeroTotals :: Totals where
  "zeroTotals = \<lparr>tot_PerHour = 0, tot_PerDay = 0, tot_Cumulative = 0\<rparr>"

record ScopeSnapshot =
  snap_Spent :: Totals
  snap_Reserved :: Totals
  snap_Remaining :: Totals

definition Blocked :: "ScopeSnapshot \<Rightarrow> bool" where
  "Blocked snapshot \<longleftrightarrow>
     tot_PerHour (snap_Remaining snapshot) = 0 \<or> tot_PerDay (snap_Remaining snapshot) = 0 \<or>
     tot_Cumulative (snap_Remaining snapshot) = 0"

record Snapshot =
  snap_At :: time
  snap_Global :: ScopeSnapshot
  snap_Networks :: "(NetworkID \<times> ScopeSnapshot) list"

section \<open>Codec\<close>

definition validPersistentTime :: "time \<Rightarrow> bool" where
  "validPersistentTime t \<longleftrightarrow> \<not> IsZero t \<and> 0 \<le> Unix t \<and> (Unix t \<noteq> 0 \<or> Nanosecond t \<noteq> 0)"

abbreviation reservationRecordVersion :: byte where "reservationRecordVersion \<equiv> 1"

definition appendLimits :: "bytes \<Rightarrow> Limits \<Rightarrow> bytes" where
  "appendLimits target limits =
     (let target = appendUint256 target (PerTransaction limits);
          target = appendUint256 target (PerHour limits);
          target = appendUint256 target (PerDay limits)
      in appendUint256 target (Cumulative limits))"

definition encodeNetwork :: "bytes \<Rightarrow> NetworkPolicy \<Rightarrow> bytes" where
  "encodeNetwork result network =
     (let result = appendUint64 result (np_Network network);
          result = result @ word_bytes 20 (np_Sponsor network);
          result = appendLimits result (np_Limits network);
          result = appendUint256 result (np_TransactionOverhead network)
      in appendUint256 result (np_EmergencySponsorReserve network))"

definition encodeOverrun :: "bytes \<Rightarrow> NetworkPolicy \<Rightarrow> bytes" where
  "encodeOverrun result network =
     (if np_AllowFeeOverrun network
      then appendUint64 (result @ ascii ''estimated-fees/v1'') (np_Network network)
      else result)"

definition sort_networks :: "NetworkPolicy list \<Rightarrow> NetworkPolicy list" where
  "sort_networks = sort_key (\<lambda>n. sint (np_Network n))"

definition encodePolicy :: "Policy \<Rightarrow> bytes" where
  "encodePolicy policy =
     (let networks = sort_networks (pol_Networks policy);
          result = [reservationRecordVersion];
          result = appendLimits result (pol_Global policy);
          result = appendUint32 result (word_of_nat (length networks));
          result = foldl encodeNetwork result networks
      in foldl encodeOverrun result networks)"

definition encodeReservation :: "Reservation \<Rightarrow> bytes option" where
  "encodeReservation r =
     (if \<not> validPersistentTime (res_CreatedAt r) \<or> \<not> validPersistentTime (res_UpdatedAt r) then None
      else
        let result = [reservationRecordVersion, res_State r];
            result = result @ id_bytes (res_ID r);
            result = appendUint64 result (req_Network (res_Request r));
            result = result @ word_bytes 20 (req_Sponsor (res_Request r));
            result = result @ id_bytes (req_Candidate (res_Request r));
            result = result @ id_bytes (att_Incident (req_Attempt (res_Request r)));
            result = appendUint32 result (att_Number (req_Attempt (res_Request r)));
            result = appendUint64 result (GasLimit (req_Quote (res_Request r)));
            result = appendUint256 result (MaxFeePerGas (req_Quote (res_Request r)));
            result = appendUint256 result (MaximumCost (req_Quote (res_Request r)));
            result = appendUint256 result (req_SponsorBalance (res_Request r));
            result = appendTime result (req_ObservedAt (res_Request r));
            result = appendUint256 result (res_Maximum r);
            result = appendUint256 result (res_Actual r);
            result = result @ id_bytes (res_TxHash r);
            result = appendTime result (res_CreatedAt r);
            result = appendTime result (res_ExposedAt r);
            result = appendTime result (res_UpdatedAt r)
        in Some result)"

abbreviation recordSize :: nat where "recordSize \<equiv> 378"

definition decodeReservation :: "bytes \<Rightarrow> Reservation option" where
  "decodeReservation data =
     (if length data \<noteq> recordSize \<or> data ! 0 \<noteq> reservationRecordVersion then None
      else do {
        let state = data ! 1;
        (rid, off) \<leftarrow> readFixed32 data 2;
        (network, off) \<leftarrow> readUint64 data off;
        (if 0x7fffffffffffffff < network then None else do {
        (sponsor, off) \<leftarrow> readFixed20 data off;
        (candidate, off) \<leftarrow> readFixed32 data off;
        (incident, off) \<leftarrow> readFixed32 data off;
        (number, off) \<leftarrow> readUint32 data off;
        (gasLimit, off) \<leftarrow> readUint64 data off;
        (maxFee, off) \<leftarrow> readUint256 data off;
        (maxCost, off) \<leftarrow> readUint256 data off;
        (balance, off) \<leftarrow> readUint256 data off;
        (observedAt, off) \<leftarrow> readTime data off;
        (maximum, off) \<leftarrow> readUint256 data off;
        (actual, off) \<leftarrow> readUint256 data off;
        (txHash, off) \<leftarrow> readFixed32 data off;
        (createdAt, off) \<leftarrow> readTime data off;
        (exposedAt, off) \<leftarrow> readTime data off;
        (updatedAt, off) \<leftarrow> readTime data off;
        (if off \<noteq> int (length data) then None
         else Some \<lparr>res_ID = rid,
           res_Request = \<lparr>req_Network = network, req_Sponsor = sponsor, req_Candidate = candidate,
             req_Attempt = \<lparr>att_Incident = incident, att_Number = number\<rparr>,
             req_Quote = \<lparr>GasLimit = gasLimit, MaxFeePerGas = maxFee, MaximumCost = maxCost\<rparr>,
             req_SponsorBalance = balance, req_ObservedAt = observedAt\<rparr>,
           res_Maximum = maximum, res_State = state, res_TxHash = txHash, res_Actual = actual,
           res_CreatedAt = createdAt, res_ExposedAt = exposedAt, res_UpdatedAt = updatedAt\<rparr>) }) })"

definition attemptKey :: "Attempt \<Rightarrow> bytes" where
  "attemptKey attempt = appendUint32 (id_bytes (att_Incident attempt)) (att_Number attempt)"

definition decodeAttemptKey :: "bytes \<Rightarrow> Attempt option" where
  "decodeAttemptKey key =
     (if length key \<noteq> 32 + 4 then None
      else Some \<lparr>att_Incident = bytes_word (take 32 key), att_Number = bytes_word (drop 32 key)\<rparr>)"

definition sameReservationRequest :: "ReservationRequest \<Rightarrow> ReservationRequest \<Rightarrow> bool" where
  "sameReservationRequest left right \<longleftrightarrow>
     left\<lparr>req_SponsorBalance := 0, req_ObservedAt := zeroTime\<rparr> =
     right\<lparr>req_SponsorBalance := 0, req_ObservedAt := zeroTime\<rparr>"

definition sortedReservations :: "Reservation list \<Rightarrow> Reservation list" where
  "sortedReservations = sort_key res_ID"

end
