(* ===== verification/Budget_Codec.thy ===== *)
theory Budget_Codec
  imports Budget_Model
begin

text \<open>
  Correctness of the ledger's binary codec: a reservation survives a round trip and attempt keys
  are invertible.
\<close>

lemma valid_time_storable: "time_ok t \<Longrightarrow> validPersistentTime t \<Longrightarrow> storable_time t"
  by (auto simp: storable_time_def validPersistentTime_def time_defs)

section \<open>Reservations\<close>

text \<open>What the fields of a reservation must satisfy to be stored without loss.\<close>

definition storable_reservation :: "Reservation \<Rightarrow> bool" where
  "storable_reservation r \<longleftrightarrow>
     req_Network (res_Request r) \<le> 0x7fffffffffffffff \<and>
     storable_time (req_ObservedAt (res_Request r)) \<and>
     storable_time (res_CreatedAt r) \<and> storable_time (res_ExposedAt r) \<and>
     storable_time (res_UpdatedAt r)"

lemma encodeReservation_layout:
  "encodeReservation r = Some bs \<longleftrightarrow>
     validPersistentTime (res_CreatedAt r) \<and> validPersistentTime (res_UpdatedAt r) \<and>
     bs = [1, res_State r] @ id_bytes (res_ID r) @ word_bytes 8 (req_Network (res_Request r)) @
       word_bytes 20 (req_Sponsor (res_Request r)) @ id_bytes (req_Candidate (res_Request r)) @
       id_bytes (att_Incident (req_Attempt (res_Request r))) @
       word_bytes 4 (att_Number (req_Attempt (res_Request r))) @
       word_bytes 8 (GasLimit (req_Quote (res_Request r))) @
       word_bytes 32 (MaxFeePerGas (req_Quote (res_Request r))) @
       word_bytes 32 (MaximumCost (req_Quote (res_Request r))) @
       word_bytes 32 (req_SponsorBalance (res_Request r)) @
       time_bytes (req_ObservedAt (res_Request r)) @ word_bytes 32 (res_Maximum r) @
       word_bytes 32 (res_Actual r) @ id_bytes (res_TxHash r) @ time_bytes (res_CreatedAt r) @
       time_bytes (res_ExposedAt r) @ time_bytes (res_UpdatedAt r)"
  by (auto simp: encodeReservation_def append_defs Let_def)

lemma decode_encode_reservation:
  assumes enc: "encodeReservation r = Some bs" and ok: "storable_reservation r"
  shows "decodeReservation bs = Some r"
proof -
  note lay = enc [unfolded encodeReservation_layout]
  have len: "length bs = 378"
    using lay by (simp add: time_field.enc_length)
  have start: "rest_at bs 2 (drop 2 bs)"
    using len by (simp add: rest_at_def)
  then have a0: "rest_at bs 2 (id_bytes (res_ID r) @ word_bytes 8 (req_Network (res_Request r)) @
       word_bytes 20 (req_Sponsor (res_Request r)) @ id_bytes (req_Candidate (res_Request r)) @
       id_bytes (att_Incident (req_Attempt (res_Request r))) @
       word_bytes 4 (att_Number (req_Attempt (res_Request r))) @
       word_bytes 8 (GasLimit (req_Quote (res_Request r))) @
       word_bytes 32 (MaxFeePerGas (req_Quote (res_Request r))) @
       word_bytes 32 (MaximumCost (req_Quote (res_Request r))) @
       word_bytes 32 (req_SponsorBalance (res_Request r)) @
       time_bytes (req_ObservedAt (res_Request r)) @ word_bytes 32 (res_Maximum r) @
       word_bytes 32 (res_Actual r) @ id_bytes (res_TxHash r) @ time_bytes (res_CreatedAt r) @
       time_bytes (res_ExposedAt r) @ time_bytes (res_UpdatedAt r) @ [])"
    using lay by simp
  note a1 = hash_field.rest_after [OF a0] and r0 = hash_field.read_back [OF a0 TrueI]
  note a2 = u64_field.rest_after [OF a1] and r1 = u64_field.read_back [OF a1 TrueI]
  note a3 = address_field.rest_after [OF a2] and r2 = address_field.read_back [OF a2 TrueI]
  note a4 = hash_field.rest_after [OF a3] and r3 = hash_field.read_back [OF a3 TrueI]
  note a5 = hash_field.rest_after [OF a4] and r4 = hash_field.read_back [OF a4 TrueI]
  note a6 = u32_field.rest_after [OF a5] and r5 = u32_field.read_back [OF a5 TrueI]
  note a7 = u64_field.rest_after [OF a6] and r6 = u64_field.read_back [OF a6 TrueI]
  note a8 = u256_field.rest_after [OF a7] and r7 = u256_field.read_back [OF a7 TrueI]
  note a9 = u256_field.rest_after [OF a8] and r8 = u256_field.read_back [OF a8 TrueI]
  note a10 = u256_field.rest_after [OF a9] and r9 = u256_field.read_back [OF a9 TrueI]
  note a11 = time_field.rest_after [OF a10] and r10 = time_field.read_back [OF a10]
  note a12 = u256_field.rest_after [OF a11] and r11 = u256_field.read_back [OF a11 TrueI]
  note a13 = u256_field.rest_after [OF a12] and r12 = u256_field.read_back [OF a12 TrueI]
  note a14 = hash_field.rest_after [OF a13] and r13 = hash_field.read_back [OF a13 TrueI]
  note a15 = time_field.rest_after [OF a14] and r14 = time_field.read_back [OF a14]
  note a16 = time_field.rest_after [OF a15] and r15 = time_field.read_back [OF a15]
  note r16 = time_field.read_back [OF a16]
  note reads = r0 r1 r2 r3 r4 r5 r6 r7 r8 r9 r10 r11 r12 r13 r14 r15 r16
  have "bs ! 0 = 1" and "bs ! 1 = res_State r"
    using lay by simp_all
  then show ?thesis
    using len ok [unfolded storable_reservation_def] reads
    by (simp add: decodeReservation_def not_less cong: bind_weak_cong)
qed

section \<open>Attempt keys\<close>

lemma decode_attemptKey [simp]: "decodeAttemptKey (attemptKey a) = Some a"
  by (simp add: decodeAttemptKey_def attemptKey_def appendUint32_def bytes_word_word_bytes)

lemma attemptKey_inject [simp]: "attemptKey a = attemptKey b \<longleftrightarrow> a = b"
  by (metis decode_attemptKey option.inject)

lemma attemptKey_decode: "decodeAttemptKey key = Some a \<Longrightarrow> attemptKey a = key"
  by (auto simp: decodeAttemptKey_def attemptKey_def appendUint32_def word_bytes_bytes_word
      split: if_splits)

lemma reservation_preimage_inject: "reservation_preimage a = reservation_preimage b \<longleftrightarrow> a = b"
  using word_bytes_inject [where 'a = 32 and n = 4]
  by (cases a; cases b) (auto simp: reservation_preimage_def fixed_fields_inject)

end
