(* ===== verification/Budget_Ledger.thy ===== *)
theory Budget_Ledger
  imports Budget_Codec
begin

text \<open>
  The budget ledger (\<^verbatim>\<open>internal/budget/ledger.go\<close>): a transactional journal, shared by the
  coordinators of all networks, that reserves the maximum cost of a transaction before it is signed
  and replaces the reservation by the actual charge once the receipt is final.

  The persistent state is three buckets of the engine (\<open>'b ledger_db\<close>); an operation is a function
  from the ledger object, what it observes of its environment and the state to a result and the next
  state. Every error return of the source is a value of \<open>ledger_error\<close>.
\<close>

section \<open>State\<close>

record ledger =
  led_policy :: Policy
  led_networks :: "(NetworkID \<times> NetworkPolicy) list"
  led_maxRecords :: u32
  led_closed :: bool

record 'b ledger_db =
  db_meta :: 'b
  db_reservations :: 'b
  db_attempts :: 'b

text \<open>
  What one call observes: the context when the call begins and inside the transaction, the wall
  clock, and whether the engine commits the transaction.
\<close>

record ledger_env =
  env_ctx_begin :: ctx_state
  env_ctx_tx :: ctx_state
  env_now :: time
  env_commit :: bool

record scopeUsage =
  feeOverrun :: bool
  reserved :: u256
  hourSpent :: u256
  daySpent :: u256
  allSpent :: u256

record aggregateUsage =
  agg_global :: scopeUsage
  agg_networks :: "NetworkID \<Rightarrow> scopeUsage"
  agg_sponsors :: "NetworkID \<times> address \<Rightarrow> u256"

definition zeroUsage :: scopeUsage where
  "zeroUsage = \<lparr>feeOverrun = False, reserved = 0, hourSpent = 0, daySpent = 0, allSpent = 0\<rparr>"

definition zeroAggregate :: aggregateUsage where
  "zeroAggregate = \<lparr>agg_global = zeroUsage, agg_networks = (\<lambda>_. zeroUsage), agg_sponsors = (\<lambda>_. 0)\<rparr>"

abbreviation ledgerSchemaVersion :: u32 where "ledgerSchemaVersion \<equiv> 1"
abbreviation defaultMaxRecords :: u32 where "defaultMaxRecords \<equiv> 100000"

definition maximumObservedSkew :: duration where "maximumObservedSkew = 2 * minute"

definition ledgerSchemaKey :: bytes where "ledgerSchemaKey = ascii ''schema''"
definition ledgerPolicyKey :: bytes where "ledgerPolicyKey = ascii ''policy''"
definition ledgerFingerprintKey :: bytes where "ledgerFingerprintKey = ascii ''policy-fingerprint''"
definition ledgerLastSeenKey :: bytes where "ledgerLastSeenKey = ascii ''last-seen''"
definition ledgerMaxRecordsKey :: bytes where "ledgerMaxRecordsKey = ascii ''max-records''"

text \<open>\<^verbatim>\<open>Get\<close> returns \<^verbatim>\<open>nil\<close> for a missing key; as a byte slice that is the empty one.\<close>

definition bytes_or_nil :: "bytes option \<Rightarrow> bytes" where
  "bytes_or_nil v = (case v of None \<Rightarrow> [] | Some bs \<Rightarrow> bs)"

text \<open>\<^verbatim>\<open>ledger.networks[id]\<close>: the zero policy for an unknown network.\<close>

definition network_policy :: "ledger \<Rightarrow> NetworkID \<Rightarrow> NetworkPolicy" where
  "network_policy L n = (case map_of (led_networks L) n of None \<Rightarrow> zeroNetworkPolicy | Some p \<Rightarrow> p)"

section \<open>Policy validation\<close>

definition validateLimits :: "Limits \<Rightarrow> bool" where
  "validateLimits l \<longleftrightarrow>
     \<not> (PerTransaction l = 0 \<or> PerHour l = 0 \<or> PerDay l = 0 \<or> Cumulative l = 0 \<or>
        PerHour l < PerTransaction l \<or> PerDay l < PerHour l \<or> Cumulative l < PerDay l)"

definition add_network ::
  "(NetworkID \<times> NetworkPolicy) list \<Rightarrow> NetworkPolicy \<Rightarrow> ledger_error + (NetworkID \<times> NetworkPolicy) list"
where
  "add_network networks network =
     (if sint (np_Network network) \<le> 0 \<or> np_Sponsor network = 0 \<or>
         np_EmergencySponsorReserve network = 0 \<or> \<not> validateLimits (np_Limits network)
      then Inl ErrInvalidOptions
      else if map_of networks (np_Network network) \<noteq> None then Inl ErrInvalidOptions
      else Inr (networks @ [(np_Network network, network)]))"

definition validateAndNormalizePolicy ::
  "Policy \<Rightarrow> ledger_error + Policy \<times> (NetworkID \<times> NetworkPolicy) list" where
  "validateAndNormalizePolicy policy =
     (if \<not> validateLimits (pol_Global policy) \<or> pol_Networks policy = [] \<or>
         2 ^ 32 \<le> int (length (pol_Networks policy))
      then Inl ErrInvalidOptions
      else
        let result = \<lparr>pol_Global = pol_Global policy, pol_Networks = sort_networks (pol_Networks policy)\<rparr>
        in case foldE add_network [] (pol_Networks result) of
             Inl e \<Rightarrow> Inl e
           | Inr networks \<Rightarrow> Inr (result, networks))"

section \<open>Time\<close>

definition normalizeTime :: "time \<Rightarrow> time" where
  "normalizeTime t = t"

definition withinObservedSkew :: "time \<Rightarrow> time \<Rightarrow> bool" where
  "withinObservedSkew observed local =
     (let delta = time_Sub observed local
      in - maximumObservedSkew \<le> delta \<and> delta \<le> maximumObservedSkew)"

definition decodeStoredTime :: "bytes \<Rightarrow> ledger_error + time" where
  "decodeStoredTime data =
     (if length data \<noteq> 12 then Inl ErrCorrupt
      else case readTime data 0 of
             None \<Rightarrow> Inl ErrCorrupt
           | Some (value, off) \<Rightarrow>
               if off \<noteq> int (length data) \<or> \<not> validPersistentTime value then Inl ErrCorrupt
               else Inr value)"

definition observedNow :: "ledger_env \<Rightarrow> ledger_error + time" where
  "observedNow env =
     (let now = normalizeTime (env_now env)
      in if \<not> validPersistentTime now then Inl ErrInvalidRequest else Inr now)"

definition lastSeen :: "'b bolt \<Rightarrow> 'b ledger_db \<Rightarrow> ledger_error + time" where
  "lastSeen B db = decodeStoredTime (bytes_or_nil (bget B (db_meta db) ledgerLastSeenKey))"

definition effectiveNow ::
  "'b bolt \<Rightarrow> 'b ledger_db \<Rightarrow> time \<Rightarrow> ledger_error + time \<times> 'b ledger_db" where
  "effectiveNow B db observed =
     (case lastSeen B db of
        Inl _ \<Rightarrow> Inl ErrCorrupt
      | Inr seen \<Rightarrow>
          if \<not> After observed seen then Inr (seen, db)
          else case bput B (db_meta db) ledgerLastSeenKey (appendTime [] observed) of
                 None \<Rightarrow> Inl EngineError
               | Some meta' \<Rightarrow> Inr (observed, db\<lparr>db_meta := meta'\<rparr>))"

section \<open>Record validation\<close>

definition validAttempt :: "Attempt \<Rightarrow> bool" where
  "validAttempt a \<longleftrightarrow> att_Incident a \<noteq> 0 \<and> 0 < att_Number a"

definition validateRequest :: "ledger \<Rightarrow> ReservationRequest \<Rightarrow> ledger_error option" where
  "validateRequest L request =
     (case map_of (led_networks L) (req_Network request) of
        None \<Rightarrow> Some ErrInvalidRequest
      | Some network \<Rightarrow>
          if req_Sponsor request = 0 \<or> req_Sponsor request \<noteq> np_Sponsor network \<or>
             req_Candidate request = 0 \<or> \<not> validAttempt (req_Attempt request) \<or>
             GasLimit (req_Quote request) = 0 \<or> MaxFeePerGas (req_Quote request) = 0 \<or>
             req_SponsorBalance request = 0
          then Some ErrInvalidRequest
          else case Maximum (req_Quote request) (np_TransactionOverhead network) of
                 Inl e \<Rightarrow> Some e
               | Inr _ \<Rightarrow> None)"

text \<open>\<open>True\<close> where the Go function returns \<^verbatim>\<open>nil\<close>, \<open>False\<close> for \<^verbatim>\<open>ErrCorrupt\<close>.\<close>

definition validateReservation :: "ledger \<Rightarrow> Reservation \<Rightarrow> bool" where
  "validateReservation L r \<longleftrightarrow>
     \<not> (res_ID r = 0 \<or> res_ID r \<noteq> NewReservationID (req_Attempt (res_Request r)) \<or>
        validateRequest L (res_Request r) \<noteq> None \<or> \<not> validPersistentTime (res_CreatedAt r) \<or>
        \<not> validPersistentTime (res_UpdatedAt r) \<or> Before (res_UpdatedAt r) (res_CreatedAt r)) \<and>
     (let network = network_policy L (req_Network (res_Request r))
      in (case Maximum (req_Quote (res_Request r)) (np_TransactionOverhead network) of
            Inl _ \<Rightarrow> False
          | Inr maximum \<Rightarrow>
              \<not> (maximum \<noteq> res_Maximum r \<or>
                 PerTransaction (pol_Global (led_policy L)) < res_Maximum r \<or>
                 PerTransaction (np_Limits network) < res_Maximum r)) \<and>
         (if res_State r = ReservationHeld then
            \<not> (res_TxHash r \<noteq> 0 \<or> res_Actual r \<noteq> 0 \<or> \<not> IsZero (res_ExposedAt r))
          else if res_State r = ReservationExposed then
            \<not> (res_TxHash r = 0 \<or> res_Actual r \<noteq> 0 \<or> \<not> validPersistentTime (res_ExposedAt r) \<or>
               Before (res_ExposedAt r) (res_CreatedAt r) \<or> Before (res_UpdatedAt r) (res_ExposedAt r))
          else if res_State r = ReservationCommitted then
            \<not> (res_TxHash r = 0 \<or> res_Actual r = 0 \<or>
               res_Maximum r < res_Actual r \<and> \<not> np_AllowFeeOverrun network \<or>
               \<not> validPersistentTime (res_ExposedAt r) \<or>
               Before (res_ExposedAt r) (res_CreatedAt r) \<or> Before (res_UpdatedAt r) (res_ExposedAt r))
          else if res_State r = ReservationReleased then
            \<not> (res_TxHash r \<noteq> 0 \<or> res_Actual r \<noteq> 0 \<or> \<not> IsZero (res_ExposedAt r))
          else False))"

definition reservationByID ::
  "'b bolt \<Rightarrow> ledger \<Rightarrow> 'b ledger_db \<Rightarrow> ReservationID \<Rightarrow> ledger_error + Reservation" where
  "reservationByID B L db rid =
     (case bget B (db_reservations db) (id_bytes rid) of
        None \<Rightarrow> Inl ErrStateConflict
      | Some data \<Rightarrow>
          case decodeReservation data of
            None \<Rightarrow> Inl ErrCorrupt
          | Some r \<Rightarrow> if res_ID r \<noteq> rid \<or> \<not> validateReservation L r then Inl ErrCorrupt else Inr r)"

section \<open>Usage\<close>

definition addChecked :: "u256 \<Rightarrow> u256 \<Rightarrow> ledger_error + u256" where
  "addChecked target value =
     (let (s, overflow) = AddOverflow target value
      in if overflow then Inl ErrArithmeticOverflow else Inr s)"

text \<open>\<^verbatim>\<open>addChecked(&global, v) != nil || addChecked(&network, v) != nil\<close>: \<open>None\<close> if either overflows.\<close>

definition addBoth :: "u256 \<Rightarrow> u256 \<Rightarrow> u256 \<Rightarrow> (u256 \<times> u256) option" where
  "addBoth global network v =
     (case addChecked global v of
        Inl _ \<Rightarrow> None
      | Inr global' \<Rightarrow>
          case addChecked network v of Inl _ \<Rightarrow> None | Inr network' \<Rightarrow> Some (global', network'))"

definition chargeReserved :: "Reservation \<Rightarrow> aggregateUsage \<Rightarrow> ledger_error + aggregateUsage" where
  "chargeReserved r usage =
     (let n = req_Network (res_Request r); global = agg_global usage; network = agg_networks usage n
      in case addBoth (reserved global) (reserved network) (res_Maximum r) of
           None \<Rightarrow> Inl ErrCorrupt
         | Some (g, w) \<Rightarrow>
             let key = (n, req_Sponsor (res_Request r))
             in case addChecked (agg_sponsors usage key) (res_Maximum r) of
                  Inl _ \<Rightarrow> Inl ErrCorrupt
                | Inr s \<Rightarrow>
                    Inr (usage\<lparr>agg_global := global\<lparr>reserved := g\<rparr>,
                           agg_networks := (agg_networks usage)(n := network\<lparr>reserved := w\<rparr>),
                           agg_sponsors := (agg_sponsors usage)(key := s)\<rparr>))"

definition chargeCommitted ::
  "time \<Rightarrow> Reservation \<Rightarrow> aggregateUsage \<Rightarrow> ledger_error + aggregateUsage" where
  "chargeCommitted now r usage =
     (let n = req_Network (res_Request r);
          overrun = res_Maximum r < res_Actual r;
          global = (agg_global usage)\<lparr>feeOverrun := feeOverrun (agg_global usage) \<or> overrun\<rparr>;
          network = (agg_networks usage n)\<lparr>feeOverrun := feeOverrun (agg_networks usage n) \<or> overrun\<rparr>
      in case addBoth (allSpent global) (allSpent network) (res_Actual r) of
           None \<Rightarrow> Inl ErrCorrupt
         | Some (g, w) \<Rightarrow>
             let global = global\<lparr>allSpent := g\<rparr>; network = network\<lparr>allSpent := w\<rparr>
             in case (if Before (res_UpdatedAt r) (time_Add now (- (24 * hour)))
                      then Some (daySpent global, daySpent network)
                      else addBoth (daySpent global) (daySpent network) (res_Actual r)) of
                  None \<Rightarrow> Inl ErrCorrupt
                | Some (g, w) \<Rightarrow>
                    let global = global\<lparr>daySpent := g\<rparr>; network = network\<lparr>daySpent := w\<rparr>
                    in case (if Before (res_UpdatedAt r) (time_Add now (- hour))
                             then Some (hourSpent global, hourSpent network)
                             else addBoth (hourSpent global) (hourSpent network) (res_Actual r)) of
                         None \<Rightarrow> Inl ErrCorrupt
                       | Some (g, w) \<Rightarrow>
                           Inr (usage\<lparr>agg_global := global\<lparr>hourSpent := g\<rparr>,
                             agg_networks := (agg_networks usage)(n := network\<lparr>hourSpent := w\<rparr>)\<rparr>))"

definition collectReservation ::
  "'b bolt \<Rightarrow> ledger \<Rightarrow> 'b ledger_db \<Rightarrow> time \<Rightarrow> aggregateUsage \<Rightarrow> bytes \<times> bytes \<Rightarrow>
     ledger_error + aggregateUsage" where
  "collectReservation B L db now usage entry =
     (let (key, value) = entry in
      if length key \<noteq> 32 then Inl ErrCorrupt
      else case decodeReservation value of
        None \<Rightarrow> Inl ErrCorrupt
      | Some r \<Rightarrow>
          if key \<noteq> id_bytes (res_ID r) \<or> \<not> validateReservation L r \<or>
             bytes_or_nil (bget B (db_attempts db) (attemptKey (req_Attempt (res_Request r)))) \<noteq>
               id_bytes (res_ID r)
          then Inl ErrCorrupt
          else if res_State r = ReservationHeld \<or> res_State r = ReservationExposed
          then chargeReserved r usage
          else if res_State r = ReservationCommitted then chargeCommitted now r usage
          else if res_State r = ReservationReleased then Inr usage
          else Inl ErrCorrupt)"

definition collectAttempt ::
  "'b bolt \<Rightarrow> 'b ledger_db \<Rightarrow> unit \<Rightarrow> bytes \<times> bytes \<Rightarrow> ledger_error + unit" where
  "collectAttempt B db _ entry =
     (let (key, value) = entry in
      case decodeAttemptKey key of
        None \<Rightarrow> Inl ErrCorrupt
      | Some attempt \<Rightarrow>
          if \<not> validAttempt attempt \<or> length value \<noteq> 32 then Inl ErrCorrupt
          else case decodeReservation (bytes_or_nil (bget B (db_reservations db) value)) of
            None \<Rightarrow> Inl ErrCorrupt
          | Some r \<Rightarrow>
              if req_Attempt (res_Request r) \<noteq> attempt \<or> value \<noteq> id_bytes (res_ID r)
              then Inl ErrCorrupt else Inr ())"

definition fitsExisting :: "u256 \<Rightarrow> u256 \<Rightarrow> u256 \<Rightarrow> bool" where
  "fitsExisting limit spent held \<longleftrightarrow>
     (if limit < spent then False else let remaining = limit - spent in \<not> remaining < held)"

definition scopeWithinLimits :: "Limits \<Rightarrow> scopeUsage \<Rightarrow> bool" where
  "scopeWithinLimits limits usage \<longleftrightarrow>
     (if feeOverrun usage then True
      else fitsExisting (PerHour limits) (hourSpent usage) (reserved usage) \<and>
           fitsExisting (PerDay limits) (daySpent usage) (reserved usage) \<and>
           fitsExisting (Cumulative limits) (allSpent usage) (reserved usage))"

definition collectUsage ::
  "'b bolt \<Rightarrow> ledger \<Rightarrow> 'b ledger_db \<Rightarrow> time \<Rightarrow> ledger_error + aggregateUsage" where
  "collectUsage B L db now =
     (case foldE (collectReservation B L db now) zeroAggregate (bentries B (db_reservations db)) of
        Inl e \<Rightarrow> Inl e
      | Inr usage \<Rightarrow>
          case foldE (collectAttempt B db) () (bentries B (db_attempts db)) of
            Inl _ \<Rightarrow> Inl ErrCorrupt
          | Inr _ \<Rightarrow>
              if length (bentries B (db_attempts db)) \<noteq> length (bentries B (db_reservations db))
              then Inl ErrCorrupt
              else if uint (led_maxRecords L) < int (length (bentries B (db_reservations db)))
              then Inl ErrCorrupt
              else if \<not> scopeWithinLimits (pol_Global (led_policy L)) (agg_global usage)
              then Inl ErrCorrupt
              else if \<not> list_all (\<lambda>(n, p). scopeWithinLimits (np_Limits p) (agg_networks usage n))
                         (led_networks L)
              then Inl ErrCorrupt
              else Inr usage)"

section \<open>Admission checks\<close>

definition hasCapacity :: "u256 \<Rightarrow> u256 \<Rightarrow> u256 \<Rightarrow> u256 \<Rightarrow> bool" where
  "hasCapacity limit spent held requested \<longleftrightarrow>
     (if limit < spent then False
      else let remaining = limit - spent
           in if remaining < held then False
              else let remaining = remaining - held in \<not> remaining < requested)"

definition checkScopeBudget :: "Limits \<Rightarrow> scopeUsage \<Rightarrow> u256 \<Rightarrow> bool" where
  "checkScopeBudget limits usage maximum \<longleftrightarrow>
     \<not> (feeOverrun usage \<or> PerTransaction limits < maximum \<or>
        \<not> hasCapacity (PerHour limits) (hourSpent usage) (reserved usage) maximum \<or>
        \<not> hasCapacity (PerDay limits) (daySpent usage) (reserved usage) maximum \<or>
        \<not> hasCapacity (Cumulative limits) (allSpent usage) (reserved usage) maximum)"

definition sponsorHasCapacity :: "u256 \<Rightarrow> u256 \<Rightarrow> u256 \<Rightarrow> u256 \<Rightarrow> bool" where
  "sponsorHasCapacity balance emergency held requested \<longleftrightarrow>
     (if balance < emergency then False
      else let remaining = balance - emergency
           in if remaining < held then False
              else let remaining = remaining - held in \<not> remaining < requested)"

definition remaining_of :: "u256 \<Rightarrow> u256 \<Rightarrow> u256 \<Rightarrow> u256 option" where
  "remaining_of limit spent held =
     (if limit < spent then None
      else let result = limit - spent
           in if result < held then None else Some (result - held))"

definition makeScopeSnapshot :: "Limits \<Rightarrow> scopeUsage \<Rightarrow> ledger_error + ScopeSnapshot" where
  "makeScopeSnapshot limits usage =
     (let spent = \<lparr>tot_PerHour = hourSpent usage, tot_PerDay = daySpent usage, tot_Cumulative = allSpent usage\<rparr>;
          held = \<lparr>tot_PerHour = reserved usage, tot_PerDay = reserved usage, tot_Cumulative = reserved usage\<rparr>
      in if feeOverrun usage
         then Inr \<lparr>snap_Spent = spent, snap_Reserved = held, snap_Remaining = zeroTotals\<rparr>
         else case remaining_of (PerHour limits) (hourSpent usage) (reserved usage) of
           None \<Rightarrow> Inl ErrCorrupt
         | Some remainingHour \<Rightarrow>
             case remaining_of (PerDay limits) (daySpent usage) (reserved usage) of
               None \<Rightarrow> Inl ErrCorrupt
             | Some remainingDay \<Rightarrow>
                 case remaining_of (Cumulative limits) (allSpent usage) (reserved usage) of
                   None \<Rightarrow> Inl ErrCorrupt
                 | Some remainingAll \<Rightarrow>
                     Inr \<lparr>snap_Spent = spent, snap_Reserved = held,
                       snap_Remaining = \<lparr>tot_PerHour = remainingHour, tot_PerDay = remainingDay,
                         tot_Cumulative = remainingAll\<rparr>\<rparr>)"

end
