(* ===== verification/Budget_Operations.thy ===== *)
theory Budget_Operations
  imports Budget_Ledger
begin

text \<open>
  The operations of \<^verbatim>\<open>BudgetLedger\<close>: opening, reserving, the reservation's transitions and the
  queries. Each public method is \<open>begin\<close>, a transaction body (\<open>..._tx\<close>) and the mapping of
  internal errors to public ones.
\<close>

section \<open>Calls\<close>

definition contextError :: "ctx_state \<Rightarrow> ledger_error option" where
  "contextError ctx =
     (case ctx of
        CtxNil \<Rightarrow> Some ErrInvalidRequest
      | CtxLive \<Rightarrow> None
      | CtxCanceled \<Rightarrow> Some (CtxErr CtxCanceled)
      | CtxDeadlineExceeded \<Rightarrow> Some (CtxErr CtxDeadlineExceeded))"

definition begin_call :: "ledger \<Rightarrow> ledger_env \<Rightarrow> ledger_error option" where
  "begin_call L env =
     (case contextError (env_ctx_begin env) of
        Some e \<Rightarrow> Some e
      | None \<Rightarrow> if led_closed L then Some ErrClosed else None)"

definition publicError :: "ledger_error \<Rightarrow> ledger_error" where
  "publicError e =
     (case e of
        CtxErr c \<Rightarrow> CtxErr c
      | ErrClosed \<Rightarrow> ErrClosed
      | ErrInvalidRequest \<Rightarrow> ErrInvalidRequest
      | ErrArithmeticOverflow \<Rightarrow> ErrArithmeticOverflow
      | ErrBudgetExceeded \<Rightarrow> ErrBudgetExceeded
      | ErrSponsorReserve \<Rightarrow> ErrSponsorReserve
      | ErrStateConflict \<Rightarrow> ErrStateConflict
      | ErrCapacity \<Rightarrow> ErrCapacity
      | _ \<Rightarrow> ErrCorrupt)"

definition public :: "(ledger_error + 'r) \<times> 'db \<Rightarrow> (ledger_error + 'r) \<times> 'db" where
  "public out = (case out of (Inl e, db) \<Rightarrow> (Inl (publicError e), db) | (Inr r, db) \<Rightarrow> (Inr r, db))"

definition update_db ::
  "ledger_env \<Rightarrow> 'b ledger_db \<Rightarrow> ('b ledger_db \<Rightarrow> ledger_error + 'r \<times> 'b ledger_db) \<Rightarrow>
     (ledger_error + 'r) \<times> 'b ledger_db" where
  "update_db env db body =
     public (db_Update (env_commit env) EngineError db
       (\<lambda>db. case contextError (env_ctx_tx env) of Some e \<Rightarrow> Inl e | None \<Rightarrow> body db))"

section \<open>Reserving\<close>

definition olderReleased :: "Reservation option \<Rightarrow> Reservation \<Rightarrow> bool" where
  "olderReleased selected r \<longleftrightarrow>
     (case selected of
        None \<Rightarrow> True
      | Some s \<Rightarrow> Before (res_UpdatedAt r) (res_UpdatedAt s) \<or>
          res_UpdatedAt r = res_UpdatedAt s \<and> res_ID r < res_ID s)"

definition selectReleased ::
  "ledger \<Rightarrow> Reservation option \<Rightarrow> bytes \<times> bytes \<Rightarrow> ledger_error + Reservation option" where
  "selectReleased L selected entry =
     (case decodeReservation (snd entry) of
        None \<Rightarrow> Inl ErrCorrupt
      | Some r \<Rightarrow>
          if \<not> validateReservation L r then Inl ErrCorrupt
          else if res_State r \<noteq> ReservationReleased then Inr selected
          else if olderReleased selected r then Inr (Some r)
          else Inr selected)"

definition purgeOldestReleased ::
  "'b bolt \<Rightarrow> ledger \<Rightarrow> 'b ledger_db \<Rightarrow> ledger_error + bool \<times> 'b ledger_db" where
  "purgeOldestReleased B L db =
     (case foldE (selectReleased L) None (bentries B (db_reservations db)) of
        Inl e \<Rightarrow> Inl e
      | Inr None \<Rightarrow> Inr (False, db)
      | Inr (Some r) \<Rightarrow>
          case bdel B (db_reservations db) (id_bytes (res_ID r)) of
            None \<Rightarrow> Inl EngineError
          | Some reservations' \<Rightarrow>
              case bdel B (db_attempts db) (attemptKey (req_Attempt (res_Request r))) of
                None \<Rightarrow> Inl EngineError
              | Some attempts' \<Rightarrow>
                  Inr (True, db\<lparr>db_reservations := reservations', db_attempts := attempts'\<rparr>))"

text \<open>The admission test that \<^verbatim>\<open>Reserve\<close> runs for a new and for a released reservation.\<close>

definition admit :: "ledger \<Rightarrow> aggregateUsage \<Rightarrow> ReservationRequest \<Rightarrow> ledger_error + u256" where
  "admit L usage request =
     (let network = network_policy L (req_Network request)
      in case Maximum (req_Quote request) (np_TransactionOverhead network) of
           Inl e \<Rightarrow> Inl e
         | Inr maximum \<Rightarrow>
             if \<not> checkScopeBudget (pol_Global (led_policy L)) (agg_global usage) maximum
             then Inl ErrBudgetExceeded
             else if \<not> checkScopeBudget (np_Limits network) (agg_networks usage (req_Network request)) maximum
             then Inl ErrBudgetExceeded
             else if \<not> sponsorHasCapacity (req_SponsorBalance request) (np_EmergencySponsorReserve network)
                        (agg_sponsors usage (req_Network request, req_Sponsor request)) maximum
             then Inl ErrSponsorReserve
             else Inr maximum)"

definition put_reservation ::
  "'b bolt \<Rightarrow> 'b ledger_db \<Rightarrow> Reservation \<Rightarrow> ledger_error + 'b ledger_db" where
  "put_reservation B db r =
     (case encodeReservation r of
        None \<Rightarrow> Inl ErrCorrupt
      | Some encoded \<Rightarrow>
          case bput B (db_reservations db) (id_bytes (res_ID r)) encoded of
            None \<Rightarrow> Inl EngineError
          | Some reservations' \<Rightarrow> Inr (db\<lparr>db_reservations := reservations'\<rparr>))"

definition reserve_existing ::
  "'b bolt \<Rightarrow> ledger \<Rightarrow> ReservationRequest \<Rightarrow> time \<Rightarrow> aggregateUsage \<Rightarrow> 'b ledger_db \<Rightarrow> bytes \<Rightarrow>
     ledger_error + Reservation \<times> 'b ledger_db" where
  "reserve_existing B L request now usage db existingID =
     (if length existingID \<noteq> 32 then Inl ErrCorrupt
      else case reservationByID B L db (bytes_word existingID) of
        Inl _ \<Rightarrow> Inl ErrCorrupt
      | Inr existing \<Rightarrow>
          if req_Attempt (res_Request existing) \<noteq> req_Attempt request then Inl ErrCorrupt
          else if \<not> sameReservationRequest (res_Request existing) request then Inl ErrStateConflict
          else if res_State existing = ReservationReleased then
            (case admit L usage request of
               Inl e \<Rightarrow> Inl e
             | Inr _ \<Rightarrow>
                 let renewed = existing\<lparr>res_Request := request, res_State := ReservationHeld,
                       res_TxHash := 0, res_Actual := 0, res_CreatedAt := now,
                       res_ExposedAt := zeroTime, res_UpdatedAt := now\<rparr>
                 in case put_reservation B db renewed of
                      Inl e \<Rightarrow> Inl e
                    | Inr db' \<Rightarrow> Inr (renewed, db'))
          else Inr (existing, db))"

definition reserve_new ::
  "'b bolt \<Rightarrow> ledger \<Rightarrow> ReservationRequest \<Rightarrow> time \<Rightarrow> aggregateUsage \<Rightarrow> 'b ledger_db \<Rightarrow>
     ledger_error + Reservation \<times> 'b ledger_db" where
  "reserve_new B L request now usage db =
     (case (if uint (led_maxRecords L) \<le> int (length (bentries B (db_reservations db)))
            then case purgeOldestReleased B L db of
                   Inl e \<Rightarrow> Inl e
                 | Inr (removed, db') \<Rightarrow> if \<not> removed then Inl ErrCapacity else Inr db'
            else Inr db) of
        Inl e \<Rightarrow> Inl e
      | Inr db \<Rightarrow>
          case admit L usage request of
            Inl e \<Rightarrow> Inl e
          | Inr maximum \<Rightarrow>
              let r = \<lparr>res_ID = NewReservationID (req_Attempt request), res_Request = request,
                    res_Maximum = maximum, res_State = ReservationHeld, res_TxHash = 0,
                    res_Actual = 0, res_CreatedAt = now, res_ExposedAt = zeroTime,
                    res_UpdatedAt = now\<rparr>
              in if bget B (db_reservations db) (id_bytes (res_ID r)) \<noteq> None then Inl ErrCorrupt
                 else case put_reservation B db r of
                   Inl e \<Rightarrow> Inl e
                 | Inr db \<Rightarrow>
                     case bput B (db_attempts db) (attemptKey (req_Attempt request)) (id_bytes (res_ID r)) of
                       None \<Rightarrow> Inl EngineError
                     | Some attempts' \<Rightarrow> Inr (r, db\<lparr>db_attempts := attempts'\<rparr>))"

definition reserve_tx ::
  "'b bolt \<Rightarrow> ledger \<Rightarrow> ReservationRequest \<Rightarrow> time \<Rightarrow> 'b ledger_db \<Rightarrow>
     ledger_error + Reservation \<times> 'b ledger_db" where
  "reserve_tx B L request observed db =
     (case effectiveNow B db observed of
        Inl e \<Rightarrow> Inl e
      | Inr (now, db) \<Rightarrow>
          case collectUsage B L db now of
            Inl e \<Rightarrow> Inl e
          | Inr usage \<Rightarrow>
              case bget B (db_attempts db) (attemptKey (req_Attempt request)) of
                Some existingID \<Rightarrow> reserve_existing B L request now usage db existingID
              | None \<Rightarrow> reserve_new B L request now usage db)"

definition Reserve ::
  "'b bolt \<Rightarrow> ledger \<Rightarrow> ledger_env \<Rightarrow> ReservationRequest \<Rightarrow> 'b ledger_db \<Rightarrow>
     (ledger_error + Reservation) \<times> 'b ledger_db" where
  "Reserve B L env request db =
     (case validateRequest L request of
        Some e \<Rightarrow> (Inl e, db)
      | None \<Rightarrow>
          case begin_call L env of
            Some e \<Rightarrow> (Inl e, db)
          | None \<Rightarrow>
              case observedNow env of
                Inl e \<Rightarrow> (Inl e, db)
              | Inr observed \<Rightarrow>
                  if \<not> IsZero (req_ObservedAt request) \<and>
                     (\<not> validPersistentTime (normalizeTime (req_ObservedAt request)) \<or>
                      \<not> withinObservedSkew (normalizeTime (req_ObservedAt request)) observed)
                  then (Inl ErrInvalidRequest, db)
                  else update_db env db (reserve_tx B L request observed))"

section \<open>Transitions\<close>

definition transition_now ::
  "'b bolt \<Rightarrow> ledger_env \<Rightarrow> time \<Rightarrow> 'b ledger_db \<Rightarrow> ledger_error + time \<times> 'b ledger_db" where
  "transition_now B env observed db =
     (if IsZero observed then
        (case lastSeen B db of Inl e \<Rightarrow> Inl e | Inr now \<Rightarrow> Inr (now, db))
      else
        let chainObserved = normalizeTime observed
        in case observedNow env of
             Inl _ \<Rightarrow> Inl ErrInvalidRequest
           | Inr localNow \<Rightarrow>
               if \<not> validPersistentTime chainObserved \<or> \<not> withinObservedSkew chainObserved localNow
               then Inl ErrInvalidRequest
               else effectiveNow B db localNow)"

definition transition_tx ::
  "'b bolt \<Rightarrow> ledger \<Rightarrow> ledger_env \<Rightarrow> ReservationID \<Rightarrow> time \<Rightarrow>
     (Reservation \<Rightarrow> time \<Rightarrow> ledger_error + Reservation) \<Rightarrow> 'b ledger_db \<Rightarrow>
     ledger_error + Reservation \<times> 'b ledger_db" where
  "transition_tx B L env rid observed upd db =
     (case transition_now B env observed db of
        Inl e \<Rightarrow> Inl e
      | Inr (now, db) \<Rightarrow>
          case collectUsage B L db now of
            Inl e \<Rightarrow> Inl e
          | Inr _ \<Rightarrow>
              case reservationByID B L db rid of
                Inl e \<Rightarrow> Inl e
              | Inr before \<Rightarrow>
                  case upd before now of
                    Inl e \<Rightarrow> Inl e
                  | Inr r \<Rightarrow>
                      if r = before then Inr (r, db)
                      else if \<not> validateReservation L r then Inl ErrCorrupt
                      else case encodeReservation r of
                        None \<Rightarrow> Inl ErrCorrupt
                      | Some encoded \<Rightarrow>
                          case bput B (db_reservations db) (id_bytes rid) encoded of
                            None \<Rightarrow> Inl EngineError
                          | Some reservations' \<Rightarrow> Inr (r, db\<lparr>db_reservations := reservations'\<rparr>))"

definition transition ::
  "'b bolt \<Rightarrow> ledger \<Rightarrow> ledger_env \<Rightarrow> ReservationID \<Rightarrow> time \<Rightarrow>
     (Reservation \<Rightarrow> time \<Rightarrow> ledger_error + Reservation) \<Rightarrow> 'b ledger_db \<Rightarrow>
     (ledger_error + Reservation) \<times> 'b ledger_db" where
  "transition B L env rid observed upd db =
     (case begin_call L env of
        Some e \<Rightarrow> (Inl e, db)
      | None \<Rightarrow> update_db env db (transition_tx B L env rid observed upd))"

definition expose :: "hash \<Rightarrow> Reservation \<Rightarrow> time \<Rightarrow> ledger_error + Reservation" where
  "expose txHash r now =
     (if res_State r = ReservationHeld then
        Inr (r\<lparr>res_State := ReservationExposed, res_TxHash := txHash, res_ExposedAt := now,
               res_UpdatedAt := now\<rparr>)
      else if res_State r = ReservationExposed \<or> res_State r = ReservationCommitted then
        (if res_TxHash r \<noteq> txHash then Inl ErrStateConflict else Inr r)
      else if res_State r = ReservationReleased then Inl ErrStateConflict
      else Inl ErrCorrupt)"

definition MarkExposed ::
  "'b bolt \<Rightarrow> ledger \<Rightarrow> ledger_env \<Rightarrow> ReservationID \<Rightarrow> hash \<Rightarrow> 'b ledger_db \<Rightarrow>
     (ledger_error + Reservation) \<times> 'b ledger_db" where
  "MarkExposed B L env rid txHash db =
     (if rid = 0 \<or> txHash = 0 then (Inl ErrInvalidRequest, db)
      else transition B L env rid zeroTime (expose txHash) db)"

definition commit :: "ledger \<Rightarrow> FinalizedCharge \<Rightarrow> Reservation \<Rightarrow> time \<Rightarrow> ledger_error + Reservation" where
  "commit L charge r now =
     (if res_State r = ReservationExposed then
        (if res_TxHash r \<noteq> chg_TxHash charge \<or>
            res_Maximum r < chg_Actual charge \<and>
              \<not> np_AllowFeeOverrun (network_policy L (req_Network (res_Request r)))
         then Inl ErrStateConflict
         else Inr (r\<lparr>res_State := ReservationCommitted, res_Actual := chg_Actual charge,
                     res_UpdatedAt := now\<rparr>))
      else if res_State r = ReservationCommitted then
        (if res_TxHash r \<noteq> chg_TxHash charge \<or> res_Actual r \<noteq> chg_Actual charge
         then Inl ErrStateConflict else Inr r)
      else if res_State r = ReservationHeld \<or> res_State r = ReservationReleased then Inl ErrStateConflict
      else Inl ErrCorrupt)"

definition CommitFinalized ::
  "'b bolt \<Rightarrow> ledger \<Rightarrow> ledger_env \<Rightarrow> FinalizedCharge \<Rightarrow> 'b ledger_db \<Rightarrow>
     (ledger_error + Reservation) \<times> 'b ledger_db" where
  "CommitFinalized B L env charge db =
     (if chg_ReservationID charge = 0 \<or> chg_TxHash charge = 0 \<or> chg_Actual charge = 0
      then (Inl ErrInvalidRequest, db)
      else transition B L env (chg_ReservationID charge) (chg_ObservedAt charge) (commit L charge) db)"

definition release :: "Reservation \<Rightarrow> time \<Rightarrow> ledger_error + Reservation" where
  "release r now =
     (if res_State r = ReservationHeld then
        Inr (r\<lparr>res_State := ReservationReleased, res_UpdatedAt := now\<rparr>)
      else if res_State r = ReservationReleased then Inr r
      else if res_State r = ReservationExposed \<or> res_State r = ReservationCommitted
      then Inl ErrStateConflict
      else Inl ErrCorrupt)"

definition ReleaseProvenUnused ::
  "'b bolt \<Rightarrow> ledger \<Rightarrow> ledger_env \<Rightarrow> ReservationID \<Rightarrow> 'b ledger_db \<Rightarrow>
     (ledger_error + Reservation) \<times> 'b ledger_db" where
  "ReleaseProvenUnused B L env rid db =
     (if rid = 0 then (Inl ErrInvalidRequest, db)
      else transition B L env rid zeroTime release db)"

section \<open>Capacity recheck\<close>

definition check_capacity_tx ::
  "'b bolt \<Rightarrow> ledger \<Rightarrow> ReservationID \<Rightarrow> u256 \<Rightarrow> 'b ledger_db \<Rightarrow> ledger_error + unit \<times> 'b ledger_db"
where
  "check_capacity_tx B L rid balance db =
     (case reservationByID B L db rid of
        Inl e \<Rightarrow> Inl e
      | Inr r \<Rightarrow>
          if res_State r \<noteq> ReservationHeld \<and> res_State r \<noteq> ReservationExposed
          then Inl ErrStateConflict
          else case lastSeen B db of
            Inl _ \<Rightarrow> Inl ErrCorrupt
          | Inr seen \<Rightarrow>
              case collectUsage B L db seen of
                Inl e \<Rightarrow> Inl e
              | Inr usage \<Rightarrow>
                  let policy = network_policy L (req_Network (res_Request r)) in
                  if feeOverrun (agg_global usage) then Inl ErrBudgetExceeded
                  else if \<not> sponsorHasCapacity balance (np_EmergencySponsorReserve policy)
                      (agg_sponsors usage (req_Network (res_Request r), req_Sponsor (res_Request r))) 0
                  then Inl ErrSponsorReserve
                  else if res_State r = ReservationHeld then
                    (let r' = r\<lparr>res_Request := (res_Request r)\<lparr>req_SponsorBalance := balance\<rparr>\<rparr>
                     in case encodeReservation r' of
                          None \<Rightarrow> Inl ErrCorrupt
                        | Some encoded \<Rightarrow>
                            case bput B (db_reservations db) (id_bytes rid) encoded of
                              None \<Rightarrow> Inl EngineError
                            | Some reservations' \<Rightarrow> Inr ((), db\<lparr>db_reservations := reservations'\<rparr>))
                  else Inr ((), db))"

definition CheckSponsorCapacity ::
  "'b bolt \<Rightarrow> ledger \<Rightarrow> ledger_env \<Rightarrow> ReservationID \<Rightarrow> u256 \<Rightarrow> 'b ledger_db \<Rightarrow>
     (ledger_error + unit) \<times> 'b ledger_db" where
  "CheckSponsorCapacity B L env rid balance db =
     (if rid = 0 \<or> balance = 0 then (Inl ErrInvalidRequest, db)
      else case begin_call L env of
        Some e \<Rightarrow> (Inl e, db)
      | None \<Rightarrow> update_db env db (check_capacity_tx B L rid balance))"

section \<open>Queries\<close>

definition view_db :: "ledger \<Rightarrow> ledger_env \<Rightarrow> (ledger_error + 'r) \<Rightarrow> ledger_error + 'r" where
  "view_db L env body =
     (case begin_call L env of
        Some e \<Rightarrow> Inl e
      | None \<Rightarrow>
          case contextError (env_ctx_tx env) of
            Some e \<Rightarrow> Inl (publicError e)
          | None \<Rightarrow> case body of Inl e \<Rightarrow> Inl (publicError e) | Inr r \<Rightarrow> Inr r)"

definition ReservationByAttempt ::
  "'b bolt \<Rightarrow> ledger \<Rightarrow> ledger_env \<Rightarrow> Attempt \<Rightarrow> 'b ledger_db \<Rightarrow> ledger_error + Reservation option"
where
  "ReservationByAttempt B L env attempt db =
     (if \<not> validAttempt attempt then Inl ErrInvalidRequest
      else view_db L env
        (case bget B (db_attempts db) (attemptKey attempt) of
           None \<Rightarrow> Inr None
         | Some value \<Rightarrow>
             if length value \<noteq> 32 then Inl ErrCorrupt
             else case reservationByID B L db (bytes_word value) of
               Inl _ \<Rightarrow> Inl ErrCorrupt
             | Inr r \<Rightarrow> if req_Attempt (res_Request r) \<noteq> attempt then Inl ErrCorrupt else Inr (Some r)))"

definition collectOpen :: "Reservation list \<Rightarrow> bytes \<times> bytes \<Rightarrow> ledger_error + Reservation list" where
  "collectOpen acc entry =
     (case decodeReservation (snd entry) of
        None \<Rightarrow> Inl ErrCorrupt
      | Some r \<Rightarrow>
          if res_State r = ReservationHeld \<or> res_State r = ReservationExposed
          then Inr (acc @ [r]) else Inr acc)"

definition OpenReservations ::
  "'b bolt \<Rightarrow> ledger \<Rightarrow> ledger_env \<Rightarrow> 'b ledger_db \<Rightarrow> ledger_error + Reservation list" where
  "OpenReservations B L env db =
     (case view_db L env
        (case lastSeen B db of
           Inl _ \<Rightarrow> Inl ErrCorrupt
         | Inr seen \<Rightarrow>
             case collectUsage B L db seen of
               Inl e \<Rightarrow> Inl e
             | Inr _ \<Rightarrow> foldE collectOpen [] (bentries B (db_reservations db))) of
        Inl e \<Rightarrow> Inl e
      | Inr reservations \<Rightarrow> Inr (sortedReservations reservations))"

definition snapshotNetwork ::
  "aggregateUsage \<Rightarrow> (NetworkID \<times> ScopeSnapshot) list \<Rightarrow> NetworkID \<times> NetworkPolicy \<Rightarrow>
     ledger_error + (NetworkID \<times> ScopeSnapshot) list" where
  "snapshotNetwork usage acc entry =
     (let (networkID, policy) = entry
      in case makeScopeSnapshot (np_Limits policy) (agg_networks usage networkID) of
           Inl e \<Rightarrow> Inl e
         | Inr network \<Rightarrow> Inr (acc @ [(networkID, network)]))"

definition Snapshot_of ::
  "'b bolt \<Rightarrow> ledger \<Rightarrow> ledger_env \<Rightarrow> 'b ledger_db \<Rightarrow> ledger_error + Snapshot" where
  "Snapshot_of B L env db =
     (case begin_call L env of
        Some e \<Rightarrow> Inl e
      | None \<Rightarrow>
          case observedNow env of
            Inl e \<Rightarrow> Inl e
          | Inr observed \<Rightarrow> view_db L env
              (case lastSeen B db of
                 Inl e \<Rightarrow> Inl e
               | Inr seen \<Rightarrow>
                   let now = (if After observed seen then observed else seen)
                   in case collectUsage B L db now of
                        Inl e \<Rightarrow> Inl e
                      | Inr usage \<Rightarrow>
                          case makeScopeSnapshot (pol_Global (led_policy L)) (agg_global usage) of
                            Inl e \<Rightarrow> Inl e
                          | Inr global \<Rightarrow>
                              case foldE (snapshotNetwork usage) [] (led_networks L) of
                                Inl e \<Rightarrow> Inl e
                              | Inr networks \<Rightarrow>
                                  Inr \<lparr>snap_At = now, snap_Global = global, snap_Networks = networks\<rparr>))"

definition Close :: "ledger \<Rightarrow> ledger" where
  "Close L = L\<lparr>led_closed := True\<rparr>"

section \<open>Opening\<close>

text \<open>The root of the database file: the three buckets of the ledger and whether there is any other.\<close>

record 'b raw_db =
  raw_meta :: "'b option"
  raw_reservations :: "'b option"
  raw_attempts :: "'b option"
  raw_other :: bool

definition empty_raw :: "'b raw_db" where
  "empty_raw = \<lparr>raw_meta = None, raw_reservations = None, raw_attempts = None, raw_other = False\<rparr>"

definition raw_is_empty :: "'b raw_db \<Rightarrow> bool" where
  "raw_is_empty raw \<longleftrightarrow>
     raw_meta raw = None \<and> raw_reservations raw = None \<and> raw_attempts raw = None \<and> \<not> raw_other raw"

definition put_binding :: "'b bolt \<Rightarrow> 'b \<Rightarrow> bytes \<times> bytes \<Rightarrow> ledger_error + 'b" where
  "put_binding B meta binding =
     (case bput B meta (fst binding) (snd binding) of None \<Rightarrow> Inl EngineError | Some meta' \<Rightarrow> Inr meta')"

text \<open>The one compatible change of policy: fee overrun switched on for Base (chain 8453).\<close>

definition previousPolicy :: "Policy \<Rightarrow> Policy" where
  "previousPolicy policy =
     policy\<lparr>pol_Networks := map (\<lambda>n. if np_Network n = 8453 \<and> np_AllowFeeOverrun n
        then n\<lparr>np_AllowFeeOverrun := False\<rparr> else n) (pol_Networks policy)\<rparr>"

definition policyChanged :: "Policy \<Rightarrow> bool" where
  "policyChanged policy \<longleftrightarrow>
     list_ex (\<lambda>n. np_Network n = 8453 \<and> np_AllowFeeOverrun n) (pol_Networks policy)"

definition initialize_fresh ::
  "'b bolt \<Rightarrow> ledger \<Rightarrow> hash \<Rightarrow> 'b raw_db \<Rightarrow> ledger_error + bool \<times> 'b raw_db" where
  "initialize_fresh B L fingerprint raw =
     (case foldE (put_binding B) (bempty B)
        [(ledgerSchemaKey, encodeUint32 ledgerSchemaVersion),
         (ledgerPolicyKey, encodePolicy (led_policy L)),
         (ledgerFingerprintKey, id_bytes fingerprint),
         (ledgerLastSeenKey, appendTime [] (timeUnix 1 0)),
         (ledgerMaxRecordsKey, encodeUint32 (led_maxRecords L))] of
        Inl e \<Rightarrow> Inl e
      | Inr meta \<Rightarrow>
          Inr (True, raw\<lparr>raw_meta := Some meta, raw_reservations := Some (bempty B),
                         raw_attempts := Some (bempty B)\<rparr>))"

definition initialize ::
  "'b bolt \<Rightarrow> ledger \<Rightarrow> hash \<Rightarrow> bool \<Rightarrow> 'b raw_db \<Rightarrow> ledger_error + bool \<times> 'b raw_db" where
  "initialize B L fingerprint allowInitialize raw =
     (case raw_meta raw of
        None \<Rightarrow>
          if \<not> allowInitialize then Inl ErrCorrupt
          else if \<not> raw_is_empty raw then Inl ErrCorrupt
          else initialize_fresh B L fingerprint raw
      | Some meta \<Rightarrow>
          if raw_reservations raw = None \<or> raw_attempts raw = None then Inl ErrCorrupt
          else if length (bytes_or_nil (bget B meta ledgerSchemaKey)) \<noteq> 4 then Inl ErrCorrupt
          else if bytes_or_nil (bget B meta ledgerSchemaKey) \<noteq> encodeUint32 ledgerSchemaVersion
          then Inl ErrPolicyMismatch
          else if length (bytes_or_nil (bget B meta ledgerFingerprintKey)) \<noteq> 32 \<or>
                  bget B meta ledgerPolicyKey = None then Inl ErrCorrupt
          else if bytes_or_nil (bget B meta ledgerFingerprintKey) \<noteq> id_bytes fingerprint
          then Inl ErrPolicyMismatch
          else
            case (if bytes_or_nil (bget B meta ledgerPolicyKey) = encodePolicy (led_policy L) then Inr meta
                  else if \<not> policyChanged (led_policy L) \<or>
                    bytes_or_nil (bget B meta ledgerPolicyKey) \<noteq> encodePolicy (previousPolicy (led_policy L))
                  then Inl ErrPolicyMismatch
                  else put_binding B meta (ledgerPolicyKey, encodePolicy (led_policy L))) of
              Inl e \<Rightarrow> Inl e
            | Inr meta \<Rightarrow>
                if bytes_or_nil (bget B meta ledgerMaxRecordsKey) \<noteq> encodeUint32 (led_maxRecords L)
                then Inl ErrPolicyMismatch
                else case decodeStoredTime (bytes_or_nil (bget B meta ledgerLastSeenKey)) of
                  Inl _ \<Rightarrow> Inl ErrCorrupt
                | Inr _ \<Rightarrow> Inr (False, raw\<lparr>raw_meta := Some meta\<rparr>))"

definition raw_view :: "'b raw_db \<Rightarrow> 'b ledger_db option" where
  "raw_view raw =
     (case (raw_meta raw, raw_reservations raw, raw_attempts raw) of
        (Some m, Some r, Some a) \<Rightarrow> Some \<lparr>db_meta = m, db_reservations = r, db_attempts = a\<rparr>
      | _ \<Rightarrow> None)"

definition open_tx ::
  "'b bolt \<Rightarrow> ledger \<Rightarrow> hash \<Rightarrow> bool \<Rightarrow> 'b raw_db \<Rightarrow> ledger_error + bool \<times> 'b raw_db" where
  "open_tx B L fingerprint created raw =
     (case initialize B L fingerprint created raw of
        Inl e \<Rightarrow> Inl e
      | Inr (initialized, raw') \<Rightarrow>
          case raw_view raw' of
            None \<Rightarrow> Inl ErrCorrupt
          | Some db \<Rightarrow>
              case lastSeen B db of
                Inl e \<Rightarrow> Inl e
              | Inr seen \<Rightarrow>
                  case collectUsage B L db seen of
                    Inl e \<Rightarrow> Inl e
                  | Inr _ \<Rightarrow> Inr (initialized, raw'))"

text \<open>
  What the operating system and the engine report while the file is opened. \<open>created_file\<close> says
  that the exclusive create succeeded; for an existing file, whether it is regular and non-empty.
\<close>

datatype create_result =
    FileCreated bool
  | FileExists bool bool
  | CreateFailed

record open_env =
  os_now :: time
  os_parent_ok :: bool
  os_create :: create_result
  os_bolt_open :: bool
  os_chmod :: bool
  os_commit :: bool

record open_options =
  opt_Policy :: Policy
  opt_PolicyFingerprint :: hash
  opt_HasClock :: bool
  opt_MaxRecords :: u32

text \<open>Opens the file and runs the transaction; a created file is removed on every later failure.\<close>

definition open_database ::
  "'b bolt \<Rightarrow> ledger \<Rightarrow> hash \<Rightarrow> open_env \<Rightarrow> bool \<Rightarrow> 'b raw_db \<Rightarrow>
     (ledger_error + ledger) \<times> 'b raw_db option" where
  "open_database B L fingerprint os created raw =
     (let fail = (\<lambda>e. (Inl e, if created then None else Some raw)) in
      if \<not> os_bolt_open os then fail ErrOpenFailed
      else if \<not> os_chmod os then fail ErrOpenFailed
      else case db_Update (os_commit os) EngineError raw (open_tx B L fingerprint created) of
        (Inl ErrPolicyMismatch, _) \<Rightarrow> fail ErrPolicyMismatch
      | (Inl _, _) \<Rightarrow> fail ErrCorrupt
      | (Inr initialized, raw') \<Rightarrow>
          if initialized \<noteq> created then (Inl ErrCorrupt, if created then None else Some raw')
          else (Inr L, Some raw'))"

definition Open ::
  "'b bolt \<Rightarrow> string \<Rightarrow> open_options \<Rightarrow> open_env \<Rightarrow> 'b raw_db option \<Rightarrow>
     (ledger_error + ledger) \<times> 'b raw_db option" where
  "Open B path options os file =
     (case validateAndNormalizePolicy (opt_Policy options) of
        Inl _ \<Rightarrow> (Inl ErrInvalidOptions, file)
      | Inr (policy, networks) \<Rightarrow>
          if path = '''' \<or> \<not> opt_HasClock options \<or> opt_PolicyFingerprint options = 0
          then (Inl ErrInvalidOptions, file)
          else if \<not> validPersistentTime (normalizeTime (os_now os)) then (Inl ErrInvalidOptions, file)
          else
            let maxRecords = (if opt_MaxRecords options = 0 then defaultMaxRecords else opt_MaxRecords options);
                L = \<lparr>led_policy = policy, led_networks = networks, led_maxRecords = maxRecords,
                     led_closed = False\<rparr>
            in if \<not> os_parent_ok os then (Inl ErrOpenFailed, file)
               else case os_create os of
                 FileCreated closed \<Rightarrow>
                   if \<not> closed then (Inl ErrOpenFailed, None)
                   else open_database B L (opt_PolicyFingerprint options) os True empty_raw
               | FileExists regular nonempty \<Rightarrow>
                   (if \<not> regular then (Inl ErrOpenFailed, file)
                    else if \<not> nonempty then (Inl ErrCorrupt, file)
                    else case file of
                      None \<Rightarrow> (Inl ErrOpenFailed, file)
                    | Some raw \<Rightarrow> open_database B L (opt_PolicyFingerprint options) os False raw)
               | CreateFailed \<Rightarrow> (Inl ErrOpenFailed, file))"

end
