(* ===== verification/Budget_Usage.thy ===== *)
theory Budget_Usage
  imports Budget_Operations
begin

text \<open>
  What \<^verbatim>\<open>collectUsage\<close> computes. The abstract view of the ledger is the list of stored
  reservations; the usage counters are exact sums over it (no wrap-around), and the function succeeds
  exactly on well-formed, within-limits ledgers whose totals fit in 256 bits.
\<close>

section \<open>Abstract view\<close>

definition decoded :: "bytes \<times> bytes \<Rightarrow> Reservation" where
  "decoded entry = the (decodeReservation (snd entry))"

definition reservations_of :: "'b bolt \<Rightarrow> 'b ledger_db \<Rightarrow> Reservation list" where
  "reservations_of B db = map decoded (bentries B (db_reservations db))"

definition is_open :: "Reservation \<Rightarrow> bool" where
  "is_open r \<longleftrightarrow> res_State r = ReservationHeld \<or> res_State r = ReservationExposed"

definition is_committed :: "Reservation \<Rightarrow> bool" where
  "is_committed r \<longleftrightarrow> res_State r = ReservationCommitted"

definition overran :: "Reservation \<Rightarrow> bool" where
  "overran r \<longleftrightarrow> is_committed r \<and> res_Maximum r < res_Actual r"

text \<open>
  The scopes: everything, one network, one sponsor on one network. For a scope \<open>P\<close>, what is held by
  open reservations, and what was spent since an instant.
\<close>

definition any_scope :: "Reservation \<Rightarrow> bool" where
  "any_scope r \<longleftrightarrow> True"

definition net_scope :: "NetworkID \<Rightarrow> Reservation \<Rightarrow> bool" where
  "net_scope n r \<longleftrightarrow> req_Network (res_Request r) = n"

definition sponsor_scope :: "NetworkID \<Rightarrow> address \<Rightarrow> Reservation \<Rightarrow> bool" where
  "sponsor_scope n s r \<longleftrightarrow> req_Network (res_Request r) = n \<and> req_Sponsor (res_Request r) = s"

definition held1 :: "(Reservation \<Rightarrow> bool) \<Rightarrow> Reservation \<Rightarrow> int" where
  "held1 P r = (if P r \<and> is_open r then uint (res_Maximum r) else 0)"

definition spent1 :: "(Reservation \<Rightarrow> bool) \<Rightarrow> Reservation \<Rightarrow> int" where
  "spent1 P r = (if P r \<and> is_committed r then uint (res_Actual r) else 0)"

definition since1 :: "(Reservation \<Rightarrow> bool) \<Rightarrow> time \<Rightarrow> Reservation \<Rightarrow> int" where
  "since1 P t r = (if t \<le> res_UpdatedAt r then spent1 P r else 0)"

definition held :: "(Reservation \<Rightarrow> bool) \<Rightarrow> Reservation list \<Rightarrow> int" where
  "held P rs = sum_list (map (held1 P) rs)"

definition spent :: "(Reservation \<Rightarrow> bool) \<Rightarrow> Reservation list \<Rightarrow> int" where
  "spent P rs = sum_list (map (spent1 P) rs)"

definition since :: "(Reservation \<Rightarrow> bool) \<Rightarrow> time \<Rightarrow> Reservation list \<Rightarrow> int" where
  "since P t rs = sum_list (map (since1 P t) rs)"

definition overrun_in :: "(Reservation \<Rightarrow> bool) \<Rightarrow> Reservation list \<Rightarrow> bool" where
  "overrun_in P rs \<longleftrightarrow> (\<exists>r \<in> set rs. P r \<and> overran r)"

lemmas sum_defs = held_def spent_def since_def
lemmas contribution_defs = held1_def spent1_def since1_def is_open_def is_committed_def
lemmas scope_defs = any_scope_def net_scope_def sponsor_scope_def

lemma contribution_nonneg [simp]: "0 \<le> held1 P r" "0 \<le> spent1 P r" "0 \<le> since1 P t r"
  by (simp_all add: contribution_defs)

lemma sums_nonneg [simp]: "0 \<le> held P rs" "0 \<le> spent P rs" "0 \<le> since P t rs"
  by (auto simp: sum_defs intro!: sum_list_nonneg)

lemma sums_Nil [simp]: "held P [] = 0" "spent P [] = 0" "since P t [] = 0" "\<not> overrun_in P []"
  by (simp_all add: sum_defs overrun_in_def)

lemma sums_snoc [simp]:
  "held P (rs @ [r]) = held P rs + held1 P r"
  "spent P (rs @ [r]) = spent P rs + spent1 P r"
  "since P t (rs @ [r]) = since P t rs + since1 P t r"
  "overrun_in P (rs @ [r]) \<longleftrightarrow> overrun_in P rs \<or> P r \<and> overran r"
  by (auto simp: sum_defs overrun_in_def)

lemma sums_append:
  "held P (rs @ qs) = held P rs + held P qs" "spent P (rs @ qs) = spent P rs + spent P qs"
  by (simp_all add: sum_defs)

lemma held_mono: "(\<And>r. P r \<Longrightarrow> Q r) \<Longrightarrow> held P rs \<le> held Q rs"
  by (auto simp: held_def held1_def intro!: sum_list_mono)

lemma spent_mono: "(\<And>r. P r \<Longrightarrow> Q r) \<Longrightarrow> spent P rs \<le> spent Q rs"
  by (auto simp: spent_def spent1_def intro!: sum_list_mono)

lemma since_le_spent: "since P t rs \<le> spent P rs"
  by (auto simp: since_def spent_def since1_def intro!: sum_list_mono)

lemma since_antimono: "t \<le> u \<Longrightarrow> since P u rs \<le> since P t rs"
  by (auto simp: since_def since1_def intro!: sum_list_mono)

lemma any_scope_top: "P r \<Longrightarrow> any_scope r"
  by (simp add: any_scope_def)

section \<open>Counters match the sums\<close>

definition scope_matches :: "(Reservation \<Rightarrow> bool) \<Rightarrow> time \<Rightarrow> Reservation list \<Rightarrow> scopeUsage \<Rightarrow> bool" where
  "scope_matches P now rs u \<longleftrightarrow>
     uint (reserved u) = held P rs \<and> uint (allSpent u) = spent P rs \<and>
     uint (daySpent u) = since P (time_Add now (- (24 * hour))) rs \<and>
     uint (hourSpent u) = since P (time_Add now (- hour)) rs \<and>
     (feeOverrun u \<longleftrightarrow> overrun_in P rs)"

definition usage_matches :: "time \<Rightarrow> Reservation list \<Rightarrow> aggregateUsage \<Rightarrow> bool" where
  "usage_matches now rs u \<longleftrightarrow>
     scope_matches any_scope now rs (agg_global u) \<and>
     (\<forall>n. scope_matches (net_scope n) now rs (agg_networks u n)) \<and>
     (\<forall>n s. uint (agg_sponsors u (n, s)) = held (sponsor_scope n s) rs)"

lemma addChecked_iff: "addChecked a b = Inr c \<longleftrightarrow> uint c = uint a + uint b"
proof -
  have "uint (a + b) = uint a + uint b \<longleftrightarrow> uint a + uint b < 2 ^ 256"
    using uint_lt2p [of "a + b"] by (auto simp: uint_plus_if' intro: uint_add_lem [THEN iffD1])
  then show ?thesis
    using uint_lt2p [of c]
    by (auto simp: addChecked_def AddOverflow_def Let_def word_uint_eq_iff not_le)
qed

lemma addChecked_ok: "uint a + uint b < 2 ^ 256 \<Longrightarrow> \<exists>c. addChecked a b = Inr c"
  by (simp add: addChecked_def AddOverflow_def)

lemma addBoth_iff:
  "addBoth g n v = Some (g', n') \<longleftrightarrow> uint g' = uint g + uint v \<and> uint n' = uint n + uint v"
  by (auto simp: addBoth_def addChecked_iff [symmetric] split: sum.splits)

lemma addBoth_ok:
  assumes "uint g + uint v < 2 ^ 256" and "uint n + uint v < 2 ^ 256"
  shows "\<exists>g' n'. addBoth g n v = Some (g', n')"
  using addChecked_ok [OF assms(1)] addChecked_ok [OF assms(2)] by (auto simp: addBoth_def)


text \<open>Charging one reservation moves the counters by its contribution, in every scope.\<close>

lemma chargeReserved_matches:
  assumes m: "usage_matches now rs u" and open_r: "is_open r" and ok: "chargeReserved r u = Inr u'"
  shows "usage_matches now (rs @ [r]) u'"
proof -
  define n s where "n = req_Network (res_Request r)" and "s = req_Sponsor (res_Request r)"
  from ok obtain g w c where
    both: "addBoth (reserved (agg_global u)) (reserved (agg_networks u n)) (res_Maximum r) = Some (g, w)"
    and sp: "addChecked (agg_sponsors u (n, s)) (res_Maximum r) = Inr c"
    and u': "u' = u\<lparr>agg_global := (agg_global u)\<lparr>reserved := g\<rparr>,
       agg_networks := (agg_networks u)(n := (agg_networks u n)\<lparr>reserved := w\<rparr>),
       agg_sponsors := (agg_sponsors u)((n, s) := c)\<rparr>"
    by (auto simp: chargeReserved_def Let_def n_def s_def split: option.splits sum.splits)
  have st: "res_State r \<noteq> ReservationCommitted" "is_open r" "\<not> overran r"
    using open_r by (auto simp: is_open_def overran_def is_committed_def)
  then have c: "spent1 P r = 0" "since1 P t r = 0"
    "held1 P r = (if P r then uint (res_Maximum r) else 0)" for P t
    by (auto simp: spent1_def since1_def held1_def is_committed_def)
  show ?thesis
    using m both sp u' st
    by (auto simp: usage_matches_def scope_matches_def addBoth_iff addChecked_iff c scope_defs n_def s_def)
qed

lemma chargeCommitted_matches:
  assumes m: "usage_matches now rs u" and com: "is_committed r" and ok: "chargeCommitted now r u = Inr u'"
  shows "usage_matches now (rs @ [r]) u'"
proof -
  define n where "n = req_Network (res_Request r)"
  define d h where "d = time_Add now (- (24 * hour))" and "h = time_Add now (- hour)"
  let ?G = "agg_global u" and ?N = "agg_networks u n"
  from ok obtain ga wa gd wd gh wh where
    a: "addBoth (allSpent ?G) (allSpent ?N) (res_Actual r) = Some (ga, wa)"
    and d': "(if Before (res_UpdatedAt r) d then Some (daySpent ?G, daySpent ?N)
         else addBoth (daySpent ?G) (daySpent ?N) (res_Actual r)) = Some (gd, wd)"
    and h': "(if Before (res_UpdatedAt r) h then Some (hourSpent ?G, hourSpent ?N)
         else addBoth (hourSpent ?G) (hourSpent ?N) (res_Actual r)) = Some (gh, wh)"
    and u': "u' = u\<lparr>
       agg_global := ?G\<lparr>feeOverrun := feeOverrun ?G \<or> res_Maximum r < res_Actual r, allSpent := ga,
         daySpent := gd, hourSpent := gh\<rparr>,
       agg_networks := (agg_networks u)(n := ?N\<lparr>feeOverrun := feeOverrun ?N \<or> res_Maximum r < res_Actual r,
         allSpent := wa, daySpent := wd, hourSpent := wh\<rparr>)\<rparr>"
    by (auto simp: chargeCommitted_def Let_def n_def d_def h_def split: option.splits if_splits)
  have st: "\<not> is_open r" "overran r \<longleftrightarrow> res_Maximum r < res_Actual r"
    using com by (auto simp: is_open_def overran_def is_committed_def)
  then have c: "held1 P r = 0" "spent1 P r = (if P r then uint (res_Actual r) else 0)"
    "since1 P t r = (if \<not> Before (res_UpdatedAt r) t \<and> P r then uint (res_Actual r) else 0)" for P t
    using com by (auto simp: spent1_def since1_def held1_def Before_def)
  show ?thesis
    using m a d' h' u' st
    by (auto simp: usage_matches_def scope_matches_def addBoth_iff c scope_defs n_def [symmetric]
        d_def [symmetric] h_def [symmetric] split: if_splits)
qed

lemma usage_matches_released:
  assumes "usage_matches now rs u" and "res_State r = ReservationReleased"
  shows "usage_matches now (rs @ [r]) u"
proof -
  have "held1 P r = 0" "spent1 P r = 0" "since1 P t r = 0" "\<not> overran r" for P t
    using assms(2) by (simp_all add: contribution_defs overran_def)
  then show ?thesis using assms(1) by (simp add: usage_matches_def scope_matches_def)
qed

lemma usage_matches_zero: "usage_matches now [] zeroAggregate"
  by (simp add: usage_matches_def scope_matches_def zeroAggregate_def zeroUsage_def)


section \<open>When charging succeeds\<close>

definition sums_fit :: "Reservation list \<Rightarrow> bool" where
  "sums_fit rs \<longleftrightarrow> held any_scope rs < 2 ^ 256 \<and> spent any_scope rs < 2 ^ 256"

lemma sums_fit_prefix: "sums_fit (rs @ qs) \<Longrightarrow> sums_fit rs"
  unfolding sums_fit_def sums_append
  using sums_nonneg(1) [of any_scope qs] sums_nonneg(2) [of any_scope qs] by linarith

lemma scope_le_any:
  "held P rs \<le> held any_scope rs" "spent P rs \<le> spent any_scope rs"
  by (auto intro: held_mono spent_mono any_scope_top)

lemma chargeReserved_ok:
  assumes m: "usage_matches now rs u" and "is_open r" and fit: "sums_fit (rs @ [r])"
  shows "\<exists>u'. chargeReserved r u = Inr u'"
proof -
  define n s where "n = req_Network (res_Request r)" and "s = req_Sponsor (res_Request r)"
  have b: "held P rs + uint (res_Maximum r) < 2 ^ 256" for P
    using fit scope_le_any(1) [of P rs] assms(2) by (simp add: sums_fit_def held1_def any_scope_def)
  from m have "uint (reserved (agg_global u)) = held any_scope rs"
    "uint (reserved (agg_networks u n)) = held (net_scope n) rs"
    "uint (agg_sponsors u (n, s)) = held (sponsor_scope n s) rs"
    by (auto simp: usage_matches_def scope_matches_def)
  with b [of any_scope] b [of "net_scope n"] b [of "sponsor_scope n s"]
  obtain g w c where "addBoth (reserved (agg_global u)) (reserved (agg_networks u n)) (res_Maximum r) = Some (g, w)"
    and "addChecked (agg_sponsors u (n, s)) (res_Maximum r) = Inr c"
    by (metis addBoth_ok addChecked_ok)
  then show ?thesis
    by (simp add: chargeReserved_def Let_def n_def s_def)
qed

lemma chargeCommitted_ok:
  assumes m: "usage_matches now rs u" and "is_committed r" and fit: "sums_fit (rs @ [r])"
  shows "\<exists>u'. chargeCommitted now r u = Inr u'"
proof -
  define n where "n = req_Network (res_Request r)"
  have b: "spent P rs + uint (res_Actual r) < 2 ^ 256" for P
    using fit scope_le_any(2) [of P rs] assms(2) by (simp add: sums_fit_def spent1_def any_scope_def)
  have d: "since P t rs + uint (res_Actual r) < 2 ^ 256" for P t
    using b [of P] since_le_spent [of P t rs] by simp
  from m have eqs: "uint (allSpent (agg_global u)) = spent any_scope rs"
    "uint (allSpent (agg_networks u n)) = spent (net_scope n) rs"
    "\<exists>t. uint (daySpent (agg_global u)) = since any_scope t rs"
    "\<exists>t. uint (daySpent (agg_networks u n)) = since (net_scope n) t rs"
    "\<exists>t. uint (hourSpent (agg_global u)) = since any_scope t rs"
    "\<exists>t. uint (hourSpent (agg_networks u n)) = since (net_scope n) t rs"
    by (auto simp: usage_matches_def scope_matches_def)
  from eqs b d
  obtain x y z where "addBoth (allSpent (agg_global u)) (allSpent (agg_networks u n)) (res_Actual r) = Some x"
    and "addBoth (daySpent (agg_global u)) (daySpent (agg_networks u n)) (res_Actual r) = Some y"
    and "addBoth (hourSpent (agg_global u)) (hourSpent (agg_networks u n)) (res_Actual r) = Some z"
    by (metis addBoth_ok)
  then show ?thesis
    by (cases x; cases y; cases z) (auto simp: chargeCommitted_def Let_def n_def)
qed

section \<open>Well-formed ledgers\<close>

definition entry_ok :: "'b bolt \<Rightarrow> ledger \<Rightarrow> 'b ledger_db \<Rightarrow> bytes \<times> bytes \<Rightarrow> bool" where
  "entry_ok B L db entry \<longleftrightarrow>
     (\<exists>r. decodeReservation (snd entry) = Some r \<and> fst entry = id_bytes (res_ID r) \<and>
          validateReservation L r \<and>
          bget B (db_attempts db) (attemptKey (req_Attempt (res_Request r))) = Some (id_bytes (res_ID r)))"

definition attempt_ok :: "'b bolt \<Rightarrow> 'b ledger_db \<Rightarrow> bytes \<times> bytes \<Rightarrow> bool" where
  "attempt_ok B db entry \<longleftrightarrow>
     (\<exists>r v. fst entry = attemptKey (req_Attempt (res_Request r)) \<and> validAttempt (req_Attempt (res_Request r)) \<and>
          snd entry = id_bytes (res_ID r) \<and>
          bget B (db_reservations db) (id_bytes (res_ID r)) = Some v \<and> decodeReservation v = Some r)"

definition ledger_wf :: "'b bolt \<Rightarrow> ledger \<Rightarrow> 'b ledger_db \<Rightarrow> bool" where
  "ledger_wf B L db \<longleftrightarrow>
     (\<forall>e \<in> set (bentries B (db_reservations db)). entry_ok B L db e) \<and>
     (\<forall>e \<in> set (bentries B (db_attempts db)). attempt_ok B db e) \<and>
     length (bentries B (db_attempts db)) = length (bentries B (db_reservations db)) \<and>
     int (length (bentries B (db_reservations db))) \<le> uint (led_maxRecords L)"

definition scope_within :: "(Reservation \<Rightarrow> bool) \<Rightarrow> Limits \<Rightarrow> time \<Rightarrow> Reservation list \<Rightarrow> bool" where
  "scope_within P limits now rs \<longleftrightarrow> overrun_in P rs \<or>
     since P (time_Add now (- hour)) rs + held P rs \<le> uint (PerHour limits) \<and>
     since P (time_Add now (- (24 * hour))) rs + held P rs \<le> uint (PerDay limits) \<and>
     spent P rs + held P rs \<le> uint (Cumulative limits)"

definition within_limits :: "ledger \<Rightarrow> time \<Rightarrow> Reservation list \<Rightarrow> bool" where
  "within_limits L now rs \<longleftrightarrow>
     scope_within any_scope (pol_Global (led_policy L)) now rs \<and>
     (\<forall>(n, p) \<in> set (led_networks L). scope_within (net_scope n) (np_Limits p) now rs)"

lemma id_bytes_not_Nil [simp]: "id_bytes x \<noteq> []"
  by (metis length_word_bytes list.size(3) zero_neq_numeral)

lemma bytes_or_nil_id: "bytes_or_nil v = id_bytes x \<longleftrightarrow> v = Some (id_bytes x)"
proof (cases v)
  case None
  then show ?thesis by (simp add: bytes_or_nil_def) (metis id_bytes_not_Nil)
qed (simp add: bytes_or_nil_def)

lemma decodeReservation_Nil [simp]: "decodeReservation [] = None"
  by (simp add: decodeReservation_def)

lemma validateReservation_states:
  "validateReservation L r \<Longrightarrow> is_open r \<or> is_committed r \<or> res_State r = ReservationReleased"
  by (auto simp: validateReservation_def Let_def is_open_def is_committed_def split: if_splits)

lemma collectReservation_iff:
  "collectReservation B L db now u e = Inr u' \<longleftrightarrow>
     entry_ok B L db e \<and>
     (if is_open (decoded e) then chargeReserved (decoded e) u = Inr u'
      else if is_committed (decoded e) then chargeCommitted now (decoded e) u = Inr u'
      else u' = u)"
proof (cases "decodeReservation (snd e)")
  case None
  then show ?thesis
    by (cases e) (auto simp: collectReservation_def entry_ok_def)
next
  case (Some r)
  from Some validateReservation_states [of L r] show ?thesis
    by (cases e) (auto simp: collectReservation_def entry_ok_def decoded_def bytes_or_nil_id
        is_open_def is_committed_def split: if_splits)
qed

lemma collect_fold_sound:
  assumes "foldE (collectReservation B L db now) zeroAggregate es = Inr u"
  shows "(\<forall>e \<in> set es. entry_ok B L db e) \<and> usage_matches now (map decoded es) u"
proof (rule foldE_Inr_rev_induct [OF assms])
  show "(\<forall>e \<in> set []. entry_ok B L db e) \<and> usage_matches now (map decoded []) zeroAggregate"
    by (simp add: usage_matches_zero)
next
  fix ys y t t'
  assume IH: "(\<forall>e \<in> set ys. entry_ok B L db e) \<and> usage_matches now (map decoded ys) t"
    and step: "collectReservation B L db now t y = Inr t'"
  from step have ok: "entry_ok B L db y" by (simp add: collectReservation_iff)
  then have "is_open (decoded y) \<or> is_committed (decoded y) \<or> res_State (decoded y) = ReservationReleased"
    by (auto simp: entry_ok_def decoded_def dest: validateReservation_states)
  then have "usage_matches now (map decoded ys @ [decoded y]) t'"
    using IH step
    by (auto simp: collectReservation_iff is_open_def is_committed_def intro: chargeReserved_matches
        chargeCommitted_matches usage_matches_released split: if_splits)
  with IH ok show "(\<forall>e \<in> set (ys @ [y]). entry_ok B L db e) \<and> usage_matches now (map decoded (ys @ [y])) t'"
    by auto
qed

lemma collect_fold_complete:
  assumes "\<forall>e \<in> set es. entry_ok B L db e" and "sums_fit (map decoded es)"
  shows "\<exists>u. foldE (collectReservation B L db now) zeroAggregate es = Inr u"
  using assms
proof (induction es rule: rev_induct)
  case Nil
  then show ?case by simp
next
  case (snoc y ys)
  have fit: "sums_fit (map decoded ys @ [decoded y])" using snoc.prems by simp
  from snoc.IH snoc.prems(1) sums_fit_prefix [OF fit]
  obtain t where t: "foldE (collectReservation B L db now) zeroAggregate ys = Inr t" by auto
  then have m: "usage_matches now (map decoded ys) t" using collect_fold_sound by blast
  have "\<exists>t'. collectReservation B L db now t y = Inr t'"
    using snoc.prems(1) chargeReserved_ok [OF m _ fit] chargeCommitted_ok [OF m _ fit]
    by (auto simp: collectReservation_iff)
  with t show ?case by (auto simp: foldE_append)
qed

lemma collectAttempt_iff: "collectAttempt B db () e = Inr () \<longleftrightarrow> attempt_ok B db e"
proof
  assume "collectAttempt B db () e = Inr ()"
  then obtain a r where "decodeAttemptKey (fst e) = Some a" "validAttempt a"
    "decodeReservation (bytes_or_nil (bget B (db_reservations db) (snd e))) = Some r"
    "req_Attempt (res_Request r) = a" "snd e = id_bytes (res_ID r)"
    by (cases e) (auto simp: collectAttempt_def split: option.splits if_splits)
  then show "attempt_ok B db e"
    unfolding attempt_ok_def
    by (intro exI [of _ r]) (auto simp: bytes_or_nil_def dest: attemptKey_decode split: option.splits)
next
  assume "attempt_ok B db e"
  then show "collectAttempt B db () e = Inr ()"
    by (cases e) (auto simp: attempt_ok_def collectAttempt_def bytes_or_nil_def)
qed

lemma collect_attempts_iff:
  "foldE (collectAttempt B db) () es = Inr () \<longleftrightarrow> (\<forall>e \<in> set es. attempt_ok B db e)"
proof (induction es)
  case (Cons e es)
  have "collectAttempt B db () e = Inr () \<or> (\<exists>x. collectAttempt B db () e = Inl x)"
    by (cases "collectAttempt B db () e") auto
  with Cons collectAttempt_iff [of B db e] show ?case by auto
qed simp

lemma fitsExisting_iff: "fitsExisting limit s h \<longleftrightarrow> uint s + uint h \<le> uint limit"
proof -
  have "0 \<le> uint h" by simp
  then have "uint s + uint h \<le> uint limit \<Longrightarrow> uint s \<le> uint limit" by linarith
  then show ?thesis
    by (auto simp: fitsExisting_def Let_def word_less_def uint_sub_lem [THEN iffD1])
qed

lemma scopeWithinLimits_iff:
  "scope_matches P now rs u \<Longrightarrow> scopeWithinLimits limits u \<longleftrightarrow> scope_within P limits now rs"
  by (auto simp: scopeWithinLimits_def scope_within_def scope_matches_def fitsExisting_iff)

text \<open>Success of \<^verbatim>\<open>collectUsage\<close>, characterised.\<close>

lemma collectUsage_iff:
  "collectUsage B L db now = Inr u \<longleftrightarrow>
     foldE (collectReservation B L db now) zeroAggregate (bentries B (db_reservations db)) = Inr u \<and>
     ledger_wf B L db \<and> within_limits L now (reservations_of B db)"
proof (cases "foldE (collectReservation B L db now) zeroAggregate (bentries B (db_reservations db))")
  case (Inl e)
  then show ?thesis by (simp add: collectUsage_def)
next
  case (Inr v)
  from collect_fold_sound [OF Inr]
  have ok: "\<forall>e \<in> set (bentries B (db_reservations db)). entry_ok B L db e"
    and m: "usage_matches now (reservations_of B db) v"
    by (simp_all add: reservations_of_def)
  have lim: "scopeWithinLimits (pol_Global (led_policy L)) (agg_global v) \<longleftrightarrow>
      scope_within any_scope (pol_Global (led_policy L)) now (reservations_of B db)"
    using m by (intro scopeWithinLimits_iff) (simp add: usage_matches_def)
  have nets: "scopeWithinLimits (np_Limits p) (agg_networks v n) \<longleftrightarrow>
      scope_within (net_scope n) (np_Limits p) now (reservations_of B db)" for n p
    using m by (intro scopeWithinLimits_iff) (simp add: usage_matches_def)
  show ?thesis
    using Inr ok
    by (auto simp: collectUsage_def ledger_wf_def within_limits_def lim nets list_all_iff
        collect_attempts_iff split: sum.splits)
      (metis collect_attempts_iff old.unit.exhaust sum.simps(4))+
qed

lemma collectUsage_matches:
  "collectUsage B L db now = Inr u \<Longrightarrow> usage_matches now (reservations_of B db) u"
  by (auto simp: collectUsage_iff reservations_of_def dest: collect_fold_sound)

lemma collectUsage_ok:
  assumes "ledger_wf B L db" and "within_limits L now (reservations_of B db)"
    and "sums_fit (reservations_of B db)"
  shows "\<exists>u. collectUsage B L db now = Inr u"
proof -
  from collect_fold_complete [of "bentries B (db_reservations db)" B L db now] assms
  obtain u where "foldE (collectReservation B L db now) zeroAggregate (bentries B (db_reservations db)) = Inr u"
    by (auto simp: ledger_wf_def reservations_of_def)
  with assms show ?thesis by (auto simp: collectUsage_iff)
qed

end
