(* ===== verification/Budget_Invariant.thy ===== *)
theory Budget_Invariant
  imports Budget_Usage "HOL-Library.Multiset"
begin

text \<open>
  The invariant of the ledger's persistent state and what each write does to it. Writes are described
  by their effect on the multiset of stored reservations: one is added, replaced or removed.
\<close>

section \<open>Values read from the store\<close>

lemma time_ok_timeUnix: "0 \<le> ns \<Longrightarrow> ns < second \<Longrightarrow> time_ok (timeUnix s ns)"
proof -
  assume ns: "0 \<le> ns" "ns < second"
  define i where "i = sint (word_of_int (s + unixToInternal) :: u64)"
  have "- (2 ^ 63) \<le> i" "i < 2 ^ 63"
    using sint_greater_eq [of "word_of_int (s + unixToInternal) :: u64"]
      sint_less [of "word_of_int (s + unixToInternal) :: u64"]
    by (simp_all add: i_def del: of_int_add)
  moreover have "unix_seconds (timeUnix s ns) = i - unixToInternal"
    using ns by (simp add: unix_seconds_def timeUnix_def i_def [symmetric] del: of_int_add)
  ultimately show ?thesis by (simp add: time_ok_def)
qed

lemma decodeReservation_storable: "decodeReservation v = Some r \<Longrightarrow> storable_reservation r"
  by (auto simp: decodeReservation_def storable_reservation_def bind_eq_Some_conv not_less
      dest: readTime_storable split: if_splits)

lemma decodeStoredTime_Inr:
  "decodeStoredTime v = Inr t \<Longrightarrow> storable_time t \<and> validPersistentTime t"
  by (auto simp: decodeStoredTime_def dest: readTime_storable split: if_splits option.splits)

lemma decodeStoredTime_append:
  assumes "time_ok t" and "validPersistentTime t"
  shows "decodeStoredTime (appendTime [] t) = Inr t"
proof -
  have "readTime (time_bytes t) 0 = Some (t, 12)"
    using time_field.read_append [OF valid_time_storable [OF assms], of "[]" "[]"] by simp
  then show ?thesis
    using assms(2) by (simp add: decodeStoredTime_def appendTime_def time_field.enc_length)
qed

lemma lastSeen_Inr: "lastSeen B db = Inr t \<Longrightarrow> time_ok t \<and> validPersistentTime t"
  by (auto simp: lastSeen_def storable_time_def dest: decodeStoredTime_Inr)

section \<open>Windows\<close>

text \<open>For an instant after the epoch the windows are plain subtraction.\<close>

lemma time_Add_back:
  assumes "0 < t" and "time_ok t" and "0 \<le> d" and "d \<le> 24 * hour"
  shows "time_Add t (- d) = t - d"
proof -
  have "unix_seconds (t - d) \<le> unix_seconds t"
    using assms(3) by (auto simp: unix_seconds_def intro: zdiv_mono1)
  moreover have "- (24 * 3600) - 1 \<le> unix_seconds (t - d)"
  proof -
    have "(- (24 * hour)) div second \<le> (t - d) div second"
      using assms by (intro zdiv_mono1) auto
    then show ?thesis by (simp add: unix_seconds_def duration_defs)
  qed
  ultimately show ?thesis
    using assms(2) by (simp add: time_Add_def Let_def time_ok_def unixToInternal_def)
qed

lemma hour_pos [simp]: "0 < hour"
  by (simp add: duration_defs)

lemma windows:
  assumes "0 < t" and "time_ok t"
  shows "time_Add t (- hour) = t - hour" "time_Add t (- (24 * hour)) = t - 24 * hour"
  using assms by (auto intro!: time_Add_back simp: duration_defs)

lemma scope_within_later:
  assumes "scope_within P limits t rs" and "0 < t" and "t \<le> u" and "time_ok t" and "time_ok u"
  shows "scope_within P limits u rs"
proof -
  have "since P (u - hour) rs \<le> since P (t - hour) rs"
    "since P (u - 24 * hour) rs \<le> since P (t - 24 * hour) rs"
    using assms(3) by (auto intro: since_antimono)
  then show ?thesis
    using assms windows [of t] windows [of u] by (auto simp: scope_within_def)
qed

lemma within_limits_later:
  assumes "within_limits L t rs" and "0 < t" and "t \<le> u" and "time_ok t" and "time_ok u"
  shows "within_limits L u rs"
  using assms scope_within_later [OF _ assms(2-5)] by (auto simp: within_limits_def)

section \<open>Changes to the set of reservations\<close>

lemma sums_mset:
  "held P rs = (\<Sum>x \<in># mset rs. held1 P x)"
  "spent P rs = (\<Sum>x \<in># mset rs. spent1 P x)"
  "since P t rs = (\<Sum>x \<in># mset rs. since1 P t x)"
  "overrun_in P rs \<longleftrightarrow> (\<exists>x \<in># mset rs. P x \<and> overran x)"
  by (simp_all add: sum_defs sum_mset_sum_list [symmetric] overrun_in_def flip: mset_map)

text \<open>One reservation replaced by another; adding and removing are the same with a null record.\<close>

lemma replaced_sums:
  assumes "add_mset r (mset rs') = add_mset r' (mset rs)"
  shows "held P rs' + held1 P r = held P rs + held1 P r'"
    "spent P rs' + spent1 P r = spent P rs + spent1 P r'"
    "since P t rs' + since1 P t r = since P t rs + since1 P t r'"
proof -
  have "(\<Sum>x \<in># add_mset r (mset rs'). f x) = (\<Sum>x \<in># add_mset r' (mset rs). f x)" for f :: "Reservation \<Rightarrow> int"
    using assms by simp
  from this [of "held1 P"] this [of "spent1 P"] this [of "since1 P t"]
  show "held P rs' + held1 P r = held P rs + held1 P r'"
    "spent P rs' + spent1 P r = spent P rs + spent1 P r'"
    "since P t rs' + since1 P t r = since P t rs + since1 P t r'"
    by (simp_all add: sums_mset)
qed

lemma replaced_overrun:
  assumes "add_mset r (mset rs') = add_mset r' (mset rs)" and "\<not> overran r"
  shows "overrun_in P rs' \<longleftrightarrow> overrun_in P rs \<or> P r' \<and> overran r'"
proof -
  have "(\<exists>x \<in># add_mset r (mset rs'). P x \<and> overran x) \<longleftrightarrow> (\<exists>x \<in># add_mset r' (mset rs). P x \<and> overran x)"
    using assms(1) by simp
  then show ?thesis using assms(2) by (auto simp: sums_mset)
qed

lemma added_sums:
  assumes "mset rs' = add_mset r' (mset rs)"
  shows "held P rs' = held P rs + held1 P r'" "spent P rs' = spent P rs + spent1 P r'"
    "since P t rs' = since P t rs + since1 P t r'"
    "overrun_in P rs' \<longleftrightarrow> overrun_in P rs \<or> P r' \<and> overran r'"
  using assms by (auto simp: sums_mset)

lemma released_contributions:
  assumes "res_State r = ReservationReleased"
  shows "held1 P r = 0" "spent1 P r = 0" "since1 P t r = 0" "\<not> overran r"
  using assms by (simp_all add: contribution_defs overran_def)

lemma scope_within_replaced:
  assumes "scope_within P limits now rs" and m: "add_mset r (mset rs') = add_mset r' (mset rs)"
    and r: "is_open r"
    and r': "P r' \<and> overran r' \<or> held1 P r' + spent1 P r' \<le> held1 P r"
  shows "scope_within P limits now rs'"
proof -
  have z: "spent1 P r = 0" "since1 P t r = 0" "\<not> overran r" for t
    using r by (auto simp: contribution_defs overran_def)
  have le: "since1 P t r' \<le> spent1 P r'" for t
    by (simp add: since1_def spent1_def)
  note s = replaced_sums(1) [OF m, of P] replaced_sums(2) [OF m, of P]
    replaced_sums(3) [OF m, of P "time_Add now (- hour)"]
    replaced_sums(3) [OF m, of P "time_Add now (- (24 * hour))"]
  show ?thesis
    using assms(1) r' s z le [of "time_Add now (- hour)"] le [of "time_Add now (- (24 * hour))"]
      replaced_overrun [OF m z(3), of P]
    by (auto simp: scope_within_def)
qed

lemma hasCapacity_iff:
  "hasCapacity limit s h m \<longleftrightarrow> uint s + uint h + uint m \<le> uint limit"
proof -
  have "0 \<le> uint h" "0 \<le> uint m" by simp_all
  then have "uint s + uint h + uint m \<le> uint limit \<Longrightarrow> uint s \<le> uint limit \<and> uint h \<le> uint limit - uint s"
    by linarith
  then show ?thesis
    by (auto simp: hasCapacity_def Let_def word_less_def uint_sub_lem [THEN iffD1])
qed

lemma sponsorHasCapacity_iff:
  "sponsorHasCapacity balance e h m \<longleftrightarrow> uint e + uint h + uint m \<le> uint balance"
  using hasCapacity_iff [of balance e h m] by (simp add: sponsorHasCapacity_def hasCapacity_def)

lemma scope_within_added:
  assumes sums: "held P rs' = held P rs + held1 P r'" "spent P rs' = spent P rs"
      "\<And>t. since P t rs' = since P t rs"
    and u: "scope_matches P now rs u" and ok: "P r' \<Longrightarrow> checkScopeBudget limits u (res_Maximum r')"
    and within: "scope_within P limits now rs" and ov: "overrun_in P rs' \<longleftrightarrow> overrun_in P rs"
    and op: "is_open r'"
  shows "scope_within P limits now rs'"
proof (cases "P r'")
  case True
  with ok u sums op show ?thesis
    by (auto simp: scope_within_def checkScopeBudget_def hasCapacity_iff scope_matches_def held1_def)
next
  case False
  then have "held1 P r' = 0" by (simp add: held1_def)
  with within sums ov show ?thesis by (simp add: scope_within_def)
qed


section \<open>Writes\<close>

context bolt_engine
begin

lemma mset_decoded_overwrite:
  assumes put: "bput B b k v = Some b'" and old: "bget B b k = Some w"
  shows "add_mset (decoded (k, w)) (mset (map decoded (bentries B b'))) =
    add_mset (decoded (k, v)) (mset (map decoded (bentries B b)))"
proof -
  have s: "sum_list (map (\<lambda>e. {#decoded e#}) es) = mset (map decoded es)" for es :: "(bytes \<times> bytes) list"
    by (induction es) auto
  show ?thesis
    using kv_put_overwrite [of "bentries B b" k w "\<lambda>e. {#decoded e#}" v] old
    by (simp add: s put_entries [OF put] entries_sorted get_entries)
qed

lemma mset_decoded_fresh:
  assumes put: "bput B b k v = Some b'" and new: "bget B b k = None"
  shows "mset (map decoded (bentries B b')) = add_mset (decoded (k, v)) (mset (map decoded (bentries B b)))"
proof -
  have s: "sum_list (map (\<lambda>e. {#decoded e#}) es) = mset (map decoded es)" for es :: "(bytes \<times> bytes) list"
    by (induction es) auto
  show ?thesis
    using kv_put_fresh [of "bentries B b" k "\<lambda>e. {#decoded e#}" v] new
    by (simp add: s put_entries [OF put] get_entries)
qed

lemma mset_decoded_delete:
  assumes del: "bdel B b k = Some b'" and old: "bget B b k = Some w"
  shows "mset (map decoded (bentries B b)) = add_mset (decoded (k, w)) (mset (map decoded (bentries B b')))"
proof -
  have s: "sum_list (map (\<lambda>e. {#decoded e#}) es) = mset (map decoded es)" for es :: "(bytes \<times> bytes) list"
    by (induction es) auto
  show ?thesis
    using kv_del_present [of "bentries B b" k w "\<lambda>e. {#decoded e#}"] old
    by (simp add: s del_entries [OF del] entries_sorted get_entries)
qed

lemma length_overwrite:
  "bput B b k v = Some b' \<Longrightarrow> bget B b k = Some w \<Longrightarrow> length (bentries B b') = length (bentries B b)"
  by (simp add: put_entries get_entries length_kv_put_overwrite entries_sorted)

lemma length_fresh:
  "bput B b k v = Some b' \<Longrightarrow> bget B b k = None \<Longrightarrow> length (bentries B b') = Suc (length (bentries B b))"
  by (simp add: put_entries get_entries length_kv_put_fresh)

lemma length_delete:
  "bdel B b k = Some b' \<Longrightarrow> bget B b k = Some w \<Longrightarrow> length (bentries B b) = Suc (length (bentries B b'))"
  by (simp add: del_entries get_entries length_kv_del_present entries_sorted)

text \<open>The well-formedness of a ledger in terms of lookups.\<close>

lemma ledger_wf_lookup:
  "ledger_wf B L db \<longleftrightarrow>
     (\<forall>k v. bget B (db_reservations db) k = Some v \<longrightarrow> entry_ok B L db (k, v)) \<and>
     (\<forall>k v. bget B (db_attempts db) k = Some v \<longrightarrow> attempt_ok B db (k, v)) \<and>
     length (bentries B (db_attempts db)) = length (bentries B (db_reservations db)) \<and>
     int (length (bentries B (db_reservations db))) \<le> uint (led_maxRecords L)"
  unfolding ledger_wf_def entry_get [symmetric] by (simp only: Ball_def split_paired_All)

lemma wf_entry:
  assumes "ledger_wf B L db" and "bget B (db_reservations db) k = Some v"
  obtains r where "decodeReservation v = Some r" "k = id_bytes (res_ID r)" "validateReservation L r"
    "bget B (db_attempts db) (attemptKey (req_Attempt (res_Request r))) = Some k"
  using assms by (auto simp: ledger_wf_lookup entry_ok_def)

lemma wf_attempt:
  assumes "ledger_wf B L db" and "bget B (db_attempts db) k = Some i"
  obtains r v where "k = attemptKey (req_Attempt (res_Request r))" "validAttempt (req_Attempt (res_Request r))"
    "i = id_bytes (res_ID r)" "bget B (db_reservations db) i = Some v" "decodeReservation v = Some r"
proof -
  from assms have "attempt_ok B db (k, i)" unfolding ledger_wf_lookup by blast
  then show thesis using that unfolding attempt_ok_def by force
qed

lemma wf_overwrite:
  assumes wf: "ledger_wf B L db" and old: "bget B (db_reservations db) (id_bytes (res_ID r)) = Some w"
    and w: "decodeReservation w = Some r" and v: "decodeReservation v = Some r'"
    and same: "res_ID r' = res_ID r" "req_Attempt (res_Request r') = req_Attempt (res_Request r)"
    and valid: "validateReservation L r'"
    and put: "bput B (db_reservations db) (id_bytes (res_ID r)) v = Some b'"
  shows "ledger_wf B L (db\<lparr>db_reservations := b'\<rparr>)"
proof -
  have att: "bget B (db_attempts db) (attemptKey (req_Attempt (res_Request r))) = Some (id_bytes (res_ID r))"
    using wf_entry [OF wf old] w by auto
  have "entry_ok B L (db\<lparr>db_reservations := b'\<rparr>) (k, x)" if "bget B b' k = Some x" for k x
    using that wf att v same valid
    by (auto simp: get_put [OF put] ledger_wf_lookup entry_ok_def split: if_splits)
  moreover have "attempt_ok B (db\<lparr>db_reservations := b'\<rparr>) (k, x)" if a: "bget B (db_attempts db) k = Some x" for k x
  proof -
    from wf_attempt [OF wf a] obtain q y where q: "k = attemptKey (req_Attempt (res_Request q))"
      and valid_q: "validAttempt (req_Attempt (res_Request q))"
      and i: "x = id_bytes (res_ID q)" "bget B (db_reservations db) x = Some y" "decodeReservation y = Some q"
      by metis
    note q = q i
    show ?thesis
    proof (cases "res_ID q = res_ID r")
      case True
      with q old w have "q = r" by simp
      with q valid_q v same put show ?thesis
        by (auto simp: attempt_ok_def get_put [OF put] intro!: exI [of _ r'])
    next
      case False
      with q valid_q show ?thesis
        by (auto simp: attempt_ok_def get_put [OF put] intro!: exI [of _ q])
    qed
  qed
  ultimately show ?thesis
    using wf length_overwrite [OF put old] by (simp add: ledger_wf_lookup)
qed

lemma wf_insert:
  assumes wf: "ledger_wf B L db" and v: "decodeReservation v = Some r" and valid: "validateReservation L r"
    and newr: "bget B (db_reservations db) (id_bytes (res_ID r)) = None"
    and newa: "bget B (db_attempts db) (attemptKey (req_Attempt (res_Request r))) = None"
    and room: "int (length (bentries B (db_reservations db))) < uint (led_maxRecords L)"
    and putr: "bput B (db_reservations db) (id_bytes (res_ID r)) v = Some br"
    and puta: "bput B (db_attempts db) (attemptKey (req_Attempt (res_Request r))) (id_bytes (res_ID r)) = Some ba"
  shows "ledger_wf B L (db\<lparr>db_reservations := br, db_attempts := ba\<rparr>)"
proof -
  let ?db = "db\<lparr>db_reservations := br, db_attempts := ba\<rparr>"
  have va: "validAttempt (req_Attempt (res_Request r))"
    using valid by (auto simp: validateReservation_def validateRequest_def split: option.splits if_splits)
  have "entry_ok B L ?db (k, x)" if x: "bget B br k = Some x" for k x
  proof (cases "k = id_bytes (res_ID r)")
    case True
    with x v valid show ?thesis by (simp add: get_put [OF putr] get_put [OF puta] entry_ok_def)
  next
    case False
    with x have "bget B (db_reservations db) k = Some x" by (simp add: get_put [OF putr])
    from wf_entry [OF wf this] obtain q where q: "decodeReservation x = Some q" "k = id_bytes (res_ID q)"
      "validateReservation L q" "bget B (db_attempts db) (attemptKey (req_Attempt (res_Request q))) = Some k"
      by metis
    with newa have "req_Attempt (res_Request q) \<noteq> req_Attempt (res_Request r)" by auto
    with q show ?thesis by (auto simp: get_put [OF puta] entry_ok_def)
  qed
  moreover have "attempt_ok B ?db (k, x)" if a: "bget B ba k = Some x" for k x
  proof (cases "k = attemptKey (req_Attempt (res_Request r))")
    case True
    with a v va show ?thesis
      by (auto simp: get_put [OF putr] get_put [OF puta] attempt_ok_def intro!: exI [of _ r])
  next
    case False
    with a have "bget B (db_attempts db) k = Some x" by (simp add: get_put [OF puta])
    from wf_attempt [OF wf this] obtain q y where q: "k = attemptKey (req_Attempt (res_Request q))"
      "validAttempt (req_Attempt (res_Request q))" "x = id_bytes (res_ID q)"
      "bget B (db_reservations db) x = Some y" "decodeReservation y = Some q" by metis
    with newr have "res_ID q \<noteq> res_ID r" by auto
    with q show ?thesis by (auto simp: get_put [OF putr] attempt_ok_def intro!: exI [of _ q])
  qed
  ultimately show ?thesis
    using wf room length_fresh [OF putr newr] length_fresh [OF puta newa] by (simp add: ledger_wf_lookup)
qed

lemma wf_delete:
  assumes wf: "ledger_wf B L db" and old: "bget B (db_reservations db) (id_bytes (res_ID r)) = Some w"
    and w: "decodeReservation w = Some r"
    and delr: "bdel B (db_reservations db) (id_bytes (res_ID r)) = Some br"
    and dela: "bdel B (db_attempts db) (attemptKey (req_Attempt (res_Request r))) = Some ba"
  shows "ledger_wf B L (db\<lparr>db_reservations := br, db_attempts := ba\<rparr>)"
    and "length (bentries B (db_reservations db)) = Suc (length (bentries B br))"
proof -
  let ?db = "db\<lparr>db_reservations := br, db_attempts := ba\<rparr>"
  have att: "bget B (db_attempts db) (attemptKey (req_Attempt (res_Request r))) = Some (id_bytes (res_ID r))"
    using wf_entry [OF wf old] w by auto
  have "entry_ok B L ?db (k, x)" if x: "bget B br k = Some x" for k x
  proof -
    from x have k: "k \<noteq> id_bytes (res_ID r)" and x': "bget B (db_reservations db) k = Some x"
      by (auto simp: get_del [OF delr] split: if_splits)
    from wf_entry [OF wf x'] obtain q where q: "decodeReservation x = Some q" "k = id_bytes (res_ID q)"
      "validateReservation L q" "bget B (db_attempts db) (attemptKey (req_Attempt (res_Request q))) = Some k"
      by metis
    with k att have "req_Attempt (res_Request q) \<noteq> req_Attempt (res_Request r)" by auto
    with q show ?thesis by (auto simp: entry_ok_def get_del [OF dela])
  qed
  moreover have "attempt_ok B ?db (k, x)" if a: "bget B ba k = Some x" for k x
  proof -
    from a have k: "k \<noteq> attemptKey (req_Attempt (res_Request r))" and a': "bget B (db_attempts db) k = Some x"
      by (auto simp: get_del [OF dela] split: if_splits)
    from wf_attempt [OF wf a'] obtain q v where q: "k = attemptKey (req_Attempt (res_Request q))"
      "validAttempt (req_Attempt (res_Request q))" "x = id_bytes (res_ID q)"
      "bget B (db_reservations db) x = Some v" "decodeReservation v = Some q" by metis
    have "res_ID q \<noteq> res_ID r"
      using q k old w by auto
    with q show ?thesis by (auto simp: attempt_ok_def get_del [OF delr] intro!: exI [of _ q])
  qed
  ultimately show "ledger_wf B L ?db"
    using wf length_delete [OF delr old] length_delete [OF dela att] by (simp add: ledger_wf_lookup)
  show "length (bentries B (db_reservations db)) = Suc (length (bentries B br))"
    by (rule length_delete [OF delr old])
qed

end

end
