(* ===== verification/Budget_Book.thy ===== *)
theory Budget_Book
  imports Budget_Invariant
begin

text \<open>
  The specification the ledger implements: a book of reservations with a clock that never runs
  backwards. A step of the book adds a reservation that fits every limit, moves a reservation along
  held, exposed, committed or held, released, renews a released one, refreshes the recorded balance
  of a held one, or forgets a released one. The totals are integers and the limits are stated by
  sums, without words, counters or bytes.
\<close>

section \<open>The book\<close>

type_synonym book = "time \<times> Reservation list"

text \<open>The amount finalised in the interval from \<open>lo\<close> to \<open>hi\<close>.\<close>

definition window1 :: "(Reservation \<Rightarrow> bool) \<Rightarrow> time \<Rightarrow> time \<Rightarrow> Reservation \<Rightarrow> int" where
  "window1 P lo hi r = (if lo \<le> res_UpdatedAt r \<and> res_UpdatedAt r \<le> hi then spent1 P r else 0)"

definition window :: "(Reservation \<Rightarrow> bool) \<Rightarrow> time \<Rightarrow> time \<Rightarrow> Reservation list \<Rightarrow> int" where
  "window P lo hi rs = sum_list (map (window1 P lo hi) rs)"

definition scope_admits :: "(Reservation \<Rightarrow> bool) \<Rightarrow> Limits \<Rightarrow> time \<Rightarrow> Reservation list \<Rightarrow> int \<Rightarrow> bool" where
  "scope_admits P limits now rs m \<longleftrightarrow>
     \<not> overrun_in P rs \<and> m \<le> uint (PerTransaction limits) \<and>
     since P (now - hour) rs + held P rs + m \<le> uint (PerHour limits) \<and>
     since P (now - 24 * hour) rs + held P rs + m \<le> uint (PerDay limits) \<and>
     spent P rs + held P rs + m \<le> uint (Cumulative limits)"

text \<open>What admission of a reservation guarantees: both scopes and the sponsor's balance.\<close>

definition admits :: "ledger \<Rightarrow> time \<Rightarrow> Reservation list \<Rightarrow> Reservation \<Rightarrow> bool" where
  "admits L now rs r \<longleftrightarrow>
     (let n = req_Network (res_Request r); policy = network_policy L n in
      scope_admits any_scope (pol_Global (led_policy L)) now rs (uint (res_Maximum r)) \<and>
      scope_admits (net_scope n) (np_Limits policy) now rs (uint (res_Maximum r)) \<and>
      uint (np_EmergencySponsorReserve policy) +
        held (sponsor_scope n (req_Sponsor (res_Request r))) rs + uint (res_Maximum r)
        \<le> uint (req_SponsorBalance (res_Request r)))"

text \<open>One reservation of the book replaced by another.\<close>

definition replaces :: "Reservation list \<Rightarrow> Reservation \<Rightarrow> Reservation \<Rightarrow> Reservation list \<Rightarrow> bool" where
  "replaces rs r r' rs' \<longleftrightarrow> r \<in> set rs \<and> add_mset r (mset rs') = add_mset r' (mset rs)"

inductive book_step :: "ledger \<Rightarrow> book \<Rightarrow> book \<Rightarrow> bool" for L where
  tick: "T \<le> T' \<Longrightarrow> time_ok T' \<Longrightarrow> book_step L (T, rs) (T', rs)"
| reserve: "mset rs' = add_mset r (mset rs) \<Longrightarrow> res_State r = ReservationHeld \<Longrightarrow>
    res_UpdatedAt r = T \<Longrightarrow> admits L T rs r \<Longrightarrow> book_step L (T, rs) (T, rs')"
| renew: "replaces rs r r' rs' \<Longrightarrow> res_State r = ReservationReleased \<Longrightarrow>
    res_State r' = ReservationHeld \<Longrightarrow> res_UpdatedAt r' = T \<Longrightarrow> admits L T rs r' \<Longrightarrow>
    book_step L (T, rs) (T, rs')"
| expose: "replaces rs r r' rs' \<Longrightarrow> res_State r = ReservationHeld \<Longrightarrow>
    r' = r\<lparr>res_State := ReservationExposed, res_TxHash := h, res_ExposedAt := T, res_UpdatedAt := T\<rparr> \<Longrightarrow>
    book_step L (T, rs) (T, rs')"
| finalize: "replaces rs r r' rs' \<Longrightarrow> res_State r = ReservationExposed \<Longrightarrow>
    r' = r\<lparr>res_State := ReservationCommitted, res_Actual := a, res_UpdatedAt := T\<rparr> \<Longrightarrow>
    a \<le> res_Maximum r \<or> np_AllowFeeOverrun (network_policy L (req_Network (res_Request r))) \<Longrightarrow>
    book_step L (T, rs) (T, rs')"
| release: "replaces rs r r' rs' \<Longrightarrow> res_State r = ReservationHeld \<Longrightarrow>
    r' = r\<lparr>res_State := ReservationReleased, res_UpdatedAt := T\<rparr> \<Longrightarrow> book_step L (T, rs) (T, rs')"
| refresh: "replaces rs r r' rs' \<Longrightarrow> res_State r = ReservationHeld \<Longrightarrow>
    r' = r\<lparr>res_Request := (res_Request r)\<lparr>req_SponsorBalance := b\<rparr>\<rparr> \<Longrightarrow> book_step L (T, rs) (T, rs')"
| purge: "mset rs = add_mset r (mset rs') \<Longrightarrow> res_State r = ReservationReleased \<Longrightarrow>
    book_step L (T, rs) (T, rs')"

section \<open>The invariant of the book\<close>

definition window_within :: "(Reservation \<Rightarrow> bool) \<Rightarrow> Limits \<Rightarrow> Reservation list \<Rightarrow> bool" where
  "window_within P limits rs \<longleftrightarrow> overrun_in P rs \<or>
     (\<forall>t. window P (t - hour) t rs \<le> uint (PerHour limits) \<and>
          window P (t - 24 * hour) t rs \<le> uint (PerDay limits))"

definition every_window :: "ledger \<Rightarrow> Reservation list \<Rightarrow> bool" where
  "every_window L rs \<longleftrightarrow>
     window_within any_scope (pol_Global (led_policy L)) rs \<and>
     (\<forall>(n, p) \<in> set (led_networks L). window_within (net_scope n) (np_Limits p) rs)"

definition book_inv :: "ledger \<Rightarrow> book \<Rightarrow> bool" where
  "book_inv L b \<longleftrightarrow> (case b of (T, rs) \<Rightarrow>
     0 < T \<and> time_ok T \<and> within_limits L T rs \<and> every_window L rs \<and> (\<forall>r \<in> set rs. res_UpdatedAt r \<le> T))"

lemma window_mset: "window P lo hi rs = (\<Sum>x \<in># mset rs. window1 P lo hi x)"
  by (simp add: window_def sum_mset_sum_list [symmetric] flip: mset_map)

lemma window_le_since: "window P lo hi rs \<le> since P lo rs"
  by (auto simp: window_def since_def window1_def since1_def intro!: sum_list_mono)

lemma window_replaced:
  assumes "add_mset r (mset rs') = add_mset r' (mset rs)"
  shows "window P lo hi rs' + window1 P lo hi r = window P lo hi rs + window1 P lo hi r'"
proof -
  have "(\<Sum>x \<in># add_mset r (mset rs'). window1 P lo hi x) = (\<Sum>x \<in># add_mset r' (mset rs). window1 P lo hi x)"
    using assms by simp
  then show ?thesis by (simp add: window_mset)
qed

lemma window1_uncommitted: "\<not> is_committed r \<Longrightarrow> window1 P lo hi r = 0"
  by (simp add: window1_def spent1_def)

lemma window_bound:
  assumes "T \<le> hi" and "hi - d \<le> lo"
  shows "window P lo hi rs \<le> since P (T - d) rs"
  using window_le_since [of P lo hi rs] since_antimono [of "T - d" lo P rs] assms by linarith

text \<open>A replacement that charges at the present instant keeps every window within its limit.\<close>

lemma window_within_replaced:
  assumes m: "add_mset r (mset rs') = add_mset r' (mset rs)" and r: "\<not> is_committed r"
    and w: "window_within P limits rs" and s: "scope_within P limits T rs'" and T: "0 < T" "time_ok T"
    and c: "is_committed r' \<Longrightarrow> res_UpdatedAt r' = T"
  shows "window_within P limits rs'"
proof (cases "overrun_in P rs'")
  case False
  have no: "\<not> overran r" using r by (simp add: overran_def)
  from False have "\<not> overrun_in P rs" using replaced_overrun [OF m no] by simp
  with w have old: "window P (t - hour) t rs \<le> uint (PerHour limits)"
    "window P (t - 24 * hour) t rs \<le> uint (PerDay limits)" for t
    by (auto simp: window_within_def)
  from s False have new: "since P (T - hour) rs' \<le> uint (PerHour limits)"
    "since P (T - 24 * hour) rs' \<le> uint (PerDay limits)"
    using sums_nonneg(1) [of P rs'] unfolding scope_within_def windows [OF T] by linarith+
  have early: "window P lo t rs' = window P lo t rs" if "t < T" for lo t
  proof -
    have "window1 P lo t r' = 0"
      using c that by (cases "is_committed r'") (auto simp: window1_def spent1_def)
    with window_replaced [OF m, of P lo t] r show ?thesis by (simp add: window1_uncommitted)
  qed
  have "window P (t - hour) t rs' \<le> uint (PerHour limits) \<and>
      window P (t - 24 * hour) t rs' \<le> uint (PerDay limits)" for t
  proof (cases "t < T")
    case True
    with old [of t] early [OF True] show ?thesis by simp
  next
    case False
    then show ?thesis
      using window_bound [of T t hour "t - hour" P rs'] window_bound [of T t "24 * hour" "t - 24 * hour" P rs'] new
      by linarith
  qed
  then show ?thesis by (simp add: window_within_def)
qed (simp add: window_within_def)

text \<open>Adding or removing a reservation that is not committed changes no window.\<close>

lemma window_within_added:
  assumes "mset rs' = add_mset r (mset rs)" and "\<not> is_committed r"
  shows "window_within P limits rs' \<longleftrightarrow> window_within P limits rs"
proof -
  have "window P lo hi rs' = window P lo hi rs" for lo hi
    using assms by (simp add: window_mset window1_uncommitted)
  moreover have "overrun_in P rs' \<longleftrightarrow> overrun_in P rs"
    using assms by (auto simp: sums_mset overran_def)
  ultimately show ?thesis by (simp add: window_within_def)
qed

section \<open>Preservation\<close>

definition distinct_networks :: "ledger \<Rightarrow> bool" where
  "distinct_networks L \<longleftrightarrow> distinct (map fst (led_networks L))"

lemma network_policy_eq: "distinct_networks L \<Longrightarrow> (n, p) \<in> set (led_networks L) \<Longrightarrow> network_policy L n = p"
  by (simp add: distinct_networks_def network_policy_def)

lemma replaced_members: "add_mset r (mset rs') = add_mset r' (mset rs) \<Longrightarrow> set rs' \<subseteq> insert r' (set rs)"
  by (metis insertCI set_mset_add_mset_insert set_mset_mset subsetI)

lemma book_inv_replaced:
  assumes inv: "book_inv L (T, rs)" and m: "add_mset r (mset rs') = add_mset r' (mset rs)"
    and r: "\<not> is_committed r" and u: "res_UpdatedAt r' \<le> T" "is_committed r' \<Longrightarrow> res_UpdatedAt r' = T"
    and g: "scope_within any_scope (pol_Global (led_policy L)) T rs'"
    and n: "\<And>n p. (n, p) \<in> set (led_networks L) \<Longrightarrow> scope_within (net_scope n) (np_Limits p) T rs'"
  shows "book_inv L (T, rs')"
proof -
  from inv have T: "0 < T" "time_ok T" by (simp_all add: book_inv_def)
  have "window_within any_scope (pol_Global (led_policy L)) rs'"
    using inv by (intro window_within_replaced [OF m r _ g T u(2)]) (simp_all add: book_inv_def every_window_def)
  moreover have "window_within (net_scope k) (np_Limits p) rs'" if "(k, p) \<in> set (led_networks L)" for k p
    using inv that
    by (intro window_within_replaced [OF m r _ n [OF that] T u(2)]) (auto simp: book_inv_def every_window_def)
  ultimately show ?thesis
    using inv g n u(1) replaced_members [OF m] by (auto simp: book_inv_def every_window_def within_limits_def)
qed

lemma scope_within_admitted:
  assumes sums: "held P rs' = held P rs + held1 P r'" "spent P rs' = spent P rs" "\<And>t. since P t rs' = since P t rs"
    and ov: "overrun_in P rs' \<longleftrightarrow> overrun_in P rs" and T: "0 < T" "time_ok T" and op: "is_open r'"
    and old: "scope_within P limits T rs" and ok: "P r' \<Longrightarrow> scope_admits P limits T rs (uint (res_Maximum r'))"
  shows "scope_within P limits T rs'"
  using old ok op unfolding scope_within_def windows [OF T] sums ov
  by (cases "P r'") (auto simp: scope_admits_def held1_def)

lemma admits_scopes:
  assumes "admits L T rs r" and "distinct_networks L"
  shows "scope_admits any_scope (pol_Global (led_policy L)) T rs (uint (res_Maximum r))"
    and "(n, p) \<in> set (led_networks L) \<Longrightarrow> net_scope n r \<Longrightarrow>
      scope_admits (net_scope n) (np_Limits p) T rs (uint (res_Maximum r))"
  using assms by (auto simp: admits_def Let_def net_scope_def network_policy_eq)

lemma book_inv_reserve:
  assumes inv: "book_inv L (T, rs)" and m: "mset rs' = add_mset r (mset rs)" and r: "res_State r = ReservationHeld"
    and u: "res_UpdatedAt r = T" and ok: "admits L T rs r" and d: "distinct_networks L"
  shows "book_inv L (T, rs')"
proof -
  have op: "is_open r" "\<not> is_committed r" using r by (simp_all add: is_open_def is_committed_def)
  have sums: "held P rs' = held P rs + held1 P r" "spent P rs' = spent P rs" "since P t rs' = since P t rs"
    "overrun_in P rs' \<longleftrightarrow> overrun_in P rs" for P t
    using added_sums [OF m] op(2) by (auto simp: spent1_def since1_def overran_def)
  from inv have T: "0 < T" "time_ok T" by (simp_all add: book_inv_def)
  note within = scope_within_admitted [OF sums(1-4) T op(1)]
  have "within_limits L T rs'"
    using inv within admits_scopes [OF ok d] by (auto simp: book_inv_def within_limits_def)
  moreover have "set rs' = insert r (set rs)"
    by (metis m set_mset_add_mset_insert set_mset_mset)
  ultimately show ?thesis
    using inv u by (auto simp: book_inv_def every_window_def window_within_added [OF m op(2)])
qed

lemma book_inv_renew:
  assumes inv: "book_inv L (T, rs)" and m: "add_mset r (mset rs') = add_mset r' (mset rs)"
    and r: "res_State r = ReservationReleased" and r': "res_State r' = ReservationHeld"
    and u: "res_UpdatedAt r' = T" and ok: "admits L T rs r'" and d: "distinct_networks L"
  shows "book_inv L (T, rs')"
proof -
  have op: "is_open r'" "\<not> is_committed r'" "\<not> is_committed r" "\<not> overran r" "\<not> overran r'"
    using r r' by (simp_all add: is_open_def is_committed_def overran_def)
  have sums: "held P rs' = held P rs + held1 P r'" "spent P rs' = spent P rs" "since P t rs' = since P t rs"
    "overrun_in P rs' \<longleftrightarrow> overrun_in P rs" for P t
    using replaced_sums [OF m] replaced_overrun [OF m op(4)] op released_contributions [OF r]
    by (simp_all add: spent1_def since1_def)
  from inv have T: "0 < T" "time_ok T" by (simp_all add: book_inv_def)
  note within = scope_within_admitted [OF sums(1-4) T op(1)]
  show ?thesis
    using inv u op admits_scopes [OF ok d]
    by (intro book_inv_replaced [OF inv m op(3)] within) (auto simp: book_inv_def within_limits_def)
qed

text \<open>The moves of an open reservation never raise what its scope uses, unless the fee overran.\<close>

lemma book_inv_move:
  assumes inv: "book_inv L (T, rs)" and m: "add_mset r (mset rs') = add_mset r' (mset rs)" and r: "is_open r"
    and u: "res_UpdatedAt r' \<le> T" "is_committed r' \<Longrightarrow> res_UpdatedAt r' = T"
    and same: "req_Network (res_Request r') = req_Network (res_Request r)"
    and le: "overran r' \<or> held1 any_scope r' + spent1 any_scope r' \<le> uint (res_Maximum r)"
  shows "book_inv L (T, rs')"
proof -
  have nc: "\<not> is_committed r" using r by (auto simp: is_open_def is_committed_def)
  have P: "P r' \<and> overran r' \<or> held1 P r' + spent1 P r' \<le> held1 P r" if "P r' \<longleftrightarrow> P r" for P
    using le r that by (auto simp: held1_def spent1_def any_scope_def)
  have eq: "any_scope r' \<longleftrightarrow> any_scope r" "net_scope n r' \<longleftrightarrow> net_scope n r" for n
    using same by (simp_all add: scope_defs)
  show ?thesis
    using inv u
    by (intro book_inv_replaced [OF inv m nc] scope_within_replaced [OF _ m r P] eq)
      (auto simp: book_inv_def within_limits_def)
qed

lemma book_inv_purge:
  assumes inv: "book_inv L (T, rs)" and m: "mset rs = add_mset r (mset rs')" and r: "res_State r = ReservationReleased"
  shows "book_inv L (T, rs')"
proof -
  have "held P rs' = held P rs" "spent P rs' = spent P rs" "since P t rs' = since P t rs"
    "overrun_in P rs' \<longleftrightarrow> overrun_in P rs" for P t
    using added_sums [OF m] released_contributions [OF r] by simp_all
  then have "within_limits L T rs' \<longleftrightarrow> within_limits L T rs"
    by (simp add: within_limits_def scope_within_def)
  moreover have "every_window L rs' \<longleftrightarrow> every_window L rs"
    using window_within_added [OF m] r by (simp add: every_window_def is_committed_def)
  moreover have "set rs' \<subseteq> set rs"
    by (metis m set_mset_add_mset_insert set_mset_mset subset_insertI)
  ultimately show ?thesis using inv by (auto simp: book_inv_def)
qed

lemma replaces_mset: "replaces rs r r' rs' \<Longrightarrow> add_mset r (mset rs') = add_mset r' (mset rs)"
  by (simp add: replaces_def)

lemma book_step_inv:
  assumes "book_step L b b'" and "book_inv L b" and "distinct_networks L"
  shows "book_inv L b'"
  using assms
proof cases
  case (tick T T' rs)
  with assms(2) show ?thesis
    using within_limits_later [of L T rs T'] by (auto simp: book_inv_def)
next
  case (finalize rs r r' rs' T a)
  then have op: "is_open r" by (simp add: is_open_def)
  show ?thesis
    unfolding finalize(2) using finalize assms(2) by (intro book_inv_move [OF _ replaces_mset [OF finalize(3)] op])
      (auto simp: contribution_defs overran_def word_le_def word_less_def not_le)
next
  case (expose rs r r' rs' h T)
  then have op: "is_open r" by (simp add: is_open_def)
  show ?thesis
    unfolding expose(2) using expose assms(2) by (intro book_inv_move [OF _ replaces_mset [OF expose(3)] op]) (auto simp: contribution_defs)
next
  case (release rs r r' rs' T)
  then have op: "is_open r" by (simp add: is_open_def)
  show ?thesis
    unfolding release(2) using release assms(2) by (intro book_inv_move [OF _ replaces_mset [OF release(3)] op]) (auto simp: contribution_defs)
next
  case (refresh rs r r' rs' b T)
  then have op: "is_open r" by (simp add: is_open_def)
  show ?thesis
    unfolding refresh(2) using refresh assms(2) by (intro book_inv_move [OF _ replaces_mset [OF refresh(3)] op]) (auto simp: contribution_defs replaces_def book_inv_def)
qed (auto intro: book_inv_reserve book_inv_renew [OF _ replaces_mset] book_inv_purge)

lemma book_steps_inv:
  "(book_step L)\<^sup>*\<^sup>* b b' \<Longrightarrow> book_inv L b \<Longrightarrow> distinct_networks L \<Longrightarrow> book_inv L b'"
  by (induction rule: rtranclp_induct) (auto intro: book_step_inv)

end
