(* ===== verification/Budget_Refinement.thy ===== *)
theory Budget_Refinement
  imports Budget_Book
begin

text \<open>
  The ledger implements the book: a transaction of the byte-level model that commits is a sequence of
  steps of the book, and one that does not commit leaves the database as it was.
\<close>

section \<open>The simulation relation\<close>

definition implements :: "'b bolt \<Rightarrow> ledger \<Rightarrow> 'b ledger_db \<Rightarrow> book \<Rightarrow> bool" where
  "implements B L db b \<longleftrightarrow>
     ledger_wf B L db \<and> lastSeen B db = Inr (fst b) \<and> snd b = reservations_of B db"

text \<open>What \<^verbatim>\<open>validateAndNormalizePolicy\<close> establishes of the networks of a ledger.\<close>

definition ledger_ok :: "ledger \<Rightarrow> bool" where
  "ledger_ok L \<longleftrightarrow> distinct_networks L \<and> (\<forall>(n, p) \<in> set (led_networks L). 0 < sint n)"

lemma ledger_ok_distinct: "ledger_ok L \<Longrightarrow> distinct_networks L"
  by (simp add: ledger_ok_def)

lemma add_networks_ok:
  assumes "foldE add_network acc ns = Inr nets"
    and "distinct (map fst acc)" and "\<forall>(n, p) \<in> set acc. 0 < sint n"
  shows "distinct (map fst nets) \<and> (\<forall>(n, p) \<in> set nets. 0 < sint n)"
  using assms
proof (induction ns arbitrary: acc)
  case (Cons x ns)
  from Cons.prems(1) obtain acc' where step: "add_network acc x = Inr acc'" and rest: "foldE add_network acc' ns = Inr nets"
    by (auto split: sum.splits)
  from step have "distinct (map fst acc') \<and> (\<forall>(n, p) \<in> set acc'. 0 < sint n)"
    using Cons.prems(2,3) by (auto simp: add_network_def not_le map_of_eq_None_iff split: if_splits)
  then show ?case using Cons.IH [OF rest] by simp
qed simp

lemma validated_ledger_ok:
  assumes "validateAndNormalizePolicy policy = Inr (led_policy L, led_networks L)"
  shows "ledger_ok L"
proof -
  from assms have "foldE add_network [] (sort_networks (pol_Networks policy)) = Inr (led_networks L)"
    by (auto simp: validateAndNormalizePolicy_def Let_def split: if_splits sum.splits)
  from add_networks_ok [OF this] show ?thesis by (simp add: ledger_ok_def distinct_networks_def)
qed

lemma sint_pos_uint:
  fixes w :: u64
  assumes "0 < sint w"
  shows "uint w < 2 ^ 63"
proof -
  have e: "sint w = uint w - 2 ^ 64 * of_bool (bit (uint w) 63)"
    using uint_lt2p [of w] by (simp add: sint_uint signed_take_bit_eq_take_bit_minus take_bit_int_eq_self)
  then have "\<not> bit (uint w) 63"
    using assms uint_lt2p [of w] by (auto simp: of_bool_def split: if_splits)
  with e show ?thesis using sint_less [of w] by simp
qed

lemma validateRequest_network:
  assumes "validateRequest L q = None" and "ledger_ok L"
  shows "req_Network q \<le> 0x7fffffffffffffff"
proof -
  from assms(1) obtain p where "(req_Network q, p) \<in> set (led_networks L)"
    by (auto simp: validateRequest_def dest: map_of_SomeD split: option.splits)
  with assms(2) have "0 < sint (req_Network q)" by (auto simp: ledger_ok_def)
  then have "uint (req_Network q) < 2 ^ 63" by (rule sint_pos_uint)
  then show ?thesis by (simp add: word_le_def)
qed

text \<open>
  A transition function keeps the identity of the reservation, and a change it makes is a step of
  the book at the present instant.
\<close>

definition proper_update :: "ledger \<Rightarrow> (Reservation \<Rightarrow> time \<Rightarrow> ledger_error + Reservation) \<Rightarrow> bool" where
  "proper_update L upd \<longleftrightarrow> (\<forall>r now r'. upd r now = Inr r' \<longrightarrow> r' = r \<or>
     res_ID r' = res_ID r \<and> res_Request r' = res_Request r \<and> res_CreatedAt r' = res_CreatedAt r \<and>
     res_ExposedAt r' \<in> {res_ExposedAt r, now} \<and> res_UpdatedAt r' = now \<and>
     (\<forall>rs rs'. replaces rs r r' rs' \<longrightarrow> book_step L (now, rs) (now, rs')))"

section \<open>The clock\<close>

context bolt_engine
begin

lemma implements_meta:
  assumes "implements B L db b" and "lastSeen B (db\<lparr>db_meta := m\<rparr>) = Inr t"
  shows "implements B L (db\<lparr>db_meta := m\<rparr>) (t, snd b)"
  using assms
  by (simp add: implements_def reservations_of_def ledger_wf_def entry_ok_def attempt_ok_def)

lemma effectiveNow_refines:
  assumes i: "implements B L db b" and t: "time_ok observed" "validPersistentTime observed"
    and e: "effectiveNow B db observed = Inr (now, db')"
  shows "implements B L db' (now, snd b) \<and> book_step L b (now, snd b) \<and> fst b \<le> now \<and> now = max (fst b) observed"
proof (cases "After observed (fst b)")
  case True
  with i e obtain m where put: "bput B (db_meta db) ledgerLastSeenKey (appendTime [] observed) = Some m"
    and r: "now = observed" "db' = db\<lparr>db_meta := m\<rparr>"
    by (auto simp: effectiveNow_def implements_def split: option.splits)
  have "lastSeen B db' = Inr observed"
    by (simp add: lastSeen_def r bytes_or_nil_def get_put [OF put] decodeStoredTime_append t)
  with implements_meta [OF i, of m observed] r have "implements B L db' (now, snd b)" by simp
  moreover have "book_step L (fst b, snd b) (now, snd b)"
    using True t r by (intro tick) (simp_all add: After_def)
  ultimately show ?thesis using True r by (simp add: After_def)
next
  case False
  with i e have r: "now = fst b" "db' = db"
    by (auto simp: effectiveNow_def implements_def)
  have "book_step L (fst b, snd b) (fst b, snd b)"
    using i lastSeen_Inr [of B db "fst b"] by (intro tick) (simp_all add: implements_def)
  with i r False show ?thesis by (simp add: After_def)
qed

section \<open>Writing one reservation\<close>

lemma reservationByID_Inr:
  "reservationByID B L db rid = Inr r \<longleftrightarrow>
     (\<exists>v. bget B (db_reservations db) (id_bytes rid) = Some v \<and> decodeReservation v = Some r \<and>
          res_ID r = rid \<and> validateReservation L r)"
  by (auto simp: reservationByID_def split: option.splits if_splits)

lemma reservationByID_member:
  assumes "reservationByID B L db rid = Inr r"
  shows "r \<in> set (reservations_of B db)"
proof -
  from assms obtain v where "(id_bytes rid, v) \<in> set (bentries B (db_reservations db))"
    and "decodeReservation v = Some r" by (auto simp: reservationByID_Inr entry_get)
  then show ?thesis by (force simp: reservations_of_def decoded_def)
qed

lemma overwrite_refines:
  assumes i: "implements B L db (T, rs)" and old: "reservationByID B L db rid = Inr r"
    and enc: "encodeReservation r' = Some v" and st: "storable_reservation r'"
    and same: "res_ID r' = rid" "req_Attempt (res_Request r') = req_Attempt (res_Request r)"
    and valid: "validateReservation L r'"
    and put: "bput B (db_reservations db) (id_bytes rid) v = Some b'"
  shows "\<exists>rs'. implements B L (db\<lparr>db_reservations := b'\<rparr>) (T, rs') \<and> replaces rs r r' rs'"
proof -
  from old obtain w where w: "bget B (db_reservations db) (id_bytes rid) = Some w"
    "decodeReservation w = Some r" "res_ID r = rid"
    by (auto simp: reservationByID_Inr)
  have v: "decodeReservation v = Some r'" by (rule decode_encode_reservation [OF enc st])
  have "ledger_wf B L (db\<lparr>db_reservations := b'\<rparr>)"
    using i w v same valid put by (intro wf_overwrite [of L db r w v r']) (simp_all add: implements_def)
  moreover have "replaces rs r r' (reservations_of B (db\<lparr>db_reservations := b'\<rparr>))"
    using mset_decoded_overwrite [OF put w(1)] i reservationByID_member [OF old] w v
    by (simp add: replaces_def reservations_of_def implements_def decoded_def)
  ultimately show ?thesis
    using i by (auto simp: implements_def lastSeen_def)
qed

section \<open>Transitions\<close>

lemma transition_now_refines:
  assumes i: "implements B L db b" and t: "time_ok (env_now env)"
    and e: "transition_now B env observed db = Inr (now, db')"
  shows "implements B L db' (now, snd b) \<and> book_step L b (now, snd b) \<and> fst b \<le> now"
proof (cases "IsZero observed")
  case True
  with i e have r: "now = fst b" "db' = db"
    by (auto simp: transition_now_def implements_def)
  have "book_step L (fst b, snd b) (fst b, snd b)"
    using i lastSeen_Inr [of B db "fst b"] by (intro tick) (simp_all add: implements_def)
  with i r show ?thesis by simp
next
  case False
  with e have "effectiveNow B db (env_now env) = Inr (now, db')" "validPersistentTime (env_now env)"
    by (auto simp: transition_now_def Let_def observedNow_def normalizeTime_def split: if_splits)
  with effectiveNow_refines [OF i t] show ?thesis by blast
qed

lemma transition_tx_refines:
  assumes i: "implements B L db b" and t: "time_ok (env_now env)" and upd: "proper_update L upd"
    and e: "transition_tx B L env rid observed upd db = Inr (r', db')"
  shows "\<exists>b'. implements B L db' b' \<and> (book_step L)\<^sup>*\<^sup>* b b' \<and> fst b \<le> fst b' \<and>
    r' \<in> set (snd b') \<and> res_ID r' = rid"
proof -
  from e obtain now db1 r where n: "transition_now B env observed db = Inr (now, db1)"
    and r: "reservationByID B L db1 rid = Inr r" and u: "upd r now = Inr r'"
    and w: "if r' = r then db' = db1 else validateReservation L r' \<and>
      (\<exists>v b'. encodeReservation r' = Some v \<and> bput B (db_reservations db1) (id_bytes rid) v = Some b' \<and>
        db' = db1\<lparr>db_reservations := b'\<rparr>)"
    by (auto simp: transition_tx_def split: sum.splits prod.splits if_splits option.splits)
  from transition_now_refines [OF i t n]
  have i1: "implements B L db1 (now, snd b)" and s1: "book_step L b (now, snd b)" and le: "fst b \<le> now" by auto
  from r have id: "res_ID r = rid" and st: "storable_reservation r"
    by (auto simp: reservationByID_Inr dest: decodeReservation_storable)
  show ?thesis
  proof (cases "r' = r")
    case True
    with w i1 s1 le id reservationByID_member [OF r] show ?thesis
      by (intro exI [of _ "(now, snd b)"]) (auto simp: implements_def)
  next
    case False
    from False upd u have p: "res_ID r' = res_ID r" "res_Request r' = res_Request r"
        "res_CreatedAt r' = res_CreatedAt r" "res_ExposedAt r' \<in> {res_ExposedAt r, now}" "res_UpdatedAt r' = now"
      and step: "replaces rs r r' rs' \<Longrightarrow> book_step L (now, rs) (now, rs')" for rs rs'
      unfolding proper_update_def by blast+
    have "storable_time now"
      using i1 lastSeen_Inr [of B db1 now] by (auto simp: implements_def intro: valid_time_storable)
    with st p have st': "storable_reservation r'" by (auto simp: storable_reservation_def)
    from w False obtain v b' where v: "validateReservation L r'" "encodeReservation r' = Some v"
      "bput B (db_reservations db1) (id_bytes rid) v = Some b'" "db' = db1\<lparr>db_reservations := b'\<rparr>" by auto
    from overwrite_refines [OF i1 r v(2) st' _ _ v(1,3)] p id v(4)
    obtain rs' where i': "implements B L db' (now, rs')" and rep: "replaces (snd b) r r' rs'" by auto
    have "r' \<in> set rs'"
      using replaces_mset [OF rep] False by (metis insert_noteq_member set_mset_mset)
    with i' rep s1 le id p step show ?thesis
      by (intro exI [of _ "(now, rs')"]) (auto intro: rtranclp.rtrancl_into_rtrancl)
  qed
qed

end

section \<open>Admission\<close>

lemma checkScopeBudget_admits:
  assumes "scope_matches P T rs u" and "0 < T" and "time_ok T"
  shows "checkScopeBudget limits u m \<longleftrightarrow> scope_admits P limits T rs (uint m)"
  using assms(1) windows [OF assms(2,3)]
  by (auto simp: checkScopeBudget_def scope_admits_def scope_matches_def hasCapacity_iff not_less word_le_def)

text \<open>The admission test of the code is admission to the book.\<close>

lemma admit_iff:
  assumes u: "usage_matches T rs u" and T: "0 < T" "time_ok T"
    and r: "res_Request r = q" "res_Maximum r = m"
  shows "admit L u q = Inr m \<longleftrightarrow>
    Maximum (req_Quote q) (np_TransactionOverhead (network_policy L (req_Network q))) = Inr m \<and> admits L T rs r"
proof -
  from u have g: "scope_matches any_scope T rs (agg_global u)"
    and n: "scope_matches (net_scope n) T rs (agg_networks u n)"
    and s: "uint (agg_sponsors u (n, a)) = held (sponsor_scope n a) rs" for n a
    by (simp_all add: usage_matches_def)
  show ?thesis
    using r
    by (auto simp: admit_def admits_def Let_def checkScopeBudget_admits [OF g T] checkScopeBudget_admits [OF n T]
        sponsorHasCapacity_iff s split: sum.splits)
qed

lemma usage_matches_purged:
  assumes "usage_matches now rs u" and "mset rs = add_mset r (mset rs')" and "res_State r = ReservationReleased"
  shows "usage_matches now rs' u"
  using assms(1) added_sums [OF assms(2)] released_contributions [OF assms(3)]
  by (simp add: usage_matches_def scope_matches_def)

lemma validate_admitted:
  assumes ok: "validateRequest L q = None"
    and max: "Maximum (req_Quote q) (np_TransactionOverhead (network_policy L (req_Network q))) = Inr m"
    and adm: "admits L T rs r" and r: "res_Request r = q" "res_Maximum r = m"
    and id: "res_ID r \<noteq> 0" "res_ID r = NewReservationID (req_Attempt q)"
    and now: "validPersistentTime now" "res_CreatedAt r = now" "res_UpdatedAt r = now"
    and st: "res_State r = ReservationHeld" "res_TxHash r = 0" "res_Actual r = 0" "IsZero (res_ExposedAt r)"
  shows "validateReservation L r"
  using assms by (simp add: validateReservation_def admits_def Let_def scope_admits_def Before_def not_less word_le_def)

lemma selected_released:
  assumes "foldE (selectReleased L) None es = Inr (Some r)"
  shows "\<exists>k v. (k, v) \<in> set es \<and> decodeReservation v = Some r \<and> res_State r = ReservationReleased"
proof -
  define Q where "Q ys s \<longleftrightarrow> (\<forall>r. s = Some r \<longrightarrow>
    (\<exists>k v. (k, v) \<in> set ys \<and> decodeReservation v = Some r \<and> res_State r = ReservationReleased))"
    for ys :: "(bytes \<times> bytes) list" and s
  have "Q es (Some r)"
  proof (rule foldE_Inr_rev_induct [OF assms])
    show "Q [] None" by (simp add: Q_def)
  next
    fix ys y t t'
    assume "Q ys t" and "selectReleased L t y = Inr t'"
    then show "Q (ys @ [y]) t'"
      by (cases y) (auto simp: Q_def selectReleased_def split: option.splits if_splits; blast)
  qed
  then show ?thesis by (simp add: Q_def)
qed

lemma proper_expose: "proper_update L (expose h)"
  by (auto simp: proper_update_def expose_def intro: book_step.expose split: if_splits)

lemma proper_commit: "proper_update L (commit L charge)"
  by (auto simp: proper_update_def commit_def not_less intro: book_step.finalize split: if_splits)

lemma proper_release: "proper_update L release"
  by (auto simp: proper_update_def release_def intro: book_step.release split: if_splits)

section \<open>Reserving\<close>

context bolt_engine
begin

lemma purge_refines:
  assumes i: "implements B L db (T, rs)" and p: "purgeOldestReleased B L db = Inr (True, db')"
  shows "\<exists>r rs'. implements B L db' (T, rs') \<and> mset rs = add_mset r (mset rs') \<and>
    res_State r = ReservationReleased \<and>
    length (bentries B (db_reservations db)) = Suc (length (bentries B (db_reservations db'))) \<and>
    (\<forall>k. bget B (db_attempts db) k = None \<longrightarrow> bget B (db_attempts db') k = None)"
proof -
  from p obtain r br ba where sel: "foldE (selectReleased L) None (bentries B (db_reservations db)) = Inr (Some r)"
    and d: "bdel B (db_reservations db) (id_bytes (res_ID r)) = Some br"
      "bdel B (db_attempts db) (attemptKey (req_Attempt (res_Request r))) = Some ba"
    and db': "db' = db\<lparr>db_reservations := br, db_attempts := ba\<rparr>"
    by (auto simp: purgeOldestReleased_def split: sum.splits option.splits)
  from selected_released [OF sel] obtain k v where kv: "bget B (db_reservations db) k = Some v"
    "decodeReservation v = Some r" "res_State r = ReservationReleased" by (auto simp: entry_get)
  have wf: "ledger_wf B L db" using i by (simp add: implements_def)
  from wf_entry [OF wf kv(1)] kv(2) have k: "k = id_bytes (res_ID r)" by auto
  note del = wf_delete [OF wf kv(1,2) [unfolded k] d]
  have "implements B L db' (T, reservations_of B db')"
    using i del(1) by (simp add: implements_def db' lastSeen_def)
  moreover have "mset rs = add_mset r (mset (reservations_of B db'))"
    using mset_decoded_delete [OF d(1) kv(1) [unfolded k]] i kv(2)
    by (simp add: reservations_of_def implements_def db' decoded_def)
  ultimately show ?thesis
    using kv(3) del(2) by (auto simp: db' get_del [OF d(2)])
qed

lemma insert_refines:
  assumes i: "implements B L db (T, rs)" and enc: "put_reservation B db r = Inr db1"
    and st: "storable_reservation r" and valid: "validateReservation L r"
    and new: "bget B (db_reservations db) (id_bytes (res_ID r)) = None"
      "bget B (db_attempts db) (attemptKey (req_Attempt (res_Request r))) = None"
    and room: "int (length (bentries B (db_reservations db))) < uint (led_maxRecords L)"
    and att: "bput B (db_attempts db) (attemptKey (req_Attempt (res_Request r))) (id_bytes (res_ID r)) = Some ba"
  shows "\<exists>rs'. implements B L (db1\<lparr>db_attempts := ba\<rparr>) (T, rs') \<and> mset rs' = add_mset r (mset rs)"
proof -
  from enc obtain v br where v: "encodeReservation r = Some v"
    and br: "bput B (db_reservations db) (id_bytes (res_ID r)) v = Some br"
    and db1: "db1 = db\<lparr>db_reservations := br\<rparr>"
    by (auto simp: put_reservation_def split: option.splits)
  have dec: "decodeReservation v = Some r" by (rule decode_encode_reservation [OF v st])
  have wf: "ledger_wf B L db" using i by (simp add: implements_def)
  have "implements B L (db1\<lparr>db_attempts := ba\<rparr>) (T, reservations_of B (db1\<lparr>db_attempts := ba\<rparr>))"
    using i wf_insert [OF wf dec valid new room br att] by (simp add: implements_def db1 lastSeen_def)
  moreover have "mset (reservations_of B (db1\<lparr>db_attempts := ba\<rparr>)) = add_mset r (mset rs)"
    using mset_decoded_fresh [OF br new(1)] i dec
    by (simp add: reservations_of_def implements_def db1 decoded_def)
  ultimately show ?thesis by blast
qed

end

lemma sameReservationRequest_fields:
  assumes "sameReservationRequest p q"
  shows "req_Quote p = req_Quote q" "req_Network p = req_Network q" "req_Attempt p = req_Attempt q"
  using arg_cong [OF assms [unfolded sameReservationRequest_def], of req_Attempt]
    arg_cong [OF assms [unfolded sameReservationRequest_def], of req_Quote]
    arg_cong [OF assms [unfolded sameReservationRequest_def], of req_Network] by simp_all

text \<open>What a caller of \<^verbatim>\<open>Reserve\<close> supplies: representable times and an attempt whose identifier is not the zero hash.\<close>

definition request_ok :: "ReservationRequest \<Rightarrow> bool" where
  "request_ok q \<longleftrightarrow> time_ok (req_ObservedAt q) \<and> NewReservationID (req_Attempt q) \<noteq> 0 \<and>
     (IsZero (req_ObservedAt q) \<or> validPersistentTime (req_ObservedAt q))"

lemma request_ok_storable: "request_ok q \<Longrightarrow> storable_time (req_ObservedAt q)"
  by (auto simp: request_ok_def IsZero_def intro: valid_time_storable)

context bolt_engine
begin

lemma admitted_record:
  assumes L: "ledger_ok L" and q: "validateRequest L q = None" "request_ok q"
    and u: "usage_matches T rs u" and T: "0 < T" "time_ok T" "validPersistentTime T"
    and adm: "admit L u q = Inr m"
    and r: "r = \<lparr>res_ID = NewReservationID (req_Attempt q), res_Request = q, res_Maximum = m,
      res_State = ReservationHeld, res_TxHash = 0, res_Actual = 0, res_CreatedAt = T,
      res_ExposedAt = zeroTime, res_UpdatedAt = T\<rparr>"
  shows "admits L T rs r" "validateReservation L r" "storable_reservation r"
proof -
  have am: "Maximum (req_Quote q) (np_TransactionOverhead (network_policy L (req_Network q))) = Inr m \<and> admits L T rs r"
    using adm admit_iff [OF u T(1,2), of r q m L] by (simp add: r)
  then show "admits L T rs r" by simp
  show "validateReservation L r"
    using am q T by (intro validate_admitted [of L q m T rs r T]) (auto simp: r request_ok_def IsZero_def)
  show "storable_reservation r"
    using validateRequest_network [OF q(1) L] request_ok_storable [OF q(2)] valid_time_storable [OF T(2,3)]
    by (simp add: storable_reservation_def r)
qed

text \<open>A full ledger drops its oldest released reservation, which leaves the totals alone.\<close>

lemma make_room:
  assumes i: "implements B L db (T, rs)" and u: "usage_matches T rs u"
    and none: "bget B (db_attempts db) k = None" and e: "reserve_new B L q T u db = Inr (r, db')"
  shows "\<exists>db0 rs0. implements B L db0 (T, rs0) \<and> (book_step L)\<^sup>*\<^sup>* (T, rs) (T, rs0) \<and>
    usage_matches T rs0 u \<and> bget B (db_attempts db0) k = None \<and>
    int (length (bentries B (db_reservations db0))) < uint (led_maxRecords L) \<and>
    reserve_new B L q T u db0 = Inr (r, db')"
proof (cases "uint (led_maxRecords L) \<le> int (length (bentries B (db_reservations db)))")
  case True
  with e obtain db0 where p: "purgeOldestReleased B L db = Inr (True, db0)"
    by (auto simp: reserve_new_def split: sum.splits if_splits)
  from purge_refines [OF i p] obtain x rs0 where i0: "implements B L db0 (T, rs0)"
    and m: "mset rs = add_mset x (mset rs0)" and x: "res_State x = ReservationReleased"
    and len: "length (bentries B (db_reservations db)) = Suc (length (bentries B (db_reservations db0)))"
    and keep: "\<forall>k. bget B (db_attempts db) k = None \<longrightarrow> bget B (db_attempts db0) k = None" by blast
  have room: "int (length (bentries B (db_reservations db0))) < uint (led_maxRecords L)"
    using i len by (simp add: implements_def ledger_wf_def)
  have "reserve_new B L q T u db0 = reserve_new B L q T u db"
    using True room p by (simp add: reserve_new_def)
  moreover have "book_step L (T, rs) (T, rs0)" by (rule purge [OF m x])
  ultimately show ?thesis
    using i0 usage_matches_purged [OF u m x] keep none room e by auto
next
  case False
  with i u none e show ?thesis by (auto simp: not_le)
qed

lemma reserve_new_refines:
  assumes i: "implements B L db (T, rs)" and L: "ledger_ok L" and q: "validateRequest L q = None" "request_ok q"
    and u: "usage_matches T rs u" and T: "0 < T"
    and none: "bget B (db_attempts db) (attemptKey (req_Attempt q)) = None"
    and e: "reserve_new B L q T u db = Inr (r, db')"
  shows "\<exists>rs0 rs'. implements B L db' (T, rs') \<and> (book_step L)\<^sup>*\<^sup>* (T, rs) (T, rs0) \<and>
    book_step L (T, rs0) (T, rs') \<and> admits L T rs0 r \<and> mset rs' = add_mset r (mset rs0) \<and>
    res_Request r = q \<and> res_State r = ReservationHeld"
proof -
  have T2: "time_ok T" "validPersistentTime T"
    using i lastSeen_Inr [of B db T] by (simp_all add: implements_def)
  obtain db0 rs0 where i0: "implements B L db0 (T, rs0)" and s0: "(book_step L)\<^sup>*\<^sup>* (T, rs) (T, rs0)"
    and u0: "usage_matches T rs0 u" and none0: "bget B (db_attempts db0) (attemptKey (req_Attempt q)) = None"
    and room: "int (length (bentries B (db_reservations db0))) < uint (led_maxRecords L)"
    and rest: "reserve_new B L q T u db0 = Inr (r, db')"
    using make_room [OF i u none e] by blast
  from rest room obtain m db1 ba where adm: "admit L u q = Inr m"
    and r: "r = \<lparr>res_ID = NewReservationID (req_Attempt q), res_Request = q, res_Maximum = m,
      res_State = ReservationHeld, res_TxHash = 0, res_Actual = 0, res_CreatedAt = T,
      res_ExposedAt = zeroTime, res_UpdatedAt = T\<rparr>"
    and new: "bget B (db_reservations db0) (id_bytes (res_ID r)) = None"
    and put: "put_reservation B db0 r = Inr db1"
    and ba: "bput B (db_attempts db1) (attemptKey (req_Attempt q)) (id_bytes (res_ID r)) = Some ba"
    and db': "db' = db1\<lparr>db_attempts := ba\<rparr>"
    by (auto simp: reserve_new_def Let_def split: sum.splits option.splits if_splits)
  have att: "db_attempts db1 = db_attempts db0"
    using put by (auto simp: put_reservation_def split: option.splits)
  note rec = admitted_record [OF L q u0 T T2 adm r]
  from insert_refines [OF i0 put rec(3,2) new _ room] none0 ba att db' r
  obtain rs' where "implements B L db' (T, rs')" and m: "mset rs' = add_mset r (mset rs0)" by auto
  moreover have "book_step L (T, rs0) (T, rs')"
    by (rule reserve [OF m]) (simp_all add: r rec(1) [unfolded r])
  ultimately show ?thesis using s0 rec(1) r by auto
qed

lemma reserve_existing_refines:
  assumes i: "implements B L db (T, rs)" and L: "ledger_ok L" and q: "validateRequest L q = None" "request_ok q"
    and u: "usage_matches T rs u" and T: "0 < T"
    and e: "reserve_existing B L q T u db v = Inr (r, db')"
  shows "(db' = db \<and> r \<in> set rs \<and> is_open r \<or> db' = db \<and> r \<in> set rs \<and> is_committed r \<or>
      (\<exists>old rs'. implements B L db' (T, rs') \<and> book_step L (T, rs) (T, rs') \<and> replaces rs old r rs' \<and>
        res_State old = ReservationReleased \<and> res_State r = ReservationHeld \<and> admits L T rs r \<and>
        res_Request r = q)) \<and> sameReservationRequest (res_Request r) q"
proof -
  from e obtain old where old: "reservationByID B L db (bytes_word v) = Inr old"
    and att: "req_Attempt (res_Request old) = req_Attempt q" and same: "sameReservationRequest (res_Request old) q"
    by (auto simp: reserve_existing_def split: sum.splits if_splits)
  from old have oid: "res_ID old = bytes_word v" and valid: "validateReservation L old"
    by (auto simp: reservationByID_Inr)
  show ?thesis
  proof (cases "res_State old = ReservationReleased")
    case False
    with e old att same have "r = old" "db' = db"
      by (auto simp: reserve_existing_def split: if_splits)
    with False old same valid i reservationByID_member [OF old] show ?thesis
      using validateReservation_states [OF valid] by (auto simp: implements_def)
  next
    case True
    with e old att same obtain m where adm: "admit L u q = Inr m"
      and r: "r = old\<lparr>res_Request := q, res_State := ReservationHeld, res_TxHash := 0, res_Actual := 0,
         res_CreatedAt := T, res_ExposedAt := zeroTime, res_UpdatedAt := T\<rparr>"
      and put: "put_reservation B db r = Inr db'"
      by (auto simp: reserve_existing_def Let_def split: if_splits sum.splits)
    have T2: "time_ok T" "validPersistentTime T"
      using i lastSeen_Inr [of B db T] by (simp_all add: implements_def)
    from sameReservationRequest_fields [OF same] valid adm have m: "res_Maximum old = m"
      by (auto simp: validateReservation_def admit_def Let_def split: sum.splits if_splits)
    have r': "r = \<lparr>res_ID = NewReservationID (req_Attempt q), res_Request = q, res_Maximum = m,
      res_State = ReservationHeld, res_TxHash = 0, res_Actual = 0, res_CreatedAt = T,
      res_ExposedAt = zeroTime, res_UpdatedAt = T\<rparr>"
      using valid att m by (simp add: r validateReservation_def)
    note rec = admitted_record [OF L q u T T2 adm r']
    from put obtain w b' where w: "encodeReservation r = Some w"
      and b': "bput B (db_reservations db) (id_bytes (res_ID r)) w = Some b'" "db' = db\<lparr>db_reservations := b'\<rparr>"
      by (auto simp: put_reservation_def split: option.splits)
    from overwrite_refines [OF i old w rec(3) _ _ rec(2)] b' oid att
    obtain rs' where "implements B L db' (T, rs')" and rep: "replaces rs old r rs'"
      by (auto simp: r)
    moreover have "book_step L (T, rs) (T, rs')"
      by (rule renew [OF rep True]) (simp_all add: r rec(1) [unfolded r])
    ultimately show ?thesis using True rec(1) r by (auto simp: sameReservationRequest_def)
  qed
qed

end

end
