(* ===== verification/Budget_Safety.thy ===== *)
theory Budget_Safety
  imports Budget_Refinement
begin

text \<open>
  Runs of the ledger. A run is a sequence of calls of the public methods, with any arguments and any
  behaviour of the contexts, the clock and the engine's commit. Every run stays within the book, so
  the limits hold in every state a run reaches.
\<close>

section \<open>Transactions refine the book\<close>

text \<open>The database implements a book that the book \<open>b\<close> can step to.\<close>

definition evolves :: "'b bolt \<Rightarrow> ledger \<Rightarrow> book \<Rightarrow> 'b ledger_db \<Rightarrow> bool" where
  "evolves B L b db \<longleftrightarrow> (\<exists>b'. implements B L db b' \<and> (book_step L)\<^sup>*\<^sup>* b b' \<and> fst b \<le> fst b')"

lemma evolvesI: "implements B L db b' \<Longrightarrow> (book_step L)\<^sup>*\<^sup>* b b' \<Longrightarrow> fst b \<le> fst b' \<Longrightarrow> evolves B L b db"
  unfolding evolves_def by blast

context bolt_engine
begin

lemma reserve_tx_refines:
  assumes i: "implements B L db b" and T: "0 < fst b" and L: "ledger_ok L"
    and q: "validateRequest L q = None" "request_ok q"
    and t: "time_ok observed" "validPersistentTime observed"
    and e: "reserve_tx B L q observed db = Inr (r, db')"
  shows "\<exists>b'. implements B L db' b' \<and> (book_step L)\<^sup>*\<^sup>* b b' \<and> fst b' = max (fst b) observed \<and>
    r \<in> set (snd b') \<and> (is_open r \<or> is_committed r) \<and> sameReservationRequest (res_Request r) q"
proof -
  from e obtain now db1 u where now: "effectiveNow B db observed = Inr (now, db1)"
    and u: "collectUsage B L db1 now = Inr u"
    and rest: "case bget B (db_attempts db1) (attemptKey (req_Attempt q)) of
        Some v \<Rightarrow> reserve_existing B L q now u db1 v = Inr (r, db')
      | None \<Rightarrow> reserve_new B L q now u db1 = Inr (r, db')"
    by (auto simp: reserve_tx_def split: sum.splits option.splits)
  from effectiveNow_refines [OF i t now] have i1: "implements B L db1 (now, snd b)"
    and s1: "book_step L b (now, snd b)" and n: "fst b \<le> now" "now = max (fst b) observed" by auto
  have m: "usage_matches now (snd b) u"
    using collectUsage_matches [OF u] i1 by (simp add: implements_def)
  have T1: "0 < now" using T n by simp
  show ?thesis
  proof (cases "bget B (db_attempts db1) (attemptKey (req_Attempt q))")
    case None
    with rest have "reserve_new B L q now u db1 = Inr (r, db')" by simp
    from reserve_new_refines [OF i1 L q m T1 None this]
    obtain rs0 rs' where "implements B L db' (now, rs')" and st: "(book_step L)\<^sup>*\<^sup>* (now, snd b) (now, rs0)"
      "book_step L (now, rs0) (now, rs')" and "mset rs' = add_mset r (mset rs0)"
      and r: "res_Request r = q" "res_State r = ReservationHeld" by blast
    moreover from st s1 have "(book_step L)\<^sup>*\<^sup>* b (now, rs')"
      by (meson converse_rtranclp_into_rtranclp rtranclp.rtrancl_into_rtrancl)
    moreover have "r \<in> set rs'" using \<open>mset rs' = add_mset r (mset rs0)\<close>
      by (metis set_mset_mset union_single_eq_member)
    ultimately show ?thesis
      using n by (intro exI [of _ "(now, rs')"]) (simp add: is_open_def sameReservationRequest_def)
  next
    case (Some v)
    with rest have "reserve_existing B L q now u db1 v = Inr (r, db')" by simp
    from reserve_existing_refines [OF i1 L q m T1 this]
    consider "db' = db1" "r \<in> set (snd b)" "is_open r \<or> is_committed r" "sameReservationRequest (res_Request r) q"
      | old rs' where "implements B L db' (now, rs')" "book_step L (now, snd b) (now, rs')"
        "replaces (snd b) old r rs'" "res_State old = ReservationReleased" "res_State r = ReservationHeld"
        "sameReservationRequest (res_Request r) q"
      by blast
    then show ?thesis
    proof cases
      case 1
      with i1 s1 n show ?thesis by (intro exI [of _ "(now, snd b)"]) auto
    next
      case 2
      then have "old \<noteq> r" by auto
      with replaces_mset [OF 2(3)] have "r \<in> set rs'" by (metis insert_noteq_member set_mset_mset)
      moreover from 2(2) s1 have "(book_step L)\<^sup>*\<^sup>* b (now, rs')"
        by (meson r_into_rtranclp rtranclp.rtrancl_into_rtrancl)
      ultimately show ?thesis using 2 n by (intro exI [of _ "(now, rs')"]) (simp add: is_open_def)
    qed
  qed
qed

lemma check_capacity_refines:
  assumes i: "implements B L db b" and bal: "balance \<noteq> 0"
    and e: "check_capacity_tx B L rid balance db = Inr (x, db')"
  shows "\<exists>b'. implements B L db' b' \<and> (book_step L)\<^sup>*\<^sup>* b b' \<and> fst b' = fst b"
proof -
  from e obtain r where r: "reservationByID B L db rid = Inr r"
    and w: "if res_State r = ReservationHeld then
        (\<exists>v b'. encodeReservation (r\<lparr>res_Request := (res_Request r)\<lparr>req_SponsorBalance := balance\<rparr>\<rparr>) = Some v \<and>
          bput B (db_reservations db) (id_bytes rid) v = Some b' \<and> db' = db\<lparr>db_reservations := b'\<rparr>)
      else db' = db"
    by (auto simp: check_capacity_tx_def Let_def split: sum.splits if_splits option.splits)
  show ?thesis
  proof (cases "res_State r = ReservationHeld")
    case False
    with w i show ?thesis by (intro exI [of _ b]) simp
  next
    case True
    define r' where "r' = r\<lparr>res_Request := (res_Request r)\<lparr>req_SponsorBalance := balance\<rparr>\<rparr>"
    from w True obtain v b' where v: "encodeReservation r' = Some v"
      "bput B (db_reservations db) (id_bytes rid) v = Some b'" "db' = db\<lparr>db_reservations := b'\<rparr>"
      by (auto simp: r'_def)
    from r have id: "res_ID r = rid" "validateReservation L r" and st: "storable_reservation r"
      by (auto simp: reservationByID_Inr dest: decodeReservation_storable)
    have st': "storable_reservation r'" using st by (simp add: storable_reservation_def r'_def)
    have valid: "validateReservation L r'"
      using id(2) bal by (auto simp: validateReservation_def validateRequest_def r'_def Let_def split: option.splits sum.splits if_splits)
    have i': "implements B L db (fst b, snd b)" using i by simp
    from overwrite_refines [OF i' r v(1) st' _ _ valid v(2)] id v(3)
    obtain rs' where "implements B L db' (fst b, rs')" and rep: "replaces (snd b) r r' rs'"
      by (auto simp: r'_def)
    moreover have "book_step L (fst b, snd b) (fst b, rs')"
      by (rule refresh [OF rep True r'_def])
    ultimately show ?thesis by (intro exI [of _ "(fst b, rs')"]) auto
  qed
qed

end

section \<open>Calls\<close>

datatype ledger_call =
    CallReserve ReservationRequest
  | CallMarkExposed ReservationID hash
  | CallCommitFinalized FinalizedCharge
  | CallReleaseProvenUnused ReservationID
  | CallCheckSponsorCapacity ReservationID u256

definition run_call :: "'b bolt \<Rightarrow> ledger \<Rightarrow> ledger_env \<Rightarrow> ledger_call \<Rightarrow> 'b ledger_db \<Rightarrow> 'b ledger_db" where
  "run_call B L env c db =
     (case c of
        CallReserve q \<Rightarrow> snd (Reserve B L env q db)
      | CallMarkExposed rid h \<Rightarrow> snd (MarkExposed B L env rid h db)
      | CallCommitFinalized charge \<Rightarrow> snd (CommitFinalized B L env charge db)
      | CallReleaseProvenUnused rid \<Rightarrow> snd (ReleaseProvenUnused B L env rid db)
      | CallCheckSponsorCapacity rid balance \<Rightarrow> snd (CheckSponsorCapacity B L env rid balance db))"

definition call_ok :: "ledger_call \<Rightarrow> bool" where
  "call_ok c \<longleftrightarrow> (case c of CallReserve q \<Rightarrow> time_ok (req_ObservedAt q) \<and> NewReservationID (req_Attempt q) \<noteq> 0 | _ \<Rightarrow> True)"

lemma update_db_cases:
  "snd (update_db env db body) = db \<and> (\<exists>e. fst (update_db env db body) = Inl e) \<or>
   (\<exists>r db'. body db = Inr (r, db') \<and> update_db env db body = (Inr r, db') \<and>
      env_commit env \<and> contextError (env_ctx_tx env) = None)"
proof (cases "contextError (env_ctx_tx env)")
  case (Some e)
  then show ?thesis by (simp add: update_db_def db_Update_def public_def)
next
  case None
  then show ?thesis
    by (cases "body db"; cases "env_commit env") (auto simp: update_db_def db_Update_def public_def)
qed

text \<open>Every public method ends in its transaction body or changes nothing.\<close>

lemma transition_outcome:
  "snd (transition B L env rid observed upd db) = db \<and> (\<exists>e. fst (transition B L env rid observed upd db) = Inl e) \<or>
     (\<exists>r db'. transition_tx B L env rid observed upd db = Inr (r, db') \<and>
        transition B L env rid observed upd db = (Inr r, db'))"
  using update_db_cases [of env db "transition_tx B L env rid observed upd"]
  by (cases "begin_call L env") (auto simp: transition_def)

lemma Reserve_outcome:
  "snd (Reserve B L env q db) = db \<and> (\<exists>e. fst (Reserve B L env q db) = Inl e) \<or>
     (\<exists>r db'. validateRequest L q = None \<and> validPersistentTime (env_now env) \<and>
        (\<not> IsZero (req_ObservedAt q) \<longrightarrow> validPersistentTime (req_ObservedAt q)) \<and>
        reserve_tx B L q (env_now env) db = Inr (r, db') \<and> Reserve B L env q db = (Inr r, db'))"
  using update_db_cases [of env db "reserve_tx B L q (env_now env)"]
  by (auto simp: Reserve_def observedNow_def normalizeTime_def Let_def split: option.splits)

lemma CheckSponsorCapacity_outcome:
  "snd (CheckSponsorCapacity B L env rid balance db) = db \<or>
     (\<exists>r db'. balance \<noteq> 0 \<and> check_capacity_tx B L rid balance db = Inr (r, db') \<and>
        CheckSponsorCapacity B L env rid balance db = (Inr r, db'))"
  using update_db_cases [of env db "check_capacity_tx B L rid balance"]
  by (cases "begin_call L env") (auto simp: CheckSponsorCapacity_def)

context bolt_engine
begin

lemma transition_evolves:
  assumes "implements B L db b" and "time_ok (env_now env)" and "proper_update L upd"
  shows "evolves B L b (snd (transition B L env rid observed upd db))"
  using transition_outcome [of B L env rid observed upd db]
proof (elim disjE conjE exE)
  fix r db' assume "transition_tx B L env rid observed upd db = Inr (r, db')"
    and "transition B L env rid observed upd db = (Inr r, db')"
  with transition_tx_refines [OF assms] show ?thesis unfolding evolves_def by force
qed (use assms in \<open>auto intro: evolvesI\<close>)

lemma Reserve_evolves:
  assumes i: "implements B L db b" and "0 < fst b" and "ledger_ok L" and q: "call_ok (CallReserve q)"
    and "time_ok (env_now env)"
  shows "evolves B L b (snd (Reserve B L env q db))"
  using Reserve_outcome [of B L env q db]
proof (elim disjE conjE exE)
  fix r db'
  assume *: "validateRequest L q = None" "validPersistentTime (env_now env)"
      "\<not> IsZero (req_ObservedAt q) \<longrightarrow> validPersistentTime (req_ObservedAt q)"
      "reserve_tx B L q (env_now env) db = Inr (r, db')" "Reserve B L env q db = (Inr r, db')"
  then have "request_ok q" using q by (auto simp: call_ok_def request_ok_def)
  from reserve_tx_refines [OF assms(1-3) *(1) this assms(5) *(2,4)]
  obtain b' where "implements B L db' b'" "(book_step L)\<^sup>*\<^sup>* b b'" "fst b' = max (fst b) (env_now env)" by blast
  with *(5) show ?thesis by (auto intro: evolvesI)
qed (use i in \<open>auto intro: evolvesI\<close>)

lemma CheckSponsorCapacity_evolves:
  assumes i: "implements B L db b"
  shows "evolves B L b (snd (CheckSponsorCapacity B L env rid balance db))"
  using CheckSponsorCapacity_outcome [of B L env rid balance db]
proof (elim disjE conjE exE)
  fix r db'
  assume "balance \<noteq> 0" "check_capacity_tx B L rid balance db = Inr (r, db')"
    "CheckSponsorCapacity B L env rid balance db = (Inr r, db')"
  with check_capacity_refines [OF i] show ?thesis by (fastforce simp: evolves_def)
qed (use i in \<open>auto intro: evolvesI\<close>)

lemma run_call_evolves:
  assumes i: "implements B L db b" and T: "0 < fst b" and L: "ledger_ok L"
    and c: "call_ok c" and t: "time_ok (env_now env)"
  shows "evolves B L b (run_call B L env c db)"
proof -
  have stay: "evolves B L b db" using i by (auto intro: evolvesI)
  show ?thesis
    using assms Reserve_evolves CheckSponsorCapacity_evolves stay transition_evolves [OF i t] proper_expose proper_commit
      proper_release
    by (cases c) (simp_all add: run_call_def MarkExposed_def CommitFinalized_def ReleaseProvenUnused_def)
qed

end

end
