(* ===== verification/Budget_Runs.thy ===== *)
theory Budget_Runs
  imports Budget_Safety
begin

text \<open>
  What holds along runs of the ledger: the limits, the sliding windows, the finality of exposed and
  committed reservations, and the absence of corruption reports.
\<close>

section \<open>Runs\<close>

inductive ledger_step :: "'b bolt \<Rightarrow> ledger \<Rightarrow> 'b ledger_db \<Rightarrow> 'b ledger_db \<Rightarrow> bool" for B L where
  call: "call_ok c \<Longrightarrow> time_ok (env_now env) \<Longrightarrow> ledger_step B L db (run_call B L env c db)"

text \<open>The database that \<^verbatim>\<open>initialize\<close> creates in an empty file.\<close>

definition fresh_ledger :: "'b bolt \<Rightarrow> ledger \<Rightarrow> 'b ledger_db \<Rightarrow> bool" where
  "fresh_ledger B L db \<longleftrightarrow>
     (\<exists>fingerprint raw. initialize_fresh B L fingerprint empty_raw = Inr (True, raw) \<and> raw_view raw = Some db)"

definition ledger_inv :: "'b bolt \<Rightarrow> ledger \<Rightarrow> 'b ledger_db \<Rightarrow> bool" where
  "ledger_inv B L db \<longleftrightarrow> (\<exists>b. implements B L db b \<and> book_inv L b)"

lemma ledger_invE:
  assumes "ledger_inv B L db"
  obtains T where "implements B L db (T, reservations_of B db)" "book_inv L (T, reservations_of B db)"
  using assms by (auto simp: ledger_inv_def implements_def)

lemma book_inv_empty: "time_ok T \<Longrightarrow> 0 < T \<Longrightarrow> book_inv L (T, [])"
  by (simp add: book_inv_def within_limits_def scope_within_def every_window_def window_within_def window_def
      split_def)

lemma last_seen_key_distinct: "ledgerMaxRecordsKey \<noteq> ledgerLastSeenKey"
  by code_simp

lemma first_instant: "timeUnix 1 0 = second" "time_ok second" "validPersistentTime second"
  by code_simp+

context bolt_engine
begin

lemma fresh_ledger_inv:
  assumes "fresh_ledger B L db"
  shows "ledger_inv B L db"
proof -
  from assms obtain m4 m5 where
    m4: "\<exists>m. bput B m ledgerLastSeenKey (appendTime [] (timeUnix 1 0)) = Some m4"
    and m5: "bput B m4 ledgerMaxRecordsKey (encodeUint32 (led_maxRecords L)) = Some m5"
    and db: "db = \<lparr>db_meta = m5, db_reservations = bempty B, db_attempts = bempty B\<rparr>"
    by (auto simp: fresh_ledger_def initialize_fresh_def empty_raw_def raw_view_def put_binding_def
        split: sum.splits option.splits)
  from m4 obtain m where m4: "bput B m ledgerLastSeenKey (appendTime [] (timeUnix 1 0)) = Some m4" ..
  have "lastSeen B db = Inr second"
    using last_seen_key_distinct decodeStoredTime_append [of second] first_instant
    by (simp add: lastSeen_def db get_put [OF m5] get_put [OF m4] bytes_or_nil_def)
  moreover have "ledger_wf B L db" and "reservations_of B db = []"
    by (simp_all add: ledger_wf_def db entries_empty reservations_of_def)
  ultimately show ?thesis
    using first_instant by (auto simp: ledger_inv_def implements_def intro!: book_inv_empty)
qed

lemma evolves_inv:
  assumes "evolves B L b db" and "book_inv L b" and "ledger_ok L"
  shows "ledger_inv B L db"
  using assms book_steps_inv [of L b] ledger_ok_distinct unfolding evolves_def ledger_inv_def by blast

lemma ledger_step_evolves:
  assumes "ledger_step B L db db'" and "implements B L db b" and "book_inv L b" and "ledger_ok L"
  shows "evolves B L b db'"
proof -
  have "0 < fst b" using assms(3) by (simp add: book_inv_def split: prod.splits)
  with assms show ?thesis by (auto elim!: ledger_step.cases intro: run_call_evolves)
qed

text \<open>A whole run is a run of the book.\<close>

lemma run_evolves:
  assumes "(ledger_step B L)\<^sup>*\<^sup>* db db'" and "implements B L db b" and "book_inv L b" and "ledger_ok L"
  shows "evolves B L b db'"
  using assms(1)
proof (induction rule: rtranclp_induct)
  case base
  then show ?case using assms(2) by (auto intro: evolvesI)
next
  case (step y z)
  from step.IH obtain c where c: "implements B L y c" "(book_step L)\<^sup>*\<^sup>* b c" "fst b \<le> fst c"
    unfolding evolves_def by blast
  have "book_inv L c" using book_steps_inv [OF c(2) assms(3)] assms(4) by (simp add: ledger_ok_distinct)
  from ledger_step_evolves [OF step.hyps(2) c(1) this assms(4)]
  obtain d where "implements B L z d" "(book_step L)\<^sup>*\<^sup>* c d" "fst c \<le> fst d" unfolding evolves_def by blast
  with c show ?case by (meson evolvesI order_trans rtranclp_trans)
qed

lemma run_inv:
  assumes "(ledger_step B L)\<^sup>*\<^sup>* db db'" and "ledger_inv B L db" and "ledger_ok L"
  shows "ledger_inv B L db'"
  using assms run_evolves evolves_inv unfolding ledger_inv_def by blast

end

section \<open>Finality\<close>

text \<open>
  What a reservation can become. Exposed reservations keep their transaction and their maximum and
  can only be committed; committed ones never change.
\<close>

definition follows :: "Reservation \<Rightarrow> Reservation \<Rightarrow> bool" where
  "follows r r' \<longleftrightarrow>
     (if res_State r = ReservationCommitted then r' = r
      else if res_State r = ReservationExposed then
        res_ID r' = res_ID r \<and> res_Request r' = res_Request r \<and> res_Maximum r' = res_Maximum r \<and>
        res_TxHash r' = res_TxHash r \<and> res_CreatedAt r' = res_CreatedAt r \<and> res_ExposedAt r' = res_ExposedAt r \<and>
        (res_State r' = ReservationExposed \<or> res_State r' = ReservationCommitted)
      else True)"

lemma follows_trans:
  assumes "follows r s" and "follows s t" and "res_State r = ReservationExposed \<or> res_State r = ReservationCommitted"
  shows "follows r t"
  using assms by (auto simp: follows_def split: if_splits)

lemma replaces_keeps:
  assumes "replaces rs a a' rs'" and "r \<in> set rs"
  shows "r \<in> set rs' \<or> r = a \<and> a' \<in> set rs'"
proof -
  have m: "add_mset a (mset rs') = add_mset a' (mset rs)" by (rule replaces_mset [OF assms(1)])
  then have "insert a (set rs') = insert a' (set rs)"
    by (metis set_mset_add_mset_insert set_mset_mset)
  then show ?thesis using assms(2) m by (cases "a = a'") (auto dest: mset_eq_setD)
qed

lemma book_step_follows:
  assumes "book_step L b b'" and "r \<in> set (snd b)"
    and r: "res_State r = ReservationExposed \<or> res_State r = ReservationCommitted"
  shows "\<exists>r' \<in> set (snd b'). follows r r'"
  using assms(1,2)
proof cases
  case (reserve rs' x rs T)
  then have "set rs' = insert x (set rs)" by (metis set_mset_add_mset_insert set_mset_mset)
  with reserve assms(2) show ?thesis by (auto simp: follows_def)
next
  case (purge rs x rs' T)
  then have "set rs = insert x (set rs')" by (metis set_mset_add_mset_insert set_mset_mset)
  with purge assms(2) r show ?thesis by (auto simp: follows_def)
next
  case (finalize rs x x' rs' T a)
  from replaces_keeps [OF finalize(3)] assms(2) finalize have "r \<in> set rs' \<or> r = x \<and> x' \<in> set rs'" by simp
  then show ?thesis
  proof
    assume "r = x \<and> x' \<in> set rs'"
    with finalize show ?thesis by (intro bexI [of _ x']) (auto simp: follows_def)
  qed (use finalize in \<open>auto simp: follows_def\<close>)
qed (use assms(2) r in \<open>auto simp: follows_def dest!: replaces_keeps\<close>)

lemma book_steps_follow:
  assumes "(book_step L)\<^sup>*\<^sup>* b b'" and "r \<in> set (snd b)"
    and r: "res_State r = ReservationExposed \<or> res_State r = ReservationCommitted"
  shows "\<exists>r' \<in> set (snd b'). follows r r'"
  using assms(1)
proof (induction rule: rtranclp_induct)
  case base
  then show ?case using assms(2) by (auto simp: follows_def)
next
  case (step c d)
  then obtain s where s: "s \<in> set (snd c)" "follows r s" by blast
  with r have "res_State s = ReservationExposed \<or> res_State s = ReservationCommitted"
    by (auto simp: follows_def split: if_splits)
  from book_step_follows [OF step.hyps(2) s(1) this] s(2) r follows_trans show ?case by blast
qed

section \<open>Liveness\<close>

text \<open>A call that meets no fault: live contexts, an open ledger and a commit that succeeds.\<close>

definition env_live :: "ledger \<Rightarrow> ledger_env \<Rightarrow> bool" where
  "env_live L env \<longleftrightarrow> env_ctx_begin env = CtxLive \<and> env_ctx_tx env = CtxLive \<and> env_commit env \<and>
     \<not> led_closed L \<and> time_ok (env_now env)"

lemma env_live_begin: "env_live L env \<Longrightarrow> begin_call L env = None"
  by (simp add: env_live_def begin_call_def contextError_def)

lemma update_db_live: "env_live L env \<Longrightarrow> body db = Inr (r, db') \<Longrightarrow> update_db env db body = (Inr r, db')"
  by (simp add: env_live_def update_db_def db_Update_def public_def contextError_def)

lemma update_db_live_error: "env_live L env \<Longrightarrow> body db = Inl e \<Longrightarrow> update_db env db body = (Inl (publicError e), db)"
  by (simp add: env_live_def update_db_def db_Update_def public_def contextError_def)

lemma encodeReservation_length: "encodeReservation r = Some bs \<Longrightarrow> length bs = 378"
  by (simp add: encodeReservation_layout time_field.enc_length)

lemma encodeReservation_valid: "validateReservation L r \<Longrightarrow> \<exists>bs. encodeReservation r = Some bs"
  by (simp add: validateReservation_def encodeReservation_def Let_def)

context bolt_engine
begin

lemma stored_reservation:
  assumes "implements B L db (T, rs)" and "r \<in> set rs"
  shows "reservationByID B L db (res_ID r) = Inr r"
proof -
  from assms obtain k v where kv: "bget B (db_reservations db) k = Some v" "r = decoded (k, v)"
    by (auto simp: implements_def reservations_of_def entry_get)
  have wf: "ledger_wf B L db" using assms by (simp add: implements_def)
  from wf_entry [OF wf kv(1)] obtain q where "decodeReservation v = Some q" "k = id_bytes (res_ID q)"
    "validateReservation L q" by metis
  with kv show ?thesis by (simp add: reservationByID_Inr decoded_def)
qed

lemma stored_attempt:
  assumes "implements B L db (T, rs)" and "r \<in> set rs"
  shows "bget B (db_attempts db) (attemptKey (req_Attempt (res_Request r))) = Some (id_bytes (res_ID r))"
proof -
  from stored_reservation [OF assms] obtain v where
    v: "bget B (db_reservations db) (id_bytes (res_ID r)) = Some v" "decodeReservation v = Some r"
    by (auto simp: reservationByID_Inr)
  have wf: "ledger_wf B L db" using assms by (simp add: implements_def)
  from wf_entry [OF wf v(1)] v(2) show ?thesis by auto
qed

end

context bolt_engine_live
begin

lemma usage_available:
  assumes "implements B L db (T, rs)" and "book_inv L (T, rs)" and "sums_fit rs" and "T \<le> now" and "time_ok now"
    and "implements B L db' (now, rs)"
  shows "\<exists>u. collectUsage B L db' now = Inr u"
  using assms within_limits_later [of L T rs now]
  by (intro collectUsage_ok) (auto simp: implements_def book_inv_def)

lemma put_id_ok: "length v = 378 \<Longrightarrow> \<exists>b'. bput B b (id_bytes x) v = Some b'"
  using put_ok [of "id_bytes x" v b] by auto

lemma transition_live:
  assumes i: "implements B L db (T, rs)" and inv: "book_inv L (T, rs)" and fit: "sums_fit rs"
    and r: "r \<in> set rs" and live: "env_live L env"
    and now: "transition_now B env observed db = Inr (now, db1)"
    and upd: "upd r now = Inr r'" and valid: "validateReservation L r'"
  shows "\<exists>db'. transition B L env (res_ID r) observed upd db = (Inr r', db')"
proof -
  have t: "time_ok (env_now env)" using live by (simp add: env_live_def)
  from transition_now_refines [OF i t now] have i1: "implements B L db1 (now, rs)" and le: "T \<le> now" by auto
  have ok: "time_ok now" using i1 lastSeen_Inr [of B db1 now] by (simp add: implements_def)
  from usage_available [OF i inv fit le ok i1] obtain u where u: "collectUsage B L db1 now = Inr u" ..
  from encodeReservation_valid [OF valid] obtain v where v: "encodeReservation r' = Some v" ..
  from put_id_ok [OF encodeReservation_length [OF v], of "db_reservations db1" "res_ID r"]
  obtain b' where "bput B (db_reservations db1) (id_bytes (res_ID r)) v = Some b'" ..
  with now u v upd valid stored_reservation [OF i1 r]
  have "\<exists>db'. transition_tx B L env (res_ID r) observed upd db = Inr (r', db')"
    by (simp add: transition_tx_def)
  with live show ?thesis
    by (auto simp: transition_def env_live_begin intro: update_db_live)
qed

lemma reserve_new_live:
  assumes i: "implements B L db (T, rs)" and T: "0 < T" and L: "ledger_ok L"
    and q: "validateRequest L q = None" "request_ok q" and u: "usage_matches T rs u"
    and room: "int (length (bentries B (db_reservations db))) < uint (led_maxRecords L)"
    and new: "bget B (db_reservations db) (id_bytes (NewReservationID (req_Attempt q))) = None"
    and adm: "admit L u q = Inr m"
    and r: "r = \<lparr>res_ID = NewReservationID (req_Attempt q), res_Request = q, res_Maximum = m,
      res_State = ReservationHeld, res_TxHash = 0, res_Actual = 0, res_CreatedAt = T,
      res_ExposedAt = zeroTime, res_UpdatedAt = T\<rparr>"
  shows "\<exists>db'. reserve_new B L q T u db = Inr (r, db')"
proof -
  have T2: "time_ok T" "validPersistentTime T"
    using i lastSeen_Inr [of B db T] by (simp_all add: implements_def)
  from encodeReservation_valid [OF admitted_record(2) [OF L q u T T2 adm r]]
  obtain v where v: "encodeReservation r = Some v" ..
  from put_id_ok [OF encodeReservation_length [OF v], of "db_reservations db" "res_ID r"]
  obtain b' where b': "bput B (db_reservations db) (id_bytes (res_ID r)) v = Some b'" ..
  have "length (attemptKey (req_Attempt q)) = 36"
    by (simp add: attemptKey_def appendUint32_def)
  then obtain ba where "bput B (db_attempts db) (attemptKey (req_Attempt q)) (id_bytes (res_ID r)) = Some ba"
    using put_ok [of "attemptKey (req_Attempt q)" "id_bytes (res_ID r)" "db_attempts db"] by fastforce
  with v b' new adm room r show ?thesis
    by (simp add: reserve_new_def put_reservation_def Let_def)
qed

lemma effectiveNow_live:
  assumes "implements B L db (T, rs)"
  shows "\<exists>db1. effectiveNow B db observed = Inr (max T observed, db1) \<and>
    db_reservations db1 = db_reservations db \<and> db_attempts db1 = db_attempts db"
proof -
  have "length (appendTime [] observed) = 12" by (simp add: appendTime_def time_field.enc_length)
  moreover have "ledgerLastSeenKey \<noteq> []" "length ledgerLastSeenKey \<le> 32768"
    by (simp_all add: ledgerLastSeenKey_def ascii_def)
  ultimately obtain m where "bput B (db_meta db) ledgerLastSeenKey (appendTime [] observed) = Some m"
    using put_ok [of ledgerLastSeenKey "appendTime [] observed" "db_meta db"] by auto
  with assms show ?thesis
    by (auto simp: effectiveNow_def implements_def After_def max_def)
qed

end

end
