(* ===== verification/Budget_Example.thy ===== *)
theory Budget_Example
  imports Budget_Runs
begin

text \<open>
  A concrete ledger on which the hypotheses of the properties are evaluated: a policy with one
  network, the reference engine and the database of a new file. The identifier of the example's
  attempt is computed with the model of SHA-256.
\<close>

definition example_limits :: Limits where
  "example_limits = \<lparr>PerTransaction = 1000000, PerHour = 2000000, PerDay = 3000000, Cumulative = 4000000\<rparr>"

definition example_network :: NetworkPolicy where
  "example_network = \<lparr>np_Network = 1, np_Sponsor = 7, np_Limits = example_limits,
     np_TransactionOverhead = 500, np_EmergencySponsorReserve = 1000, np_AllowFeeOverrun = False\<rparr>"

definition example_policy :: Policy where
  "example_policy = \<lparr>pol_Global = example_limits, pol_Networks = [example_network]\<rparr>"

definition example_ledger :: ledger where
  "example_ledger = \<lparr>led_policy = example_policy, led_networks = [(1, example_network)],
     led_maxRecords = 100, led_closed = False\<rparr>"

definition example_meta :: ordered_bucket where
  "example_meta = foldl (\<lambda>m (k, v). ob_put m k v) ob_empty
     [(ledgerSchemaKey, encodeUint32 ledgerSchemaVersion),
      (ledgerPolicyKey, encodePolicy example_policy),
      (ledgerFingerprintKey, id_bytes 5),
      (ledgerLastSeenKey, appendTime [] (timeUnix 1 0)),
      (ledgerMaxRecordsKey, encodeUint32 100)]"

definition example_db :: "ordered_bucket ledger_db" where
  "example_db = \<lparr>db_meta = example_meta, db_reservations = ob_empty, db_attempts = ob_empty\<rparr>"

definition example_now :: time where "example_now = 1700000000 * second"

definition example_env :: ledger_env where
  "example_env = \<lparr>env_ctx_begin = CtxLive, env_ctx_tx = CtxLive, env_now = example_now, env_commit = True\<rparr>"

definition example_attempt :: Attempt where
  "example_attempt = \<lparr>att_Incident = 11, att_Number = 1\<rparr>"

definition example_request :: ReservationRequest where
  "example_request = \<lparr>req_Network = 1, req_Sponsor = 7, req_Candidate = 9, req_Attempt = example_attempt,
     req_Quote = \<lparr>GasLimit = 21000, MaxFeePerGas = 10, MaximumCost = 0\<rparr>, req_SponsorBalance = 1000000,
     req_ObservedAt = example_now\<rparr>"

lemmas example_defs = example_limits_def example_network_def example_policy_def example_ledger_def
  example_db_def example_now_def example_env_def example_attempt_def example_request_def

lemma example_fresh: "fresh_ledger list_bolt example_ledger example_db"
  by (auto simp: fresh_ledger_def initialize_fresh_def put_binding_def empty_raw_def raw_view_def list_bolt_def
      example_db_def example_meta_def example_ledger_def intro!: exI [of _ 5])

lemma example_policy_valid:
  "validateAndNormalizePolicy example_policy = Inr (led_policy example_ledger, led_networks example_ledger)"
  by code_simp

definition example_id :: ReservationID where
  "example_id = 0x165283c5895244c0524e31faa5771ede5b14ac9003457f388fa4538d40334901"

lemma example_reservation_id: "NewReservationID example_attempt = example_id"
  by code_simp

lemma example_ledger_ok: "ledger_ok example_ledger"
  by (rule validated_ledger_ok [OF example_policy_valid])

lemma example_inv: "ledger_inv list_bolt example_ledger example_db"
  by (rule reference_engine.fresh_ledger_inv [OF example_fresh])

lemma example_request_valid: "validateRequest example_ledger example_request = None"
  by code_simp

lemma example_now_ok: "time_ok example_now" "validPersistentTime example_now"
  by code_simp+

lemma example_request_ok: "request_ok example_request" "call_ok (CallReserve example_request)"
proof -
  have "example_id \<noteq> 0" by code_simp
  then show "request_ok example_request" "call_ok (CallReserve example_request)"
    using example_reservation_id example_now_ok by (simp_all add: request_ok_def call_ok_def example_request_def)
qed

lemma example_last_seen: "lastSeen list_bolt example_db = Inr second"
  by code_simp

lemma example_skew: "withinObservedSkew (req_ObservedAt example_request) example_now"
  by code_simp

lemma example_room: "0 < uint (led_maxRecords example_ledger)"
  by code_simp

lemma example_empty: "reservations_of list_bolt example_db = []"
  by code_simp

lemma example_env_live: "env_live example_ledger example_env"
  by code_simp

section \<open>A ledger with an exposed reservation\<close>

definition example_exposed :: Reservation where
  "example_exposed = \<lparr>res_ID = example_id, res_Request = example_request, res_Maximum = 210500,
     res_State = ReservationExposed, res_TxHash = 77, res_Actual = 0, res_CreatedAt = example_now,
     res_ExposedAt = example_now, res_UpdatedAt = example_now\<rparr>"

definition example_exposed_db :: "ordered_bucket ledger_db" where
  "example_exposed_db =
     \<lparr>db_meta = ob_put example_meta ledgerLastSeenKey (appendTime [] example_now),
      db_reservations = ob_put ob_empty (id_bytes example_id)
        (case encodeReservation example_exposed of None \<Rightarrow> [] | Some bs \<Rightarrow> bs),
      db_attempts = ob_put ob_empty (attemptKey example_attempt) (id_bytes example_id)\<rparr>"

lemma example_maximum:
  "Maximum (req_Quote example_request)
     (np_TransactionOverhead (network_policy example_ledger (req_Network example_request))) = Inr 210500"
  by code_simp

lemma example_exposed_valid: "validateReservation example_ledger example_exposed"
proof -
  have "example_id \<noteq> 0" "\<not> PerTransaction example_limits < 210500" by code_simp+
  moreover have "np_Limits (network_policy example_ledger (req_Network example_request)) = example_limits"
    by code_simp
  ultimately show ?thesis
    using example_reservation_id example_request_valid example_now_ok example_maximum
    by (simp add: validateReservation_def example_exposed_def Before_def Let_def example_ledger_def example_policy_def)
      (simp add: example_request_def)
qed

lemma example_exposed_encoded: "\<exists>bs. encodeReservation example_exposed = Some bs"
  using encodeReservation_valid [OF example_exposed_valid] .

lemma example_exposed_storable: "storable_reservation example_exposed"
  by code_simp

lemma example_exposed_implements:
  "implements list_bolt example_ledger example_exposed_db (example_now, [example_exposed])"
proof -
  from example_exposed_encoded obtain bs where bs: "encodeReservation example_exposed = Some bs" ..
  have dec: "decodeReservation bs = Some example_exposed"
    by (rule decode_encode_reservation [OF bs example_exposed_storable])
  have att: "req_Attempt (res_Request example_exposed) = example_attempt" "res_ID example_exposed = example_id"
    by (simp_all add: example_exposed_def example_request_def)
  have "validAttempt example_attempt" "lastSeen list_bolt example_exposed_db = Inr example_now"
    "1 \<le> uint (led_maxRecords example_ledger)"
    by code_simp+
  then show ?thesis
    using example_exposed_valid
    by (simp add: implements_def ledger_wf_def entry_ok_def attempt_ok_def reservations_of_def decoded_def
        list_bolt_def example_exposed_db_def bs dec att)
      (rule exI [of _ example_exposed], simp add: att)
qed

lemma example_exposed_book: "book_inv example_ledger (example_now, [example_exposed])"
proof -
  have "within_limits example_ledger example_now [example_exposed]" "0 < example_now"
    by code_simp+
  moreover have "window P lo hi [example_exposed] = 0" for P lo hi
    by (simp add: window_def window1_def spent1_def is_committed_def example_exposed_def)
  ultimately show ?thesis
    using example_now_ok by (simp add: book_inv_def every_window_def window_within_def split_def example_exposed_def)
qed

lemma example_exposed_inv: "ledger_inv list_bolt example_ledger example_exposed_db"
  unfolding ledger_inv_def using example_exposed_implements example_exposed_book by blast

lemma example_exposed_reservations: "reservations_of list_bolt example_exposed_db = [example_exposed]"
  using example_exposed_implements by (simp add: implements_def)

end
