(* ===== verification/Budget_Properties.thy ===== *)
theory Budget_Properties
  imports Budget_Example
begin

text \<open>
  The properties of the budget ledger. Each theorem speaks of any engine that satisfies the laws of
  \<open>bolt_engine\<close>; its instance uses the ledger of \<open>Budget_Example\<close>.
\<close>

section \<open>Limits\<close>

text \<open>
  C1: in every state that a run of the ledger reaches from a new database, with any sequence of calls,
  arguments, clock readings, cancellations and failed commits, the stored records are well formed and
  in the global scope and in each network the finalised spend of the last hour, of the last day and of
  all time plus everything still held is within the limits; and the finalised spend of \<^emph>\<open>every\<close>
  window of one hour or 24 hours is within the limits. A scope in which a permitted fee overrun was
  recorded is the only exception.
\<close>

theorem ledger_limits_hold:
  assumes "bolt_engine B"
    and "validateAndNormalizePolicy policy = Inr (led_policy L, led_networks L)"
    and "fresh_ledger B L db0" and "(ledger_step B L)\<^sup>*\<^sup>* db0 db"
  shows "\<exists>T. lastSeen B db = Inr T \<and> ledger_wf B L db \<and> within_limits L T (reservations_of B db) \<and>
    every_window L (reservations_of B db)"
proof -
  have "ledger_inv B L db"
    using assms bolt_engine.run_inv bolt_engine.fresh_ledger_inv validated_ledger_ok by blast
  then show ?thesis by (auto simp: ledger_inv_def implements_def book_inv_def)
qed

theorem ledger_limits_hold_witness:
  "\<exists>T. lastSeen list_bolt (run_call list_bolt example_ledger example_env (CallReserve example_request) example_db) = Inr T \<and>
    ledger_wf list_bolt example_ledger
      (run_call list_bolt example_ledger example_env (CallReserve example_request) example_db) \<and>
    within_limits example_ledger T (reservations_of list_bolt
      (run_call list_bolt example_ledger example_env (CallReserve example_request) example_db)) \<and>
    every_window example_ledger (reservations_of list_bolt
      (run_call list_bolt example_ledger example_env (CallReserve example_request) example_db))"
proof (rule ledger_limits_hold [OF reference_engine.bolt_engine_axioms example_policy_valid example_fresh])
  have "time_ok (env_now example_env)" using example_env_live by (simp add: env_live_def)
  from call [OF example_request_ok(2) this, of list_bolt example_ledger example_db]
  show "(ledger_step list_bolt example_ledger)\<^sup>*\<^sup>* example_db
      (run_call list_bolt example_ledger example_env (CallReserve example_request) example_db)"
    by (rule r_into_rtranclp)
qed

section \<open>Refinement\<close>

text \<open>
  C2: every public method that changes the ledger implements the book. From a database that
  implements a book, the database after the call, whatever the call returned, implements a book that
  the first one reaches by steps of the book, and the clock of the book has not gone back.
\<close>

theorem ledger_refines_book:
  assumes "bolt_engine B" and "ledger_ok L" and "implements B L db b" and "0 < fst b"
    and "call_ok c" and "time_ok (env_now env)"
  shows "\<exists>b'. implements B L (run_call B L env c db) b' \<and> (book_step L)\<^sup>*\<^sup>* b b' \<and> fst b \<le> fst b'"
  using bolt_engine.run_call_evolves [OF assms(1,3,4,2,5,6)] by (simp add: evolves_def)

theorem ledger_refines_book_witness:
  "\<exists>b'. implements list_bolt example_ledger
      (run_call list_bolt example_ledger example_env (CallReserve example_request) example_db) b' \<and>
    (book_step example_ledger)\<^sup>*\<^sup>* (second, []) b' \<and> fst (second, [] :: Reservation list) \<le> fst b'"
proof (rule ledger_refines_book)
  show "implements list_bolt example_ledger example_db (second, [])"
    using example_inv example_last_seen example_empty by (auto simp: ledger_inv_def implements_def)
qed (use example_ledger_ok example_request_ok example_env_live in
  \<open>simp_all add: env_live_def reference_engine.bolt_engine_axioms\<close>)

section \<open>Admission\<close>






section \<open>Finality\<close>

text \<open>
  C4: exposure is irrevocable. Along any run, a reservation once exposed stays recorded with its
  transaction hash, its request and its maximum, either exposed or committed; a committed reservation
  never changes again. Neither is ever released, renewed or purged.
\<close>

theorem exposed_reservation_is_final:
  assumes "bolt_engine B" and "ledger_ok L" and "ledger_inv B L db" and "(ledger_step B L)\<^sup>*\<^sup>* db db'"
    and "r \<in> set (reservations_of B db)"
    and "res_State r = ReservationExposed \<or> res_State r = ReservationCommitted"
  shows "\<exists>r' \<in> set (reservations_of B db'). follows r r'"
proof -
  from assms(3) obtain T where i: "implements B L db (T, reservations_of B db)"
    and inv: "book_inv L (T, reservations_of B db)" by (rule ledger_invE)
  from bolt_engine.run_evolves [OF assms(1,4) i inv assms(2)]
  obtain b' where "implements B L db' b'" "(book_step L)\<^sup>*\<^sup>* (T, reservations_of B db) b'"
    unfolding evolves_def by blast
  with book_steps_follow [of L _ b' r] assms(5,6) show ?thesis by (auto simp: implements_def)
qed

theorem exposed_reservation_is_final_witness:
  "\<exists>r' \<in> set (reservations_of list_bolt
      (run_call list_bolt example_ledger example_env (CallReleaseProvenUnused example_id) example_exposed_db)).
    follows example_exposed r'"
proof (rule exposed_reservation_is_final [OF reference_engine.bolt_engine_axioms example_ledger_ok example_exposed_inv])
  have "call_ok (CallReleaseProvenUnused example_id)" "time_ok (env_now example_env)"
    using example_env_live by (simp_all add: call_ok_def env_live_def)
  from call [OF this, of list_bolt example_ledger example_exposed_db]
  show "(ledger_step list_bolt example_ledger)\<^sup>*\<^sup>* example_exposed_db
      (run_call list_bolt example_ledger example_env (CallReleaseProvenUnused example_id) example_exposed_db)"
    by (rule r_into_rtranclp)
qed (simp_all add: example_exposed_reservations, simp add: example_exposed_def)

text \<open>
  C5: \<^verbatim>\<open>ReleaseProvenUnused\<close> of an exposed or committed reservation is refused: the call returns an
  error, never a released record, and the database is unchanged.
\<close>

theorem exposed_release_refused:
  assumes "bolt_engine B" and "implements B L db b" and "r \<in> set (snd b)"
    and "res_State r = ReservationExposed \<or> res_State r = ReservationCommitted"
  shows "\<exists>e. ReleaseProvenUnused B L env (res_ID r) db = (Inl e, db)"
proof -
  have st: "reservationByID B L db (res_ID r) = Inr r"
    using bolt_engine.stored_reservation [OF assms(1), of L db "fst b" "snd b" r] assms(2,3) by simp
  have "\<exists>e. transition_tx B L env (res_ID r) zeroTime release db = Inl e"
    using assms(4) st
    by (auto simp: transition_tx_def transition_now_def release_def IsZero_def split: sum.splits)
  then have "snd (transition B L env (res_ID r) zeroTime release db) = db \<and>
      (\<exists>e. fst (transition B L env (res_ID r) zeroTime release db) = Inl e)"
    using transition_outcome [of B L env "res_ID r" zeroTime release db] by auto
  then have "\<exists>e. transition B L env (res_ID r) zeroTime release db = (Inl e, db)"
    by (metis prod.collapse)
  then show ?thesis by (simp add: ReleaseProvenUnused_def)
qed

theorem exposed_release_refused_witness:
  "\<exists>e. ReleaseProvenUnused list_bolt example_ledger example_env (res_ID example_exposed) example_exposed_db =
     (Inl e, example_exposed_db)"
  by (rule exposed_release_refused [OF reference_engine.bolt_engine_axioms example_exposed_implements])
    (simp_all add: example_exposed_def)

section \<open>Errors\<close>



section \<open>Retries\<close>

text \<open>A request that \<^verbatim>\<open>Reserve\<close> accepts for processing at the reading of the clock.\<close>

definition timely_request :: "ledger \<Rightarrow> ledger_env \<Rightarrow> ReservationRequest \<Rightarrow> bool" where
  "timely_request L env q \<longleftrightarrow>
     validateRequest L q = None \<and> validPersistentTime (env_now env) \<and>
     (IsZero (req_ObservedAt q) \<or>
      validPersistentTime (req_ObservedAt q) \<and> withinObservedSkew (req_ObservedAt q) (env_now env))"

lemma Reserve_retry:
  assumes B: "bolt_engine_live B" and i: "implements B L db (T, rs)" and inv: "book_inv L (T, rs)"
    and fit: "sums_fit rs" and r: "r \<in> set rs" "is_open r \<or> is_committed r"
    and same: "sameReservationRequest (res_Request r) q" and live: "env_live L env" and q: "timely_request L env q"
  shows "\<exists>db'. Reserve B L env q db = (Inr r, db') \<and> db_reservations db' = db_reservations db \<and>
    db_attempts db' = db_attempts db"
proof -
  have E: "bolt_engine B" using B by (simp add: bolt_engine_live_def)
  from live have t: "time_ok (env_now env)" by (simp add: env_live_def)
  from q have v: "validPersistentTime (env_now env)" by (simp add: timely_request_def)
  from bolt_engine_live.effectiveNow_live [OF B i, of "env_now env"]
  obtain db1 where now: "effectiveNow B db (env_now env) = Inr (max T (env_now env), db1)"
    and db1: "db_reservations db1 = db_reservations db" "db_attempts db1 = db_attempts db" by blast
  from bolt_engine.effectiveNow_refines [OF E i t v now] have i1: "implements B L db1 (max T (env_now env), rs)" by simp
  have "time_ok (max T (env_now env))" using t inv by (simp add: max_def book_inv_def)
  from bolt_engine_live.usage_available [OF B i inv fit _ this i1]
  obtain u where u: "collectUsage B L db1 (max T (env_now env)) = Inr u" by auto
  have att: "req_Attempt (res_Request r) = req_Attempt q" by (rule sameReservationRequest_fields(3) [OF same])
  have "res_State r \<noteq> ReservationReleased" using r(2) by (auto simp: is_open_def is_committed_def)
  then have "reserve_existing B L q (max T (env_now env)) u db1 (id_bytes (res_ID r)) = Inr (r, db1)"
    using bolt_engine.stored_reservation [OF E i1 r(1)] same att
    by (simp add: reserve_existing_def bytes_word_word_bytes)
  then have "reserve_tx B L q (env_now env) db = Inr (r, db1)"
    using now u bolt_engine.stored_attempt [OF E i1 r(1)] att by (simp add: reserve_tx_def)
  with update_db_live [OF live, of "reserve_tx B L q (env_now env)" db r db1] q live db1 show ?thesis
    by (auto simp: Reserve_def timely_request_def observedNow_def normalizeTime_def env_live_begin)
qed

text \<open>
  C7: \<^verbatim>\<open>Reserve\<close> is idempotent. When it has returned a reservation, repeating the request (the
  balance and the observation time may differ) at any time and with no fault returns the same
  reservation and leaves the stored reservations as they are, so a retry never takes budget twice.
\<close>

theorem Reserve_idempotent:
  assumes "bolt_engine_live B" and "ledger_ok L" and "ledger_inv B L db" and "call_ok (CallReserve q)"
    and "time_ok (env_now env)" and "Reserve B L env q db = (Inr r, db1)"
    and "sums_fit (reservations_of B db1)" and "env_live L env'" and "timely_request L env' q'"
    and "sameReservationRequest q q'"
  shows "\<exists>db2. Reserve B L env' q' db1 = (Inr r, db2) \<and> db_reservations db2 = db_reservations db1 \<and>
    db_attempts db2 = db_attempts db1"
proof -
  have E: "bolt_engine B" using assms(1) by (simp add: bolt_engine_live_def)
  from assms(3) obtain T where i: "implements B L db (T, reservations_of B db)"
    and inv: "book_inv L (T, reservations_of B db)" by (rule ledger_invE)
  have T: "0 < fst (T, reservations_of B db)" using inv by (simp add: book_inv_def)
  from Reserve_outcome [of B L env q db] assms(4,6)
  have q: "validateRequest L q = None" "request_ok q" "validPersistentTime (env_now env)"
    and tx: "reserve_tx B L q (env_now env) db = Inr (r, db1)"
    by (auto simp: call_ok_def request_ok_def)
  from bolt_engine.reserve_tx_refines [OF E i T assms(2) q(1,2) assms(5) q(3) tx]
  obtain b where i1: "implements B L db1 b" and st: "(book_step L)\<^sup>*\<^sup>* (T, reservations_of B db) b"
    and r: "r \<in> set (snd b)" "is_open r \<or> is_committed r" and same: "sameReservationRequest (res_Request r) q" by blast
  obtain T1 where b: "b = (T1, reservations_of B db1)" using i1 by (cases b) (simp add: implements_def)
  have inv1: "book_inv L b" by (rule book_steps_inv [OF st inv ledger_ok_distinct [OF assms(2)]])
  have r1: "r \<in> set (reservations_of B db1)" using r(1) b by simp
  have same1: "sameReservationRequest (res_Request r) q'"
    using same assms(10) by (simp add: sameReservationRequest_def)
  show ?thesis
    by (rule Reserve_retry [OF assms(1) i1 [unfolded b] inv1 [unfolded b] assms(7) r1 r(2) same1 assms(8,9)])
qed

lemma example_exposed_fits: "sums_fit [example_exposed]"
  by code_simp

lemma example_timely: "timely_request example_ledger example_env example_request"
  using example_request_valid example_now_ok example_skew
  by (simp add: timely_request_def example_env_def) (simp add: example_request_def)

theorem Reserve_idempotent_witness:
  "\<exists>db1. Reserve list_bolt example_ledger example_env example_request example_exposed_db = (Inr example_exposed, db1) \<and>
    (\<exists>db2. Reserve list_bolt example_ledger example_env example_request db1 = (Inr example_exposed, db2) \<and>
      db_reservations db2 = db_reservations db1 \<and> db_attempts db2 = db_attempts db1)"
proof -
  have same: "sameReservationRequest example_request example_request"
    "res_Request example_exposed = example_request" "is_open example_exposed"
    by (simp_all add: sameReservationRequest_def example_exposed_def is_open_def)
  from Reserve_retry [OF reference_engine.bolt_engine_live_axioms example_exposed_implements example_exposed_book
      example_exposed_fits _ _ _ example_env_live example_timely, of example_exposed] same
  obtain db1 where R: "Reserve list_bolt example_ledger example_env example_request example_exposed_db =
      (Inr example_exposed, db1)" and db1: "db_reservations db1 = db_reservations example_exposed_db" by auto
  have "sums_fit (reservations_of list_bolt db1)"
    using example_exposed_fits example_exposed_reservations db1 by (simp add: reservations_of_def)
  from Reserve_idempotent [OF reference_engine.bolt_engine_live_axioms example_ledger_ok example_exposed_inv
      example_request_ok(2) _ R this example_env_live example_timely same(1)] example_env_live R
  show ?thesis by (simp add: env_live_def)
qed

section \<open>Transitions\<close>




section \<open>Queries\<close>








section \<open>Arithmetic and encodings\<close>

text \<open>
  C10: the maximum cost of a quote is computed without wrap-around: \<^verbatim>\<open>Maximum\<close> returns the exact
  integer \<open>gas limit * fee per gas + overhead\<close>, or the caller's larger explicit maximum, and reports
  an error exactly when an input is zero, the exact value does not fit in 256 bits, or the explicit
  maximum is below it.
\<close>

theorem Maximum_exact:
  "Maximum q overhead = Inr m \<longleftrightarrow>
     (let cost = uint (GasLimit q) * uint (MaxFeePerGas q) + uint overhead in
      GasLimit q \<noteq> 0 \<and> MaxFeePerGas q \<noteq> 0 \<and> cost < 2 ^ 256 \<and>
      (if MaximumCost q = 0 then uint m = cost else cost \<le> uint (MaximumCost q) \<and> m = MaximumCost q))"
proof (cases "GasLimit q = 0 \<or> MaxFeePerGas q = 0")
  case True
  then show ?thesis by (auto simp: Maximum_def)
next
  case False
  let ?p = "uint (GasLimit q) * uint (MaxFeePerGas q)" and ?w = "ucast (GasLimit q) * MaxFeePerGas q :: u256"
  have g: "uint (ucast (GasLimit q) :: u256) = uint (GasLimit q)"
    by (simp add: unsigned_ucast_eq take_bit_int_eq_self [OF _ less_trans [OF uint_lt2p]])
  have pos: "0 < ?p" using False by (simp add: uint_0_iff less_le)
  show ?thesis
  proof (cases "?p + uint overhead < 2 ^ 256")
    case True
    then have "?p < 2 ^ 256" using uint_ge_0 [of overhead] by linarith
    then have w: "uint ?w = ?p" using g uint_mult_lem [of "ucast (GasLimit q) :: u256" "MaxFeePerGas q"] by simp
    then have s: "uint (?w + overhead) = ?p + uint overhead" using True uint_add_lem [of ?w overhead] by simp
    moreover have "?w + overhead \<noteq> 0"
    proof
      assume "?w + overhead = 0"
      then have "uint (?w + overhead) = 0" by simp
      with s pos uint_ge_0 [of overhead] show False by linarith
    qed
    ultimately show ?thesis
      using False True w \<open>?p < 2 ^ 256\<close>
      by (auto simp: Maximum_def MulOverflow_def AddOverflow_def Let_def g word_less_def word_uint_eq_iff not_less)
  next
    case over: False
    have "uint ?w = ?p" if "?p < 2 ^ 256"
      using that g uint_mult_lem [of "ucast (GasLimit q) :: u256" "MaxFeePerGas q"] by simp
    then show ?thesis
      using False over by (auto simp: Maximum_def MulOverflow_def AddOverflow_def Let_def g)
  qed
qed

text \<open>
  C11: the persistent encoding of a reservation is faithful: for every reservation with a positive
  network, representable times and set creation and update times, the encoder succeeds, its output is
  378 bytes, and the decoder returns exactly the reservation.
\<close>

theorem reservation_roundtrip:
  assumes "storable_reservation r" and "validPersistentTime (res_CreatedAt r)" and "validPersistentTime (res_UpdatedAt r)"
  shows "\<exists>bs. encodeReservation r = Some bs \<and> length bs = 378 \<and> decodeReservation bs = Some r"
proof -
  from assms(2,3) obtain bs where bs: "encodeReservation r = Some bs"
    by (auto simp: encodeReservation_def Let_def)
  with decode_encode_reservation [OF bs assms(1)] encodeReservation_length [OF bs] show ?thesis by blast
qed

theorem reservation_roundtrip_witness:
  "\<exists>bs. encodeReservation example_exposed = Some bs \<and> length bs = 378 \<and> decodeReservation bs = Some example_exposed"
  by (rule reservation_roundtrip [OF example_exposed_storable]) (simp_all add: example_exposed_def example_now_ok)

end
