(* ===== verification/Domain_Properties.thy ===== *)
theory Domain_Properties
  imports Domain_Model Budget_Codec
begin

text \<open>
  Properties of the identifiers of candidates, incidents, claims and reservations. The digests are
  SHA-256 of byte strings; what is proved here is that the byte strings themselves never clash.
\<close>

text \<open>
  C12: the hashed byte strings identify what they stand for. Each kind determines its identity fields
  (a candidate's network, kind, source, token address, block, transaction, log index and observation;
  an incident's candidate; an asset incident's candidate, kind and asset; every field of a claim plan;
  a reservation's incident and attempt number), and strings of different kinds are never equal, so two
  identifiers can coincide only by a collision of the hash.
\<close>

theorem identity_preimages_separated:
  "(candidate_preimage c = candidate_preimage d \<longleftrightarrow> identity_fields c = identity_fields d) \<and>
   (incident_preimage i = incident_preimage j \<longleftrightarrow> i = j) \<and>
   (asset_incident_preimage i k a = asset_incident_preimage j l b \<longleftrightarrow> i = j \<and> k = l \<and> a = b) \<and>
   (claim_preimage p = claim_preimage q \<longleftrightarrow> p = q) \<and>
   (reservation_preimage r = reservation_preimage s \<longleftrightarrow> r = s) \<and>
   distinct [candidate_preimage c, incident_preimage i, asset_incident_preimage j k a, claim_preimage p,
     reservation_preimage r]"
proof -
  have "distinct [candidate_preimage c, incident_preimage i, asset_incident_preimage j k a, claim_preimage p,
     reservation_preimage r]"
    by (simp add: candidate_preimage_def incident_preimage_def asset_incident_preimage_def claim_preimage_def
        reservation_preimage_def ascii_def)
  then show ?thesis
    using candidate_preimage_inject incident_preimage_inject asset_incident_preimage_inject claim_preimage_inject
      reservation_preimage_inject by blast
qed

text \<open>
  C13: the constructors produce exactly the candidates that \<^verbatim>\<open>ValidateCandidate\<close> accepts for
  meaningful arguments: a positive network and a non-zero source, a non-zero token address where the
  kind has one, and for a fast token the block and the transaction; a claim also needs a digest that
  is not the zero hash.
\<close>

theorem constructors_validate:
  "(ValidateCandidate (NewLogCandidate n s t bh th bn li) \<longleftrightarrow> 0 < sint n \<and> s \<noteq> 0 \<and> tok_Address t \<noteq> 0) \<and>
   (ValidateCandidate (NewFastTokenCandidate n s t bh th bn li dry) \<longleftrightarrow>
      0 < sint n \<and> s \<noteq> 0 \<and> tok_Address t \<noteq> 0 \<and> bh \<noteq> 0 \<and> th \<noteq> 0) \<and>
   (ValidateCandidate (NewBlockCandidate n CandidateNative s bh bn) \<longleftrightarrow> 0 < sint n \<and> s \<noteq> 0) \<and>
   (ValidateCandidate (NewPeriodicCandidate n s g ob) \<longleftrightarrow> 0 < sint n \<and> s \<noteq> 0) \<and>
   (ValidateCandidate (NewTokenReconciliationCandidate n s t g ob) \<longleftrightarrow> 0 < sint n \<and> s \<noteq> 0 \<and> tok_Address t \<noteq> 0) \<and>
   (ValidateCandidate (NewClaimCandidate n s plan) \<longleftrightarrow>
      0 < sint n \<and> s \<noteq> 0 \<and> plan_Token plan \<noteq> 0 \<and> Digest plan \<noteq> 0)"
  by (simp add: ValidateCandidate_def candidate_constructors not_le candidateID_def candidate_preimage_def)


end
