(* ===== verification/Store_Model.thy ===== *)
theory Store_Model
  imports Domain_Model Wire_Fields
begin

text \<open>
  Data model of the durable store (\<^verbatim>\<open>internal/store/model.go\<close>) and the frame of its calls
  (\<^verbatim>\<open>internal/store/bolt_store.go\<close>): the errors, the buckets of the database, what a call
  observes of its environment, and how a transaction's outcome becomes the result of the method.

  \<open>BoltStore\<close> holds what \<^verbatim>\<open>Open\<close> fixes; what a method can change is the \<open>store_state\<close>: the
  database, the closed flag, the wake counter and the loss signals of the leases.
\<close>

section \<open>Errors\<close>

datatype store_error =
    errInvalidOptions
  | errOpenFailed
  | errBinding
  | errCorrupt
  | errClosed
  | errInvalidInput
  | errConflict
  | errJournalFull
  | ErrObservationSaturated
  | ErrLeaseHeld
  | ErrLeaseLost
  | ctxErr ctx_state
  | engineErr

section \<open>Records\<close>

type_synonym CandidateStatus = byte

abbreviation CandidateObserved :: CandidateStatus where "CandidateObserved \<equiv> 1"
abbreviation CandidateStaged :: CandidateStatus where "CandidateStaged \<equiv> 2"
abbreviation CandidateReady :: CandidateStatus where "CandidateReady \<equiv> 3"
abbreviation CandidateDelayed :: CandidateStatus where "CandidateDelayed \<equiv> 4"
abbreviation CandidateAcknowledged :: CandidateStatus where "CandidateAcknowledged \<equiv> 5"
abbreviation CandidateRemoved :: CandidateStatus where "CandidateRemoved \<equiv> 6"

datatype PutResult = PutInserted | PutAlreadyPending | PutAlreadyAcknowledged

record Incident =
  inc_ID :: IncidentID
  inc_Candidate :: CandidateID
  inc_Network :: NetworkID
  inc_CreatedAt :: time

type_synonym RescueStatus = byte

abbreviation RescuePending :: RescueStatus where "RescuePending \<equiv> 1"
abbreviation RescuePrepared :: RescueStatus where "RescuePrepared \<equiv> 2"
abbreviation RescueSigned :: RescueStatus where "RescueSigned \<equiv> 3"
abbreviation RescueBroadcast :: RescueStatus where "RescueBroadcast \<equiv> 4"
abbreviation RescueRetryable :: RescueStatus where "RescueRetryable \<equiv> 5"
abbreviation RescueAmbiguous :: RescueStatus where "RescueAmbiguous \<equiv> 6"
abbreviation RescueExhausted :: RescueStatus where "RescueExhausted \<equiv> 7"
abbreviation RescueFailed :: RescueStatus where "RescueFailed \<equiv> 8"
abbreviation RescueTrustedSuccess :: RescueStatus where "RescueTrustedSuccess \<equiv> 9"
abbreviation RescueTokenReported :: RescueStatus where "RescueTokenReported \<equiv> 10"
abbreviation RescueLostRace :: RescueStatus where "RescueLostRace \<equiv> 11"

text \<open>A \<^verbatim>\<open>time.Duration\<close> field is the \<^verbatim>\<open>int64\<close> it is stored as.\<close>

record RescuePolicySnapshot =
  rp_LatestState :: bool
  rp_MaxAttempts :: u32
  rp_RetryDelay :: u64
  rp_FinalityTimeout :: u64

record RescueIncident =
  ri_ID :: IncidentID
  ri_Parent :: IncidentID
  ri_Candidate :: CandidateID
  ri_Network :: NetworkID
  ri_Kind :: CandidateKind
  ri_Asset :: address
  ri_Generation :: u64
  ri_Trusted :: bool
  ri_Policy :: RescuePolicySnapshot
  ri_Status :: RescueStatus
  ri_Attempts :: u32
  ri_SponsorNonce :: u64
  ri_SourceNonce :: u64
  ri_TxHash :: hash
  ri_SignedTransaction :: bytes
  ri_SnapshotBlockNumber :: u64
  ri_SnapshotBlockHash :: hash
  ri_SourceBefore :: u256
  ri_DestinationBefore :: u256
  ri_RetryAt :: time
  ri_ReconcileUntil :: time
  ri_LastCode :: bytes
  ri_CreatedAt :: time
  ri_UpdatedAt :: time

record Checkpoint =
  cp_Network :: NetworkID
  cp_BlockNumber :: u64
  cp_BlockHash :: hash

record CanonicalBlock =
  cb_Checkpoint :: Checkpoint
  cb_ParentHash :: hash
  cb_Candidates :: "RescueCandidate list"

record LeaseKey =
  lk_Network :: NetworkID
  lk_Sponsor :: address

record Lease =
  lease_Key :: LeaseKey
  lease_Owner :: bytes
  lease_ExpiresAt :: time

section \<open>The store\<close>

record BoltStore =
  bs_network :: NetworkID
  bs_source :: address
  bs_sponsor :: address
  bs_destination :: address
  bs_rescuer :: address
  bs_maxPending :: u32
  bs_journalCapacity :: u32
  bs_maxDiscoveredTokens :: u32
  bs_policyFingerprint :: hash

record leaseIdentity =
  lid_key :: LeaseKey
  lid_owner :: bytes
  lid_expiresUnix :: int
  lid_expiresNano :: int

text \<open>
  The loss signals: \<open>leaseLoss\<close> maps the identity of a lease to its channel, a channel is a
  number, and \<open>closedChannels\<close> are the ones that have been closed.
\<close>

record lease_signals =
  leaseLoss :: "(leaseIdentity \<times> nat) list"
  closedChannels :: "nat list"
  nextChannel :: nat

record 'b store_db =
  metaBucket :: 'b
  candidatesBucket :: 'b
  pendingBucket :: 'b
  readyOrderBucket :: 'b
  blockIndexBucket :: 'b
  incidentsBucket :: 'b
  blocksBucket :: 'b
  discoveredBucket :: 'b
  tombstonesBucket :: 'b
  rescueStateBucket :: 'b
  leasesBucket :: 'b

text \<open>\<^verbatim>\<open>notify\<close> closes the wake channel and makes a new one: \<open>st_wakes\<close> counts the wake-ups.\<close>

record 'b store_state =
  st_db :: "'b store_db"
  st_closed :: bool
  st_wakes :: nat
  st_signals :: lease_signals

text \<open>
  What one call observes: the context at its \<open>n\<close>-th check (\<open>0\<close> when the call begins, \<open>1\<close> inside
  the transaction, larger ones inside loops), the clock, and whether the engine commits.
\<close>

record store_env =
  se_ctx :: "nat \<Rightarrow> ctx_state"
  se_now :: time
  se_commit :: bool

text \<open>
  A bucket also carries a counter (\<^verbatim>\<open>Sequence\<close>, \<^verbatim>\<open>NextSequence\<close>). Its documented behaviour:
  it starts at zero, \<^verbatim>\<open>NextSequence\<close> increments and returns it, and writes of keys do not
  change it.
\<close>

record 'b seq_bolt =
  bkv :: "'b bolt"
  bseq :: "'b \<Rightarrow> u64"
  bnext :: "'b \<Rightarrow> (u64 \<times> 'b) option"

locale seq_engine = bolt_engine "bkv Q" for Q :: "'b seq_bolt" +
  assumes seq_empty: "bseq Q (bempty (bkv Q)) = 0"
    and seq_put: "bput (bkv Q) b k v = Some b' \<Longrightarrow> bseq Q b' = bseq Q b"
    and seq_del: "bdel (bkv Q) b k = Some b' \<Longrightarrow> bseq Q b' = bseq Q b"
    and next_seq: "bnext Q b = Some (n, b') \<Longrightarrow> n = bseq Q b + 1 \<and> bseq Q b' = n"
    and next_entries: "bnext Q b = Some (n, b') \<Longrightarrow> bentries (bkv Q) b' = bentries (bkv Q) b"

text \<open>The reference engine with a counter beside each bucket.\<close>

definition counted_bolt :: "(ordered_bucket \<times> u64) seq_bolt" where
  "counted_bolt = \<lparr>bkv = \<lparr>bempty = (ob_empty, 0),
       bget = (\<lambda>b k. map_of (bucket_list (fst b)) k),
       bput = (\<lambda>b k v. Some (ob_put (fst b) k v, snd b)),
       bdel = (\<lambda>b k. Some (ob_del (fst b) k, snd b)),
       bentries = (\<lambda>b. bucket_list (fst b))\<rparr>,
     bseq = snd,
     bnext = (\<lambda>b. Some (snd b + 1, (fst b, snd b + 1)))\<rparr>"

interpretation counted_engine: bolt_engine_live "bkv counted_bolt"
  by unfold_locales (auto simp: counted_bolt_def)

interpretation counted_engine_seq: seq_engine counted_bolt
  by unfold_locales (auto simp: counted_bolt_def)

section \<open>Calls\<close>

definition store_contextError :: "ctx_state \<Rightarrow> store_error option" where
  "store_contextError ctx =
     (case ctx of
        CtxNil \<Rightarrow> Some errInvalidInput
      | CtxLive \<Rightarrow> None
      | CtxCanceled \<Rightarrow> Some (ctxErr CtxCanceled)
      | CtxDeadlineExceeded \<Rightarrow> Some (ctxErr CtxDeadlineExceeded))"

definition store_begin :: "store_env \<Rightarrow> 'b store_state \<Rightarrow> store_error option" where
  "store_begin env st =
     (case store_contextError (se_ctx env 0) of
        Some e \<Rightarrow> Some e
      | None \<Rightarrow> if st_closed st then Some errClosed else None)"

definition store_publicError :: "store_error \<Rightarrow> store_error" where
  "store_publicError e =
     (case e of
        ctxErr c \<Rightarrow> ctxErr c
      | errClosed \<Rightarrow> errClosed
      | errInvalidInput \<Rightarrow> errInvalidInput
      | errConflict \<Rightarrow> errConflict
      | ErrObservationSaturated \<Rightarrow> ErrObservationSaturated
      | ErrLeaseHeld \<Rightarrow> ErrLeaseHeld
      | ErrLeaseLost \<Rightarrow> ErrLeaseLost
      | _ \<Rightarrow> errCorrupt)"

definition notify :: "'b store_state \<Rightarrow> 'b store_state" where
  "notify st = st\<lparr>st_wakes := Suc (st_wakes st)\<rparr>"

text \<open>
  The two shapes of a transaction: the callback first checks the context, then runs; a write
  transaction keeps the callback's state if it returns no error and the engine commits.
\<close>

definition store_update ::
  "store_env \<Rightarrow> ('b store_db \<Rightarrow> store_error + 'r \<times> 'b store_db) \<Rightarrow> 'b store_db \<Rightarrow>
     (store_error + 'r) \<times> 'b store_db" where
  "store_update env body db =
     db_Update (se_commit env) engineErr db
       (\<lambda>db. case store_contextError (se_ctx env 1) of Some e \<Rightarrow> Inl e | None \<Rightarrow> body db)"

definition store_view ::
  "store_env \<Rightarrow> ('b store_db \<Rightarrow> store_error + 'r) \<Rightarrow> 'b store_db \<Rightarrow> store_error + 'r" where
  "store_view env body db =
     (case store_contextError (se_ctx env 1) of Some e \<Rightarrow> Inl e | None \<Rightarrow> body db)"

definition public_result :: "store_error + 'r \<Rightarrow> store_error + 'r" where
  "public_result r = map_sum store_publicError id r"

section \<open>Keys and scalars\<close>

definition encodeUint64 :: "u64 \<Rightarrow> bytes" where
  "encodeUint64 v = word_bytes 8 v"

definition decodeUint64 :: "bytes \<Rightarrow> u64 option" where
  "decodeUint64 v = (if length v \<noteq> 8 then None else Some (bytes_word v))"

definition blockNumberKey :: "u64 \<Rightarrow> bytes" where
  "blockNumberKey number = encodeUint64 number"

definition nonceFloorKey :: bytes where "nonceFloorKey = ascii ''nonce-floor''"

abbreviation maxConfiguredBound :: u32 where "maxConfiguredBound \<equiv> 1000000"
abbreviation minJournalCapacity :: u64 where "minJournalCapacity \<equiv> 100000"
abbreviation journalCapacityFactor :: u64 where "journalCapacityFactor \<equiv> 128"
abbreviation maxJournalCapacity :: u64 where "maxJournalCapacity \<equiv> 100000000"

definition deriveJournalCapacity :: "u32 \<Rightarrow> u32" where
  "deriveJournalCapacity maxPending =
     (let capacity = ucast maxPending * journalCapacityFactor;
          capacity = (if capacity < minJournalCapacity then minJournalCapacity else capacity);
          minimum = ucast maxPending + 1;
          capacity = (if capacity < minimum then minimum else capacity);
          capacity = (if capacity > maxJournalCapacity then maxJournalCapacity else capacity)
      in ucast capacity)"

text \<open>\<^verbatim>\<open>Get\<close> returns \<^verbatim>\<open>nil\<close> for a missing key; as a byte slice that is the empty one.\<close>

definition slice_of :: "bytes option \<Rightarrow> bytes" where
  "slice_of v = (case v of None \<Rightarrow> [] | Some bs \<Rightarrow> bs)"

section \<open>Time\<close>

definition normalizeStoreTime :: "time \<Rightarrow> time" where
  "normalizeStoreTime t = (if IsZero t then zeroTime else t)"

definition validRescueTime :: "time \<Rightarrow> bool" where
  "validRescueTime t \<longleftrightarrow> \<not> IsZero t \<and> 0 < Unix t \<and> 0 \<le> Nanosecond t \<and> Nanosecond t < second"

definition store_validPersistentTime :: "time \<Rightarrow> bool" where
  "store_validPersistentTime t \<longleftrightarrow> \<not> IsZero t \<and> (Unix t \<noteq> 0 \<or> Nanosecond t \<noteq> 0)"

section \<open>Lemmas\<close>

lemma normalizeStoreTime_id [simp]: "normalizeStoreTime t = t"
  by (simp add: normalizeStoreTime_def IsZero_def)

lemma store_contextError_live [simp]: "store_contextError c = None \<longleftrightarrow> c = CtxLive"
  by (cases c) (simp_all add: store_contextError_def)

lemma store_contextError_CtxLive [simp]: "store_contextError CtxLive = None"
  by simp

lemma decode_encodeUint64 [simp]: "decodeUint64 (encodeUint64 v) = Some v"
  by (simp add: decodeUint64_def encodeUint64_def bytes_word_word_bytes)

lemma encodeUint64_inject [simp]: "encodeUint64 v = encodeUint64 w \<longleftrightarrow> v = w"
  by (metis decode_encodeUint64 option.inject)

lemma decodeUint64_Some: "decodeUint64 bs = Some v \<longleftrightarrow> bs = encodeUint64 v"
  by (auto simp: decodeUint64_def encodeUint64_def word_bytes_bytes_word bytes_word_word_bytes
      split: if_splits)

lemma validRescueTime_storable: "time_ok t \<Longrightarrow> validRescueTime t \<Longrightarrow> storable_time t"
  by (auto simp: storable_time_def validRescueTime_def time_defs)

lemma persistentTime_storable: "time_ok t \<Longrightarrow> store_validPersistentTime t \<Longrightarrow> storable_time t"
  by (auto simp: storable_time_def store_validPersistentTime_def time_defs)

lemma storable_persistent: "storable_time t \<Longrightarrow> \<not> IsZero t \<Longrightarrow> store_validPersistentTime t"
  using timeUnix_Unix [of t]
  by (auto simp: storable_time_def store_validPersistentTime_def timeUnix_def unixToInternal_def)

text \<open>How a write transaction can end.\<close>

lemma store_update_cases:
  obtains (rollback) e where "store_update env body db = (Inl e, db)"
  | (commit) r db' where "se_commit env" "se_ctx env 1 = CtxLive" "body db = Inr (r, db')"
      "store_update env body db = (Inr r, db')"
proof (cases "store_update env body db")
  case (Pair out db')
  show ?thesis
  proof (cases out)
    case (Inl e)
    with Pair have "db' = db"
      unfolding store_update_def by (auto dest: db_Update_error_unchanged)
    with Pair Inl show ?thesis by (simp add: rollback)
  next
    case (Inr r)
    with Pair have "se_commit env"
      and "(case store_contextError (se_ctx env 1) of Some e \<Rightarrow> Inl e | None \<Rightarrow> body db) = Inr (r, db')"
      by (simp_all add: store_update_def db_Update_ok)
    with Pair Inr show ?thesis
      using commit by (auto split: option.splits)
  qed
qed

lemma store_update_live:
  assumes "se_commit env" and "se_ctx env 1 = CtxLive"
  shows "store_update env body db = (case body db of Inl e \<Rightarrow> (Inl e, db) | Inr (r, db') \<Rightarrow> (Inr r, db'))"
  using assms by (auto simp: store_update_def db_Update_def store_contextError_def split: sum.splits)

lemma public_result_Inr [simp]: "public_result r = Inr x \<longleftrightarrow> r = Inr x"
  by (cases r) (simp_all add: public_result_def)

lemma public_result_simps [simp]:
  "public_result (Inl e) = Inl (store_publicError e)" "public_result (Inr x) = Inr x"
  by (simp_all add: public_result_def)

text \<open>The derived capacity never wraps and always exceeds the number of ready candidates.\<close>

lemma deriveJournalCapacity_uint:
  "uint (deriveJournalCapacity m) = min 100000000 (max 100000 (uint m * 128))"
proof -
  define c :: u64 where "c = (if ucast m * 128 < (100000 :: u64) then 100000 else ucast m * 128)"
  have m: "uint (ucast m :: u64) = uint m" "uint m < 2 ^ 32" "0 \<le> uint m"
    using uint_bounded [of m] by (simp_all add: unsigned_ucast_eq take_bit_int_eq_self)
  then have "uint (ucast m * 128 :: u64) = uint m * 128"
    by (simp add: uint_word_ariths)
  then have c: "uint c = max 100000 (uint m * 128)"
    by (auto simp: c_def word_less_def)
  have "uint (ucast m + 1 :: u64) = uint m + 1"
    using m by (simp add: uint_word_ariths)
  then have "\<not> c < ucast m + 1"
    using c m by (simp add: word_less_def)
  then have "deriveJournalCapacity m = ucast (if c > 100000000 then 100000000 else c)"
    by (simp add: deriveJournalCapacity_def Let_def c_def)
  moreover have "uint (if c > 100000000 then 100000000 else c) = min 100000000 (max 100000 (uint m * 128))"
    using c by (auto simp: word_less_def)
  ultimately show ?thesis
    using m(3) by (simp add: unsigned_ucast_eq take_bit_int_eq_self)
qed

end
