(* ===== verification/Store_Codec.thy ===== *)
theory Store_Codec
  imports Store_Model
begin

text \<open>
  The records of the candidate queue and of the canonical chain
  (\<^verbatim>\<open>internal/store/codec.go\<close>): candidates with their status, incidents, canonical blocks with
  their members, checkpoints. Every decoder inverts its encoder, and every encoder accepts what a
  decoder returns, so rewriting a stored record never loses it.
\<close>

section \<open>Validation\<close>

record candidateRecord =
  cr_Status :: CandidateStatus
  cr_RetryAt :: time
  cr_Candidate :: RescueCandidate

record blockRecord =
  br_Checkpoint :: Checkpoint
  br_ParentHash :: hash
  br_Members :: "CandidateID list"

abbreviation recordVersion :: byte where "recordVersion \<equiv> 1"
abbreviation maxSymbolBytes :: int where "maxSymbolBytes \<equiv> 64"

definition validateCandidate :: "RescueCandidate \<Rightarrow> bool" where
  "validateCandidate candidate \<longleftrightarrow>
     \<not> maxSymbolBytes < int (length (tok_Symbol (cand_Token candidate))) \<and> ValidateCandidate candidate"

definition validateCandidateRecord :: "candidateRecord \<Rightarrow> bool" where
  "validateCandidateRecord r \<longleftrightarrow>
     validateCandidate (cr_Candidate r) \<and>
     (if cr_Status r \<in> {CandidateObserved, CandidateStaged, CandidateReady, CandidateAcknowledged,
          CandidateRemoved} then IsZero (cr_RetryAt r)
      else if cr_Status r = CandidateDelayed then \<not> IsZero (cr_RetryAt r)
      else False)"

definition sameCandidateIdentity :: "RescueCandidate \<Rightarrow> RescueCandidate \<Rightarrow> bool" where
  "sameCandidateIdentity left right \<longleftrightarrow>
     left\<lparr>cand_Token := (cand_Token left)\<lparr>tok_Symbol := [], tok_Decimals := 0\<rparr>, cand_Generation := 0\<rparr> =
     right\<lparr>cand_Token := (cand_Token right)\<lparr>tok_Symbol := [], tok_Decimals := 0\<rparr>, cand_Generation := 0\<rparr>"

definition updateCandidateMetadata :: "RescueCandidate \<Rightarrow> RescueCandidate \<Rightarrow> RescueCandidate" where
  "updateCandidateMetadata persisted canonical =
     persisted\<lparr>cand_Token := (cand_Token persisted)\<lparr>tok_Symbol := tok_Symbol (cand_Token canonical),
         tok_Decimals := tok_Decimals (cand_Token canonical)\<rparr>,
       cand_Generation := cand_Generation canonical\<rparr>"

text \<open>Consecutive members strictly increase.\<close>

fun increasing :: "CandidateID list \<Rightarrow> bool" where
  "increasing (m # n # ms) \<longleftrightarrow> m < n \<and> increasing (n # ms)"
| "increasing _ \<longleftrightarrow> True"

definition validateBlockRecord :: "blockRecord \<Rightarrow> u32 \<Rightarrow> bool" where
  "validateBlockRecord r maxMembers \<longleftrightarrow>
     \<not> (sint (cp_Network (br_Checkpoint r)) \<le> 0 \<or> cp_BlockHash (br_Checkpoint r) = 0 \<or>
        uint maxMembers < int (length (br_Members r))) \<and>
     (cp_BlockNumber (br_Checkpoint r) = 0) = (br_ParentHash r = 0) \<and>
     increasing (br_Members r)"

fun has_repeat :: "CandidateID list \<Rightarrow> bool" where
  "has_repeat (m # n # ms) \<longleftrightarrow> m = n \<or> has_repeat (n # ms)"
| "has_repeat _ \<longleftrightarrow> False"

definition sortedMemberIDs :: "RescueCandidate list \<Rightarrow> CandidateID list option" where
  "sortedMemberIDs candidates =
     (let members = sort (map cand_ID candidates)
      in if has_repeat members then None else Some members)"

section \<open>Encoders and decoders\<close>

definition encodeCandidateRecord :: "candidateRecord \<Rightarrow> bytes option" where
  "encodeCandidateRecord r =
     (if \<not> validateCandidateRecord r then None
      else if \<not> IsZero (cr_RetryAt r) \<and> \<not> store_validPersistentTime (cr_RetryAt r) then None
      else
        let candidate = cr_Candidate r;
            symbol = tok_Symbol (cand_Token candidate);
            result = [recordVersion, cr_Status r];
            result = appendTime result (cr_RetryAt r);
            result = result @ id_bytes (cand_ID candidate);
            result = appendUint64 result (cand_Network candidate);
            result = result @ [cand_Kind candidate];
            result = result @ word_bytes 20 (cand_Source candidate);
            result = result @ word_bytes 20 (tok_Address (cand_Token candidate));
            result = result @ [tok_Decimals (cand_Token candidate)];
            result = appendUint16 result (word_of_nat (length symbol));
            result = result @ symbol;
            result = result @ id_bytes (cand_BlockHash candidate);
            result = appendUint64 result (cand_BlockNumber candidate);
            result = result @ id_bytes (cand_TxHash candidate);
            result = appendUint64 result (cand_LogIndex candidate);
            result = appendUint64 result (cand_Generation candidate);
            result = appendUint64 result (cand_Observation candidate)
        in Some result)"

abbreviation maxNetwork :: u64 where "maxNetwork \<equiv> 0x7fffffffffffffff"

definition decodeCandidateRecord :: "bytes \<Rightarrow> candidateRecord option" where
  "decodeCandidateRecord data =
     (if int (length data) < 194 \<or> data ! 0 \<noteq> recordVersion then None
      else do {
        (status, off) \<leftarrow> readByte data 1;
        (retryAt, off) \<leftarrow> readTime data off;
        (cid, off) \<leftarrow> readFixed32 data off;
        (network, off) \<leftarrow> readUint64 data off;
        (if maxNetwork < network then None else do {
        (kind, off) \<leftarrow> readByte data off;
        (source, off) \<leftarrow> readFixed20 data off;
        (tokenAddress, off) \<leftarrow> readFixed20 data off;
        (decimals, off) \<leftarrow> readByte data off;
        (symbolLength, off) \<leftarrow> readUint16 data off;
        (if maxSymbolBytes < uint symbolLength then None else do {
        (symbol, off) \<leftarrow> read_slice (unat symbolLength) data off;
        (blockHash, off) \<leftarrow> readFixed32 data off;
        (blockNumber, off) \<leftarrow> readUint64 data off;
        (txHash, off) \<leftarrow> readFixed32 data off;
        (logIndex, off) \<leftarrow> readUint64 data off;
        (generation, off) \<leftarrow> readUint64 data off;
        (observation, off) \<leftarrow> readUint64 data off;
        (if off \<noteq> int (length data) then None
         else
           let r = \<lparr>cr_Status = status, cr_RetryAt = retryAt,
             cr_Candidate = \<lparr>cand_ID = cid, cand_Network = network, cand_Kind = kind,
               cand_Source = source,
               cand_Token = \<lparr>tok_Address = tokenAddress, tok_Symbol = symbol, tok_Decimals = decimals\<rparr>,
               cand_BlockHash = blockHash, cand_BlockNumber = blockNumber, cand_TxHash = txHash,
               cand_LogIndex = logIndex, cand_Generation = generation,
               cand_Observation = observation\<rparr>\<rparr>
           in if \<not> validateCandidateRecord r then None else Some r) }) }) })"

definition encodeIncident :: "Incident \<Rightarrow> bytes option" where
  "encodeIncident incident =
     (if sint (inc_Network incident) \<le> 0 \<or> inc_ID incident \<noteq> NewIncidentID (inc_Candidate incident) \<or>
         \<not> store_validPersistentTime (inc_CreatedAt incident) then None
      else
        let result = [recordVersion];
            result = result @ id_bytes (inc_ID incident);
            result = result @ id_bytes (inc_Candidate incident);
            result = appendUint64 result (inc_Network incident);
            result = appendTime result (inc_CreatedAt incident)
        in Some result)"

definition decodeIncident :: "bytes \<Rightarrow> Incident option" where
  "decodeIncident data =
     (if int (length data) \<noteq> 85 \<or> data ! 0 \<noteq> recordVersion then None
      else do {
        (iid, off) \<leftarrow> readFixed32 data 1;
        (candidate, off) \<leftarrow> readFixed32 data off;
        (network, off) \<leftarrow> readUint64 data off;
        (if maxNetwork < network then None else do {
        (createdAt, off) \<leftarrow> readTime data off;
        (if off \<noteq> int (length data) then None
         else if sint network \<le> 0 \<or> iid \<noteq> NewIncidentID candidate \<or> IsZero createdAt then None
         else Some \<lparr>inc_ID = iid, inc_Candidate = candidate, inc_Network = network,
                inc_CreatedAt = createdAt\<rparr>) }) })"

definition encodeBlock :: "blockRecord \<Rightarrow> u32 \<Rightarrow> bytes option" where
  "encodeBlock r maxMembers =
     (if \<not> validateBlockRecord r maxMembers then None
      else
        let result = [recordVersion];
            result = appendUint64 result (cp_Network (br_Checkpoint r));
            result = appendUint64 result (cp_BlockNumber (br_Checkpoint r));
            result = result @ id_bytes (cp_BlockHash (br_Checkpoint r));
            result = result @ id_bytes (br_ParentHash r);
            result = appendUint32 result (word_of_nat (length (br_Members r)));
            result = foldl (\<lambda>result member. result @ id_bytes member) result (br_Members r)
        in Some result)"

fun readMembers :: "nat \<Rightarrow> bytes \<Rightarrow> int \<Rightarrow> (CandidateID list \<times> int) option" where
  "readMembers 0 data off = Some ([], off)"
| "readMembers (Suc n) data off = do {
     (member, off) \<leftarrow> readFixed32 data off;
     (members, off) \<leftarrow> readMembers n data off;
     Some (member # members, off) }"

definition decodeBlock :: "bytes \<Rightarrow> u32 \<Rightarrow> blockRecord option" where
  "decodeBlock data maxMembers =
     (if int (length data) < 85 \<or> data ! 0 \<noteq> recordVersion then None
      else do {
        (network, off) \<leftarrow> readUint64 data 1;
        (if maxNetwork < network then None else do {
        (number, off) \<leftarrow> readUint64 data off;
        (blockHash, off) \<leftarrow> readFixed32 data off;
        (parentHash, off) \<leftarrow> readFixed32 data off;
        (count, off) \<leftarrow> readUint32 data off;
        (if maxMembers < count \<or> uint count * 32 \<noteq> int (length data) - off then None else do {
        (members, off) \<leftarrow> readMembers (unat count) data off;
        (if off \<noteq> int (length data) then None
         else
           let r = \<lparr>br_Checkpoint = \<lparr>cp_Network = network, cp_BlockNumber = number, cp_BlockHash = blockHash\<rparr>,
                 br_ParentHash = parentHash, br_Members = members\<rparr>
           in if \<not> validateBlockRecord r maxMembers then None else Some r) }) }) })"

definition encodeCheckpoint :: "Checkpoint \<Rightarrow> bytes option" where
  "encodeCheckpoint checkpoint =
     (if sint (cp_Network checkpoint) \<le> 0 \<or> cp_BlockHash checkpoint = 0 then None
      else
        let result = appendUint64 [] (cp_Network checkpoint);
            result = appendUint64 result (cp_BlockNumber checkpoint);
            result = result @ id_bytes (cp_BlockHash checkpoint)
        in Some result)"

definition decodeCheckpoint :: "bytes \<Rightarrow> Checkpoint option" where
  "decodeCheckpoint data =
     (if int (length data) \<noteq> 48 then None
      else do {
        (network, off) \<leftarrow> readUint64 data 0;
        (if maxNetwork < network then None else do {
        (number, off) \<leftarrow> readUint64 data off;
        (blockHash, off) \<leftarrow> readFixed32 data off;
        (if off \<noteq> int (length data) \<or> sint network \<le> 0 \<or> blockHash = 0 then None
         else Some \<lparr>cp_Network = network, cp_BlockNumber = number, cp_BlockHash = blockHash\<rparr>) }) })"

section \<open>Round trips\<close>

text \<open>A positive \<^verbatim>\<open>int64\<close> passes the decoders' range check.\<close>

lemma nonnegative_int64: "0 \<le> sint (n :: u64) \<longleftrightarrow> n \<le> maxNetwork"
proof -
  have "uint n < 2 ^ 64" "0 \<le> uint n"
    using uint_bounded [of n] by simp_all
  then have d: "0 \<le> uint n div 2 ^ 63" "uint n div 2 ^ 63 < 2"
    by (simp_all add: pos_imp_zdiv_nonneg_iff)
  have "0 \<le> sint n \<longleftrightarrow> even (uint n div 2 ^ 63)"
    using uint_bounded [of n] by (auto simp: sint_uint signed_take_bit_eq_if_positive
        signed_take_bit_eq_if_negative bit_iff_odd take_bit_int_eq_self)
  also have "\<dots> \<longleftrightarrow> uint n div 2 ^ 63 = 0"
    using d by (cases "uint n div 2 ^ 63 = 1") auto
  also have "\<dots> \<longleftrightarrow> uint n < 2 ^ 63"
    using \<open>0 \<le> uint n\<close> by (auto simp: zdiv_eq_0_iff)
  finally have "0 \<le> sint n \<longleftrightarrow> uint n < 2 ^ 63" .
  then show ?thesis by (auto simp: word_le_def)
qed

lemma network_not_too_big: "\<not> sint (n :: u64) \<le> 0 \<Longrightarrow> n \<le> maxNetwork"
  using nonnegative_int64 [of n] by simp

text \<open>A byte string is read back after its length.\<close>

lemma slice_after:
  "rest_at data off (xs @ rest) \<Longrightarrow> length xs = n \<Longrightarrow> rest_at data (off + int n) rest"
  using rest_at_step by blast

lemma decode_encode_checkpoint:
  assumes "encodeCheckpoint c = Some bs"
  shows "decodeCheckpoint bs = Some c"
proof -
  from assms have ok: "\<not> sint (cp_Network c) \<le> 0" "cp_BlockHash c \<noteq> 0"
    and bs: "bs = word_bytes 8 (cp_Network c) @ word_bytes 8 (cp_BlockNumber c) @ id_bytes (cp_BlockHash c) @ []"
    by (auto simp: encodeCheckpoint_def append_defs Let_def split: if_splits)
  have len: "length bs = 48" using bs by simp
  have a0: "rest_at bs 0 (word_bytes 8 (cp_Network c) @ word_bytes 8 (cp_BlockNumber c) @ id_bytes (cp_BlockHash c) @ [])"
    using bs rest_at_start by simp
  note a1 = u64_field.rest_after [OF a0] and r0 = u64_field.read_back [OF a0 TrueI]
  note a2 = u64_field.rest_after [OF a1] and r1 = u64_field.read_back [OF a1 TrueI]
  note r2 = hash_field.read_back [OF a2 TrueI]
  show ?thesis
    using r0 r1 r2 ok len network_not_too_big [OF ok(1)]
    by (simp add: decodeCheckpoint_def not_less cong: bind_weak_cong)
qed

lemma decode_encode_incident:
  assumes enc: "encodeIncident i = Some bs" and t: "time_ok (inc_CreatedAt i)"
  shows "decodeIncident bs = Some i"
proof -
  from enc have ok: "\<not> sint (inc_Network i) \<le> 0" "inc_ID i = NewIncidentID (inc_Candidate i)"
      "store_validPersistentTime (inc_CreatedAt i)"
    and bs: "bs = [1] @ id_bytes (inc_ID i) @ id_bytes (inc_Candidate i) @ word_bytes 8 (inc_Network i) @
       time_bytes (inc_CreatedAt i) @ []"
    by (auto simp: encodeIncident_def append_defs Let_def split: if_splits)
  have len: "length bs = 85" using bs by (simp add: time_field.enc_length)
  have a0: "rest_at bs 1 (id_bytes (inc_ID i) @ id_bytes (inc_Candidate i) @ word_bytes 8 (inc_Network i) @
       time_bytes (inc_CreatedAt i) @ [])"
    using bs len by (simp add: rest_at_def)
  note a1 = hash_field.rest_after [OF a0] and r0 = hash_field.read_back [OF a0 TrueI]
  note a2 = hash_field.rest_after [OF a1] and r1 = hash_field.read_back [OF a1 TrueI]
  note a3 = u64_field.rest_after [OF a2] and r2 = u64_field.read_back [OF a2 TrueI]
  note r3 = time_field.read_back [OF a3 persistentTime_storable [OF t ok(3)]]
  have "bs ! 0 = 1" "\<not> IsZero (inc_CreatedAt i)"
    using bs ok(3) by (simp_all add: store_validPersistentTime_def)
  then show ?thesis
    using r0 r1 r2 r3 ok len network_not_too_big [OF ok(1)]
    by (simp add: decodeIncident_def not_less cong: bind_weak_cong)
qed

lemma readMembers_back:
  "rest_at data off (concat (map id_bytes ms) @ rest) \<Longrightarrow>
     readMembers (length ms) data off = Some (ms, off + 32 * int (length ms))"
proof (induction ms arbitrary: off)
  case (Cons m ms)
  then have a: "rest_at data off (id_bytes m @ concat (map id_bytes ms) @ rest)" by simp
  with Cons.IH [OF hash_field.rest_after [OF a]] hash_field.read_back [OF a TrueI]
  show ?case by simp
qed simp

lemma foldl_append_map: "foldl (\<lambda>acc x. acc @ f x) init xs = init @ concat (map f xs)"
  by (induction xs arbitrary: init) simp_all

lemma decode_encode_block:
  assumes enc: "encodeBlock r k = Some bs"
  shows "decodeBlock bs k = Some r"
proof -
  define ms where "ms = concat (map id_bytes (br_Members r))"
  define n :: u32 where "n = word_of_nat (length (br_Members r))"
  from enc have ok: "validateBlockRecord r k"
    and bs: "bs = [1] @ word_bytes 8 (cp_Network (br_Checkpoint r)) @
       word_bytes 8 (cp_BlockNumber (br_Checkpoint r)) @ id_bytes (cp_BlockHash (br_Checkpoint r)) @
       id_bytes (br_ParentHash r) @ word_bytes 4 n @ ms @ []"
    by (auto simp: encodeBlock_def append_defs Let_def foldl_append_map ms_def n_def split: if_splits)
  have lms: "length ms = 32 * length (br_Members r)"
    by (simp add: ms_def length_concat comp_def sum_list_triv)
  have lim: "int (length (br_Members r)) \<le> uint k" and net: "\<not> sint (cp_Network (br_Checkpoint r)) \<le> 0"
    using ok by (auto simp: validateBlockRecord_def)
  then have "int (length (br_Members r)) < 2 ^ 32"
    using uint_bounded [of k] by simp
  then have un: "uint n = int (length (br_Members r))"
    unfolding n_def by (simp add: unsigned_of_nat take_bit_nat_eq_self)
  have len: "length bs = 85 + 32 * length (br_Members r)"
    using bs lms by simp
  have a0: "rest_at bs 1 (word_bytes 8 (cp_Network (br_Checkpoint r)) @
       word_bytes 8 (cp_BlockNumber (br_Checkpoint r)) @ id_bytes (cp_BlockHash (br_Checkpoint r)) @
       id_bytes (br_ParentHash r) @ word_bytes 4 n @ ms @ [])"
    using bs len by (simp add: rest_at_def)
  note a1 = u64_field.rest_after [OF a0] and r0 = u64_field.read_back [OF a0 TrueI]
  note a2 = u64_field.rest_after [OF a1] and r1 = u64_field.read_back [OF a1 TrueI]
  note a3 = hash_field.rest_after [OF a2] and r2 = hash_field.read_back [OF a2 TrueI]
  note a4 = hash_field.rest_after [OF a3] and r3 = hash_field.read_back [OF a3 TrueI]
  note a5 = u32_field.rest_after [OF a4] and r4 = u32_field.read_back [OF a4 TrueI]
  note r5 = readMembers_back [OF a5 [unfolded ms_def]]
  have "\<not> k < n" "unat n = length (br_Members r)"
    using lim un by (simp_all add: word_less_def unat_eq_nat_uint)
  moreover have "bs ! 0 = 1" using bs by simp
  ultimately show ?thesis
    using r0 r1 r2 r3 r4 r5 un ok [unfolded validateBlockRecord_def] len network_not_too_big [OF net]
    by (simp add: decodeBlock_def validateBlockRecord_def Let_def not_less cong: bind_weak_cong)
qed

lemma decode_encode_candidate:
  assumes enc: "encodeCandidateRecord r = Some bs" and t: "time_ok (cr_RetryAt r)"
  shows "decodeCandidateRecord bs = Some r"
proof -
  define c where "c = cr_Candidate r"
  define sy where "sy = tok_Symbol (cand_Token c)"
  define n :: u16 where "n = word_of_nat (length sy)"
  from enc have ok: "validateCandidateRecord r"
    and tm: "IsZero (cr_RetryAt r) \<or> store_validPersistentTime (cr_RetryAt r)"
    and bs: "bs = [1, cr_Status r] @ time_bytes (cr_RetryAt r) @ id_bytes (cand_ID c) @
       word_bytes 8 (cand_Network c) @ [cand_Kind c] @ word_bytes 20 (cand_Source c) @
       word_bytes 20 (tok_Address (cand_Token c)) @ [tok_Decimals (cand_Token c)] @ word_bytes 2 n @ sy @
       id_bytes (cand_BlockHash c) @ word_bytes 8 (cand_BlockNumber c) @ id_bytes (cand_TxHash c) @
       word_bytes 8 (cand_LogIndex c) @ word_bytes 8 (cand_Generation c) @ word_bytes 8 (cand_Observation c) @ []"
    by (auto simp: encodeCandidateRecord_def append_defs Let_def c_def sy_def n_def split: if_splits)
  have st: "storable_time (cr_RetryAt r)"
    using tm persistentTime_storable [OF t] by (auto simp: IsZero_def)
  have lim: "int (length sy) \<le> 64" and net: "\<not> sint (cand_Network c) \<le> 0"
    using ok by (auto simp: validateCandidateRecord_def validateCandidate_def ValidateCandidate_def c_def sy_def)
  then have n: "uint n = int (length sy)"
    by (simp add: n_def unsigned_of_nat take_bit_nat_eq_self)
  then have un: "unat n = length sy"
    by (simp add: unat_eq_nat_uint)
  have len: "length bs = 194 + length sy"
    using bs by (simp add: time_field.enc_length)
  have a0: "rest_at bs 1 ([cr_Status r] @ time_bytes (cr_RetryAt r) @ id_bytes (cand_ID c) @
       word_bytes 8 (cand_Network c) @ [cand_Kind c] @ word_bytes 20 (cand_Source c) @
       word_bytes 20 (tok_Address (cand_Token c)) @ [tok_Decimals (cand_Token c)] @ word_bytes 2 n @ sy @
       id_bytes (cand_BlockHash c) @ word_bytes 8 (cand_BlockNumber c) @ id_bytes (cand_TxHash c) @
       word_bytes 8 (cand_LogIndex c) @ word_bytes 8 (cand_Generation c) @ word_bytes 8 (cand_Observation c) @ [])"
    using bs len by (simp add: rest_at_def)
  note a1 = byte_field.rest_after [OF a0] and r0 = byte_field.read_back [OF a0 TrueI]
  note a2 = time_field.rest_after [OF a1] and r1 = time_field.read_back [OF a1 st]
  note a3 = hash_field.rest_after [OF a2] and r2 = hash_field.read_back [OF a2 TrueI]
  note a4 = u64_field.rest_after [OF a3] and r3 = u64_field.read_back [OF a3 TrueI]
  note a5 = byte_field.rest_after [OF a4] and r4 = byte_field.read_back [OF a4 TrueI]
  note a6 = address_field.rest_after [OF a5] and r5 = address_field.read_back [OF a5 TrueI]
  note a7 = address_field.rest_after [OF a6] and r6 = address_field.read_back [OF a6 TrueI]
  note a8 = byte_field.rest_after [OF a7] and r7 = byte_field.read_back [OF a7 TrueI]
  note a9 = u16_field.rest_after [OF a8] and r8 = u16_field.read_back [OF a8 TrueI]
  note a10 = slice_after [OF a9 refl] and r9 = read_slice_back [OF a9 refl]
  note a11 = hash_field.rest_after [OF a10] and r10 = hash_field.read_back [OF a10 TrueI]
  note a12 = u64_field.rest_after [OF a11] and r11 = u64_field.read_back [OF a11 TrueI]
  note a13 = hash_field.rest_after [OF a12] and r12 = hash_field.read_back [OF a12 TrueI]
  note a14 = u64_field.rest_after [OF a13] and r13 = u64_field.read_back [OF a13 TrueI]
  note a15 = u64_field.rest_after [OF a14] and r14 = u64_field.read_back [OF a14 TrueI]
  note r15 = u64_field.read_back [OF a15 TrueI]
  note reads = r0 r1 r2 r3 r4 r5 r6 r7 r8 r9 r10 r11 r12 r13 r14 r15
  have v: "bs ! 0 = 1" using bs by simp
  have c: "cr_Candidate r = c" "tok_Symbol (cand_Token c) = sy" by (simp_all add: c_def sy_def)
  have e: "r = \<lparr>cr_Status = cr_Status r, cr_RetryAt = cr_RetryAt r,
      cr_Candidate = \<lparr>cand_ID = cand_ID c, cand_Network = cand_Network c, cand_Kind = cand_Kind c,
        cand_Source = cand_Source c, cand_Token = \<lparr>tok_Address = tok_Address (cand_Token c), tok_Symbol = sy,
          tok_Decimals = tok_Decimals (cand_Token c)\<rparr>, cand_BlockHash = cand_BlockHash c,
        cand_BlockNumber = cand_BlockNumber c, cand_TxHash = cand_TxHash c, cand_LogIndex = cand_LogIndex c,
        cand_Generation = cand_Generation c, cand_Observation = cand_Observation c\<rparr>\<rparr>"
    using c by (cases r; cases c; cases "cand_Token c") simp
  show ?thesis
    using reads ok len lim n un v network_not_too_big [OF net]
    by (simp add: decodeCandidateRecord_def Let_def not_less e [symmetric] cong: bind_weak_cong)
qed

lemma candidate_reencodes:
  assumes "decodeCandidateRecord bs = Some r"
  shows "encodeCandidateRecord r \<noteq> None" and "validateCandidateRecord r" and "time_ok (cr_RetryAt r)"
proof -
  obtain off off' where t: "readTime bs off = Some (cr_RetryAt r, off')" and v: "validateCandidateRecord r"
    using assms by (auto simp: decodeCandidateRecord_def bind_eq_Some_conv Let_def split: if_splits)
  from readTime_storable [OF t] have s: "storable_time (cr_RetryAt r)" .
  then show "time_ok (cr_RetryAt r)" by (simp add: storable_time_def)
  with s v show "encodeCandidateRecord r \<noteq> None"
    by (auto simp: encodeCandidateRecord_def Let_def intro: storable_persistent)
  show "validateCandidateRecord r" by (rule v)
qed

lemma incident_reencodes:
  assumes "decodeIncident bs = Some i"
  shows "encodeIncident i \<noteq> None" and "time_ok (inc_CreatedAt i)"
proof -
  obtain off off' where t: "readTime bs off = Some (inc_CreatedAt i, off')"
    and v: "\<not> sint (inc_Network i) \<le> 0" "inc_ID i = NewIncidentID (inc_Candidate i)" "\<not> IsZero (inc_CreatedAt i)"
    using assms by (auto simp: decodeIncident_def bind_eq_Some_conv Let_def split: if_splits)
  from readTime_storable [OF t] have s: "storable_time (inc_CreatedAt i)" .
  then show "time_ok (inc_CreatedAt i)" by (simp add: storable_time_def)
  with s v show "encodeIncident i \<noteq> None"
    by (auto simp: encodeIncident_def Let_def storable_persistent)
qed

end
