(* ===== verification/Store_Lease.thy ===== *)
theory Store_Lease
  imports Store_Codec
begin

text \<open>
  The lease that lets one coordinator use a sponsor account
  (\<^verbatim>\<open>internal/store/lease.go\<close>): the record and its codec, the methods \<open>Acquire\<close>, \<open>Renew\<close>,
  \<open>Validate\<close>, \<open>Release\<close> and \<open>Lost\<close>, and the signals that tell a holder that the lease is gone.
\<close>

section \<open>Record\<close>

abbreviation leaseRecordVersion :: byte where "leaseRecordVersion \<equiv> 1"
abbreviation maxLeaseOwnerBytes :: int where "maxLeaseOwnerBytes \<equiv> 128"

definition normalizeLease :: "Lease \<Rightarrow> Lease" where
  "normalizeLease lease = lease\<lparr>lease_ExpiresAt := normalizeStoreTime (lease_ExpiresAt lease)\<rparr>"

definition validateLease :: "Lease \<Rightarrow> bool" where
  "validateLease lease \<longleftrightarrow>
     \<not> (sint (lk_Network (lease_Key lease)) \<le> 0 \<or> lk_Sponsor (lease_Key lease) = 0 \<or>
        lease_Owner lease = [] \<or> maxLeaseOwnerBytes < int (length (lease_Owner lease)) \<or>
        \<not> validRescueTime (lease_ExpiresAt lease))"

definition encodeLeaseKey :: "LeaseKey \<Rightarrow> bytes" where
  "encodeLeaseKey key = appendUint64 [] (lk_Network key) @ word_bytes 20 (lk_Sponsor key)"

definition encodeLease :: "Lease \<Rightarrow> bytes option" where
  "encodeLease l =
     (let lease = normalizeLease l
      in if \<not> validateLease lease then None
         else
           let owner = lease_Owner lease;
               result = [leaseRecordVersion];
               result = appendUint64 result (lk_Network (lease_Key lease));
               result = result @ word_bytes 20 (lk_Sponsor (lease_Key lease));
               result = appendUint16 result (word_of_nat (length owner));
               result = result @ owner;
               result = appendTime result (lease_ExpiresAt lease)
           in Some result)"

definition decodeLease :: "bytes \<Rightarrow> Lease option" where
  "decodeLease data =
     (if int (length data) < 43 \<or> data ! 0 \<noteq> leaseRecordVersion then None
      else do {
        (network, off) \<leftarrow> readUint64 data 1;
        (if maxNetwork < network then None else do {
        (sponsor, off) \<leftarrow> readFixed20 data off;
        (ownerLength, off) \<leftarrow> readUint16 data off;
        (if ownerLength = 0 \<or> maxLeaseOwnerBytes < uint ownerLength then None else do {
        (owner, off) \<leftarrow> read_slice (unat ownerLength) data off;
        (expiresAt, off) \<leftarrow> readTime data off;
        (if off \<noteq> int (length data) then None
         else
           let lease = \<lparr>lease_Key = \<lparr>lk_Network = network, lk_Sponsor = sponsor\<rparr>,
                 lease_Owner = owner, lease_ExpiresAt = expiresAt\<rparr>
           in if \<not> validateLease lease then None else Some lease) }) }) })"

definition leaseExpiration :: "time \<Rightarrow> duration \<Rightarrow> time \<times> bool" where
  "leaseExpiration now ttl =
     (if ttl \<le> 0 \<or> \<not> validRescueTime now then (zeroTime, False)
      else
        let expiresAt = normalizeStoreTime (time_Add now ttl)
        in (expiresAt, validRescueTime expiresAt \<and> After expiresAt now))"

definition sameLease :: "Lease \<Rightarrow> Lease \<Rightarrow> bool" where
  "sameLease left right \<longleftrightarrow>
     lease_Key left = lease_Key right \<and> lease_Owner left = lease_Owner right \<and>
     lease_ExpiresAt left = lease_ExpiresAt right"

section \<open>Signals\<close>

abbreviation closedLease :: nat where "closedLease \<equiv> 0"

definition leaseSignalIdentity :: "Lease \<Rightarrow> leaseIdentity" where
  "leaseSignalIdentity lease =
     \<lparr>lid_key = lease_Key lease, lid_owner = lease_Owner lease,
      lid_expiresUnix = Unix (lease_ExpiresAt lease),
      lid_expiresNano = Nanosecond (lease_ExpiresAt lease)\<rparr>"

text \<open>Close and forget every signal whose identity satisfies \<open>P\<close>: the loops and lookups below.\<close>

definition close_signals :: "(leaseIdentity \<Rightarrow> bool) \<Rightarrow> lease_signals \<Rightarrow> lease_signals" where
  "close_signals P s =
     s\<lparr>closedChannels := map snd (filter (\<lambda>e. P (fst e)) (leaseLoss s)) @ closedChannels s,
       leaseLoss := filter (\<lambda>e. \<not> P (fst e)) (leaseLoss s)\<rparr>"

definition replaceLeaseSignal :: "Lease \<Rightarrow> lease_signals \<Rightarrow> lease_signals" where
  "replaceLeaseSignal lease s =
     (let s = close_signals (\<lambda>existing. lid_key existing = lease_Key lease) s
      in s\<lparr>leaseLoss := (leaseSignalIdentity lease, nextChannel s) # leaseLoss s,
           nextChannel := Suc (nextChannel s)\<rparr>)"

definition closeLeaseSignal :: "Lease \<Rightarrow> lease_signals \<Rightarrow> lease_signals" where
  "closeLeaseSignal lease s = close_signals (\<lambda>i. i = leaseSignalIdentity lease) s"

definition closeLeaseKeySignals :: "LeaseKey \<Rightarrow> lease_signals \<Rightarrow> lease_signals" where
  "closeLeaseKeySignals key s = close_signals (\<lambda>i. lid_key i = key) s"

definition closeAllLeaseSignals :: "lease_signals \<Rightarrow> lease_signals" where
  "closeAllLeaseSignals s = close_signals (\<lambda>_. True) s"

definition leaseLossDetected :: "store_error \<Rightarrow> bool" where
  "leaseLossDetected e \<longleftrightarrow> e = ErrLeaseLost \<or> e = errCorrupt"

definition Lost :: "BoltStore \<Rightarrow> Lease \<Rightarrow> 'b store_state \<Rightarrow> nat" where
  "Lost S lease st =
     (let lease = normalizeLease lease
      in if \<not> validateLease lease \<or> lk_Network (lease_Key lease) \<noteq> bs_network S then closedLease
         else case map_of (leaseLoss (st_signals st)) (leaseSignalIdentity lease) of
                Some channel \<Rightarrow> channel
              | None \<Rightarrow> closedLease)"

section \<open>Operations\<close>

definition put_lease ::
  "'b bolt \<Rightarrow> bytes \<Rightarrow> bytes \<Rightarrow> 'b store_db \<Rightarrow> store_error + unit \<times> 'b store_db" where
  "put_lease B k v db =
     (case bput B (leasesBucket db) k v of
        None \<Rightarrow> Inl engineErr
      | Some b \<Rightarrow> Inr ((), db\<lparr>leasesBucket := b\<rparr>))"

definition acquire_tx ::
  "'b bolt \<Rightarrow> LeaseKey \<Rightarrow> time \<Rightarrow> bytes \<Rightarrow> 'b store_db \<Rightarrow> store_error + unit \<times> 'b store_db" where
  "acquire_tx B key now encoded db =
     (let keyBytes = encodeLeaseKey key
      in case bget B (leasesBucket db) keyBytes of
           None \<Rightarrow> put_lease B keyBytes encoded db
         | Some persisted \<Rightarrow>
             case decodeLease persisted of
               None \<Rightarrow> Inl errCorrupt
             | Some current \<Rightarrow>
                 if lease_Key current \<noteq> key then Inl errCorrupt
                 else if After (lease_ExpiresAt current) now then Inl ErrLeaseHeld
                 else put_lease B keyBytes encoded db)"

definition Acquire ::
  "'b bolt \<Rightarrow> BoltStore \<Rightarrow> store_env \<Rightarrow> LeaseKey \<Rightarrow> bytes \<Rightarrow> duration \<Rightarrow> 'b store_state \<Rightarrow>
     (store_error + Lease) \<times> 'b store_state" where
  "Acquire B S env key owner ttl st =
     (let now = normalizeStoreTime (se_now env);
          (expiresAt, ok) = leaseExpiration now ttl;
          requested = \<lparr>lease_Key = key, lease_Owner = owner, lease_ExpiresAt = expiresAt\<rparr>
      in case encodeLease requested of
           None \<Rightarrow> (Inl errInvalidInput, st)
         | Some encoded \<Rightarrow>
             if \<not> ok \<or> lk_Network key \<noteq> bs_network S then (Inl errInvalidInput, st)
             else case store_begin env st of
               Some e \<Rightarrow> (Inl e, st)
             | None \<Rightarrow>
                 case store_update env (acquire_tx B key now encoded) (st_db st) of
                   (Inl e, db') \<Rightarrow>
                     let e' = store_publicError e; st' = st\<lparr>st_db := db'\<rparr>
                     in (Inl e', if e' = errCorrupt
                                 then st'\<lparr>st_signals := closeLeaseKeySignals key (st_signals st)\<rparr>
                                 else st')
                 | (Inr _, db') \<Rightarrow>
                     (Inr requested, st\<lparr>st_db := db',
                        st_signals := replaceLeaseSignal requested (st_signals st)\<rparr>))"

text \<open>The check shared by \<open>Renew\<close>, \<open>Validate\<close> and \<open>Release\<close>: the lease is the persisted, live one.\<close>

definition check_lease ::
  "'b bolt \<Rightarrow> Lease \<Rightarrow> time \<Rightarrow> 'b store_db \<Rightarrow> store_error option" where
  "check_lease B lease now db =
     (case bget B (leasesBucket db) (encodeLeaseKey (lease_Key lease)) of
        None \<Rightarrow> Some ErrLeaseLost
      | Some persisted \<Rightarrow>
          case decodeLease persisted of
            None \<Rightarrow> Some errCorrupt
          | Some current \<Rightarrow>
              if lease_Key current \<noteq> lease_Key lease then Some errCorrupt
              else if \<not> sameLease current lease \<or> \<not> After (lease_ExpiresAt current) now then Some ErrLeaseLost
              else None)"

definition renew_tx ::
  "'b bolt \<Rightarrow> Lease \<Rightarrow> time \<Rightarrow> bytes \<Rightarrow> 'b store_db \<Rightarrow> store_error + unit \<times> 'b store_db" where
  "renew_tx B lease now encoded db =
     (case check_lease B lease now db of
        Some e \<Rightarrow> Inl e
      | None \<Rightarrow> put_lease B (encodeLeaseKey (lease_Key lease)) encoded db)"

definition Renew ::
  "'b bolt \<Rightarrow> BoltStore \<Rightarrow> store_env \<Rightarrow> Lease \<Rightarrow> duration \<Rightarrow> 'b store_state \<Rightarrow>
     (store_error + Lease) \<times> 'b store_state" where
  "Renew B S env l ttl st =
     (let lease = normalizeLease l;
          now = normalizeStoreTime (se_now env);
          (expiresAt, ok) = leaseExpiration now ttl;
          renewed = lease\<lparr>lease_ExpiresAt := expiresAt\<rparr>
      in case encodeLease renewed of
           None \<Rightarrow> (Inl errInvalidInput, st)
         | Some encoded \<Rightarrow>
             if \<not> ok \<or> lk_Network (lease_Key lease) \<noteq> bs_network S then (Inl errInvalidInput, st)
             else case store_begin env st of
               Some e \<Rightarrow> (Inl e, st)
             | None \<Rightarrow>
                 case store_update env (renew_tx B lease now encoded) (st_db st) of
                   (Inl e, db') \<Rightarrow>
                     let e' = store_publicError e; st' = st\<lparr>st_db := db'\<rparr>
                     in (Inl e', if leaseLossDetected e'
                                 then st'\<lparr>st_signals := closeLeaseSignal lease (st_signals st)\<rparr>
                                 else st')
                 | (Inr _, db') \<Rightarrow>
                     let st' = st\<lparr>st_db := db'\<rparr>
                     in if sameLease renewed lease then (Inr lease, st')
                        else (Inr renewed, st'\<lparr>st_signals := replaceLeaseSignal renewed (st_signals st)\<rparr>))"

definition Validate ::
  "'b bolt \<Rightarrow> BoltStore \<Rightarrow> store_env \<Rightarrow> Lease \<Rightarrow> 'b store_state \<Rightarrow> (store_error + unit) \<times> 'b store_state" where
  "Validate B S env l st =
     (let lease = normalizeLease l
      in if \<not> validateLease lease \<or> lk_Network (lease_Key lease) \<noteq> bs_network S then (Inl errInvalidInput, st)
         else case store_begin env st of
           Some e \<Rightarrow> (Inl e, st)
         | None \<Rightarrow>
             let now = normalizeStoreTime (se_now env)
             in case store_view env (\<lambda>db. case check_lease B lease now db of Some e \<Rightarrow> Inl e | None \<Rightarrow> Inr ())
                       (st_db st) of
                  Inr _ \<Rightarrow> (Inr (), st)
                | Inl e \<Rightarrow>
                    let e' = store_publicError e
                    in (Inl e', if leaseLossDetected e'
                                then st\<lparr>st_signals := closeLeaseSignal lease (st_signals st)\<rparr>
                                else st))"

definition release_tx ::
  "'b bolt \<Rightarrow> Lease \<Rightarrow> time \<Rightarrow> 'b store_db \<Rightarrow> store_error + unit \<times> 'b store_db" where
  "release_tx B lease now db =
     (case check_lease B lease now db of
        Some e \<Rightarrow> Inl e
      | None \<Rightarrow>
          case bdel B (leasesBucket db) (encodeLeaseKey (lease_Key lease)) of
            None \<Rightarrow> Inl engineErr
          | Some b \<Rightarrow> Inr ((), db\<lparr>leasesBucket := b\<rparr>))"

definition Release ::
  "'b bolt \<Rightarrow> BoltStore \<Rightarrow> store_env \<Rightarrow> Lease \<Rightarrow> 'b store_state \<Rightarrow> (store_error + unit) \<times> 'b store_state" where
  "Release B S env l st =
     (let lease = normalizeLease l
      in if \<not> validateLease lease \<or> lk_Network (lease_Key lease) \<noteq> bs_network S then (Inl errInvalidInput, st)
         else case store_begin env st of
           Some e \<Rightarrow> (Inl e, st)
         | None \<Rightarrow>
             let now = normalizeStoreTime (se_now env)
             in case store_update env (release_tx B lease now) (st_db st) of
                  (Inr _, db') \<Rightarrow>
                    (Inr (), st\<lparr>st_db := db', st_signals := closeLeaseSignal lease (st_signals st)\<rparr>)
                | (Inl e, db') \<Rightarrow>
                    let e' = store_publicError e; st' = st\<lparr>st_db := db'\<rparr>
                    in (Inl e', if leaseLossDetected e'
                                then st'\<lparr>st_signals := closeLeaseSignal lease (st_signals st)\<rparr>
                                else st'))"

text \<open>\<^verbatim>\<open>BoltStore.Close\<close>, up to the engine's own closing.\<close>

definition store_Close :: "'b store_state \<Rightarrow> 'b store_state" where
  "store_Close st =
     (if st_closed st then st
      else st\<lparr>st_closed := True, st_signals := closeAllLeaseSignals (st_signals st)\<rparr>)"

definition validateLeaseEntry :: "BoltStore \<Rightarrow> unit \<Rightarrow> bytes \<times> bytes \<Rightarrow> store_error + unit" where
  "validateLeaseEntry S u entry =
     (case decodeLease (snd entry) of
        None \<Rightarrow> Inl errCorrupt
      | Some lease \<Rightarrow>
          if lk_Network (lease_Key lease) \<noteq> bs_network S \<or> fst entry \<noteq> encodeLeaseKey (lease_Key lease)
          then Inl errCorrupt else Inr ())"

definition validateLeasesBucket :: "'b seq_bolt \<Rightarrow> BoltStore \<Rightarrow> 'b store_db \<Rightarrow> store_error + unit" where
  "validateLeasesBucket Q S db =
     (if bseq Q (leasesBucket db) \<noteq> 0 then Inl errCorrupt
      else foldE (validateLeaseEntry S) () (bentries (bkv Q) (leasesBucket db)))"

section \<open>Codec\<close>

lemma normalizeLease_id [simp]: "normalizeLease l = l"
  by (simp add: normalizeLease_def)

lemma sameLease_eq [simp]: "sameLease l m \<longleftrightarrow> l = m"
  by (cases l; cases m) (auto simp: sameLease_def)

lemma encodeLeaseKey_inject [simp]: "encodeLeaseKey k = encodeLeaseKey k' \<longleftrightarrow> k = k'"
  by (cases k; cases k') (auto simp: encodeLeaseKey_def appendUint64_def fixed_fields_inject)

lemma decode_encode_lease:
  assumes enc: "encodeLease l = Some bs" and t: "time_ok (lease_ExpiresAt l)"
  shows "decodeLease bs = Some l"
proof -
  define n :: u16 where "n = word_of_nat (length (lease_Owner l))"
  from enc have ok: "validateLease l"
    and bs: "bs = [1] @ word_bytes 8 (lk_Network (lease_Key l)) @ word_bytes 20 (lk_Sponsor (lease_Key l)) @
       word_bytes 2 n @ lease_Owner l @ time_bytes (lease_ExpiresAt l) @ []"
    by (auto simp: encodeLease_def append_defs Let_def n_def split: if_splits)
  have v: "lease_Owner l \<noteq> []" "int (length (lease_Owner l)) \<le> 128" "validRescueTime (lease_ExpiresAt l)"
    and net: "\<not> sint (lk_Network (lease_Key l)) \<le> 0"
    using ok by (auto simp: validateLease_def)
  have st: "storable_time (lease_ExpiresAt l)"
    by (rule validRescueTime_storable [OF t v(3)])
  have n: "uint n = int (length (lease_Owner l))"
    using v(2) by (simp add: n_def unsigned_of_nat take_bit_nat_eq_self)
  then have un: "unat n = length (lease_Owner l)" and n0: "n \<noteq> 0"
    using v(1) by (auto simp: unat_eq_nat_uint)
  have len: "length bs = 43 + length (lease_Owner l)"
    using bs by (simp add: time_field.enc_length)
  have a0: "rest_at bs 1 (word_bytes 8 (lk_Network (lease_Key l)) @ word_bytes 20 (lk_Sponsor (lease_Key l)) @
       word_bytes 2 n @ lease_Owner l @ time_bytes (lease_ExpiresAt l) @ [])"
    using bs len by (simp add: rest_at_def)
  note a1 = u64_field.rest_after [OF a0] and r0 = u64_field.read_back [OF a0 TrueI]
  note a2 = address_field.rest_after [OF a1] and r1 = address_field.read_back [OF a1 TrueI]
  note a3 = u16_field.rest_after [OF a2] and r2 = u16_field.read_back [OF a2 TrueI]
  note a4 = slice_after [OF a3 refl] and r3 = read_slice_back [OF a3 refl]
  note r4 = time_field.read_back [OF a4 st]
  have "bs ! 0 = 1" using bs by simp
  moreover have e: "\<lparr>lease_Key = \<lparr>lk_Network = lk_Network (lease_Key l), lk_Sponsor = lk_Sponsor (lease_Key l)\<rparr>,
      lease_Owner = lease_Owner l, lease_ExpiresAt = lease_ExpiresAt l\<rparr> = l"
    by (cases l) simp
  ultimately show ?thesis
    using r0 r1 r2 r3 r4 ok len n un n0 v network_not_too_big [OF net]
    by (simp add: decodeLease_def Let_def not_less e cong: bind_weak_cong)
qed

lemma decoded_lease:
  assumes "decodeLease bs = Some l"
  shows "validateLease l" and "time_ok (lease_ExpiresAt l)"
proof -
  obtain off off' where t: "readTime bs off = Some (lease_ExpiresAt l, off')" and v: "validateLease l"
    using assms by (auto simp: decodeLease_def bind_eq_Some_conv Let_def split: if_splits)
  then show "validateLease l" and "time_ok (lease_ExpiresAt l)"
    using readTime_storable [OF t] by (simp_all add: storable_time_def)
qed

end
