(* ===== verification/Lease_Service.thy ===== *)
theory Lease_Service
  imports Store_Lease
begin

text \<open>
  What a lease service promises, and that the store provides it. The specification is a table
  from keys to leases and the four ways it may change at a time \<open>now\<close>; a client lemma proved from
  it says that a live lease is undisturbed by everybody but its holder. The store's methods are
  shown to follow the table, and its loss signals to follow the persisted lease.
\<close>

section \<open>Specification\<close>

type_synonym lease_table = "LeaseKey \<Rightarrow> Lease option"

datatype lease_event =
    Granted Lease
  | Renewed Lease Lease
  | Released Lease
  | Untouched

inductive table_step :: "time \<Rightarrow> lease_event \<Rightarrow> lease_table \<Rightarrow> lease_table \<Rightarrow> bool" for now where
  grant: "(\<forall>c. T (lease_Key l) = Some c \<longrightarrow> lease_ExpiresAt c \<le> now) \<Longrightarrow> now < lease_ExpiresAt l \<Longrightarrow>
    table_step now (Granted l) T (T(lease_Key l \<mapsto> l))"
| renew: "T (lease_Key l) = Some l \<Longrightarrow> now < lease_ExpiresAt l \<Longrightarrow> lease_Key m = lease_Key l \<Longrightarrow>
    lease_Owner m = lease_Owner l \<Longrightarrow> now < lease_ExpiresAt m \<Longrightarrow>
    table_step now (Renewed l m) T (T(lease_Key l \<mapsto> m))"
| release: "T (lease_Key l) = Some l \<Longrightarrow> now < lease_ExpiresAt l \<Longrightarrow>
    table_step now (Released l) T (T(lease_Key l := None))"
| nothing: "table_step now Untouched T T"

inductive_simps table_step_simps [simp]:
  "table_step now (Granted l) T T'"
  "table_step now (Renewed l m) T T'"
  "table_step now (Released l) T T'"
  "table_step now Untouched T T'"

inductive timed_run ::
  "(time \<Rightarrow> 'ev \<Rightarrow> 's \<Rightarrow> 's \<Rightarrow> bool) \<Rightarrow> (time \<times> 'ev) list \<Rightarrow> 's \<Rightarrow> 's \<Rightarrow> bool" for step where
  run_end: "timed_run step [] s s"
| run_step: "step now ev s s1 \<Longrightarrow> timed_run step evs s1 s2 \<Longrightarrow> timed_run step ((now, ev) # evs) s s2"

text \<open>The holder's own doing: renewing or releasing the lease.\<close>

fun gives_up :: "Lease \<Rightarrow> lease_event \<Rightarrow> bool" where
  "gives_up l (Renewed m _) \<longleftrightarrow> m = l"
| "gives_up l (Released m) \<longleftrightarrow> m = l"
| "gives_up l _ \<longleftrightarrow> False"

locale lease_service =
  fixes state_ok :: "'s \<Rightarrow> bool"
    and holder :: "'s \<Rightarrow> lease_table"
    and step :: "time \<Rightarrow> lease_event \<Rightarrow> 's \<Rightarrow> 's \<Rightarrow> bool"
  assumes step_ok: "state_ok s \<Longrightarrow> step now ev s s' \<Longrightarrow> state_ok s'"
    and step_holder: "state_ok s \<Longrightarrow> step now ev s s' \<Longrightarrow> table_step now ev (holder s) (holder s')"
begin

lemma run_ok: "timed_run step evs s s' \<Longrightarrow> state_ok s \<Longrightarrow> state_ok s'"
  by (induction rule: timed_run.induct) (auto intro: step_ok)

lemma step_undisturbed:
  assumes "state_ok s" and "step now ev s s'" and "holder s (lease_Key l) = Some l"
    and "now < lease_ExpiresAt l" and "\<not> gives_up l ev"
  shows "holder s' (lease_Key l) = Some l" and "ev = Granted m \<Longrightarrow> lease_Key m \<noteq> lease_Key l"
  using step_holder [OF assms(1,2)] assms(3-5) by (cases ev; auto)+

lemma undisturbed:
  assumes "timed_run step evs s s'" and "state_ok s" and "holder s (lease_Key l) = Some l"
    and "\<forall>(now, ev) \<in> set evs. now < lease_ExpiresAt l \<and> \<not> gives_up l ev"
  shows "holder s' (lease_Key l) = Some l"
  using assms
proof (induction rule: timed_run.induct)
  case (run_step now ev s s1 evs s2)
  then have "holder s1 (lease_Key l) = Some l"
    using step_undisturbed(1) [of s now ev s1 l] by simp
  with run_step show ?case using step_ok by simp
qed simp

lemma no_second_grant:
  assumes "timed_run step evs s s'" and "state_ok s" and "holder s (lease_Key l) = Some l"
    and "\<forall>(now, ev) \<in> set evs. now < lease_ExpiresAt l \<and> \<not> gives_up l ev"
    and "(now, Granted m) \<in> set evs"
  shows "lease_Key m \<noteq> lease_Key l"
  using assms
proof (induction rule: timed_run.induct)
  case (run_step now1 ev s s1 evs s2)
  then have "holder s1 (lease_Key l) = Some l" "state_ok s1"
    and "ev = Granted m \<Longrightarrow> lease_Key m \<noteq> lease_Key l"
    using step_undisturbed [of s now1 ev s1 l] step_ok by auto
  with run_step show ?case by auto
qed simp

end

section \<open>The store's table\<close>

definition lease_table :: "'b bolt \<Rightarrow> 'b store_db \<Rightarrow> lease_table" where
  "lease_table B db key = Option.bind (bget B (leasesBucket db) (encodeLeaseKey key)) decodeLease"

text \<open>The bucket as \<open>validateLeasesBucket\<close> accepts it.\<close>

definition leases_ok :: "'b bolt \<Rightarrow> BoltStore \<Rightarrow> 'b store_db \<Rightarrow> bool" where
  "leases_ok B S db \<longleftrightarrow>
     (\<forall>k v. bget B (leasesBucket db) k = Some v \<longrightarrow>
        (\<exists>l. decodeLease v = Some l \<and> lk_Network (lease_Key l) = bs_network S \<and>
             k = encodeLeaseKey (lease_Key l)))"

datatype lease_call =
    CallAcquire LeaseKey bytes duration
  | CallRenew Lease duration
  | CallValidate Lease
  | CallRelease Lease
  | CallClose

fun lease_call_result ::
  "'b bolt \<Rightarrow> BoltStore \<Rightarrow> store_env \<Rightarrow> lease_call \<Rightarrow> 'b store_state \<Rightarrow>
     (store_error + Lease option) \<times> 'b store_state" where
  "lease_call_result B S env (CallAcquire key owner ttl) st = apfst (map_sum id Some) (Acquire B S env key owner ttl st)"
| "lease_call_result B S env (CallRenew l ttl) st = apfst (map_sum id Some) (Renew B S env l ttl st)"
| "lease_call_result B S env (CallValidate l) st = apfst (map_sum id (\<lambda>_. None)) (Validate B S env l st)"
| "lease_call_result B S env (CallRelease l) st = apfst (map_sum id (\<lambda>_. None)) (Release B S env l st)"
| "lease_call_result B S env CallClose st = (Inr None, store_Close st)"

text \<open>What a call does to the table, read off its arguments and its result.\<close>

fun lease_event_of :: "lease_call \<Rightarrow> (store_error + Lease option) \<Rightarrow> lease_event" where
  "lease_event_of (CallAcquire _ _ _) (Inr (Some l)) = Granted l"
| "lease_event_of (CallRenew l _) (Inr (Some m)) = Renewed l m"
| "lease_event_of (CallRelease l) (Inr _) = Released l"
| "lease_event_of _ _ = Untouched"

definition lease_store_step ::
  "'b bolt \<Rightarrow> BoltStore \<Rightarrow> time \<Rightarrow> lease_event \<Rightarrow> 'b store_state \<Rightarrow> 'b store_state \<Rightarrow> bool" where
  "lease_store_step B S now ev st st' \<longleftrightarrow>
     (\<exists>env call r. se_now env = now \<and> lease_call_result B S env call st = (r, st') \<and>
        lease_event_of call r = ev)"

section \<open>The operations follow the table\<close>

lemma time_Add_ok: "time_ok (time_Add t d)"
proof -
  have u: "unix_seconds (s * second + Nanosecond n) = s" for s n
    using Nanosecond_range [of n] by (simp add: unix_seconds_def div_add1_eq second_def)
  have "time_ok ((2 ^ 63 - 1 - unixToInternal) * second + Nanosecond (t + d))"
    and "time_ok ((- (2 ^ 63 - 1) - unixToInternal) * second + Nanosecond (t + d))"
    unfolding time_ok_def u by (simp_all add: unixToInternal_def)
  then show ?thesis
    unfolding time_Add_def Let_def by (auto simp: time_ok_def)
qed

lemma leaseExpiration_ok:
  assumes "leaseExpiration now ttl = (e, True)"
  shows "now < e" and "validRescueTime e" and "time_ok e" and "e = time_Add now ttl"
  using assms by (auto simp: leaseExpiration_def Let_def After_def time_Add_ok split: if_splits)

lemma check_lease_None:
  "check_lease B l now db = None \<longleftrightarrow>
     lease_table B db (lease_Key l) = Some l \<and> now < lease_ExpiresAt l"
  by (auto simp: check_lease_def lease_table_def After_def split: option.splits)

lemma leases_okD:
  assumes "leases_ok B S db" and "bget B (leasesBucket db) (encodeLeaseKey k) = Some v"
  obtains l where "decodeLease v = Some l" "lease_Key l = k" "lk_Network k = bs_network S"
    "lease_table B db k = Some l"
proof -
  from assms obtain l where l: "decodeLease v = Some l" "lk_Network (lease_Key l) = bs_network S"
    "encodeLeaseKey k = encodeLeaseKey (lease_Key l)"
    unfolding leases_ok_def by blast
  then have k: "k = lease_Key l" by simp
  have "lease_table B db k = Some l" using assms(2) l(1) by (simp add: lease_table_def)
  with l k show ?thesis by (intro that) simp_all
qed

lemma lease_table_key:
  assumes "leases_ok B S db" and "lease_table B db k = Some l"
  shows "lease_Key l = k"
proof -
  from assms(2) obtain v where v: "bget B (leasesBucket db) (encodeLeaseKey k) = Some v"
    by (auto simp: lease_table_def bind_eq_Some_conv)
  from leases_okD [OF assms(1) v] obtain m where "lease_Key m = k" "lease_table B db k = Some m" .
  with assms(2) show ?thesis by simp
qed

lemma lease_table_None:
  assumes "leases_ok B S db"
  shows "lease_table B db k = None \<longleftrightarrow> bget B (leasesBucket db) (encodeLeaseKey k) = None"
proof (cases "bget B (leasesBucket db) (encodeLeaseKey k)")
  case (Some v)
  from leases_okD [OF assms this] obtain l where "lease_table B db k = Some l" .
  with Some show ?thesis by simp
qed (simp add: lease_table_def)

lemma put_lease_effect:
  assumes B: "bolt_engine B" and ok: "leases_ok B S db"
    and put: "put_lease B (encodeLeaseKey (lease_Key l)) bs db = Inr (u, db')"
    and l: "decodeLease bs = Some l" and net: "lk_Network (lease_Key l) = bs_network S"
  shows "lease_table B db' = (lease_table B db)(lease_Key l \<mapsto> l)" and "leases_ok B S db'"
proof -
  from put obtain b where b: "bput B (leasesBucket db) (encodeLeaseKey (lease_Key l)) bs = Some b"
    and db': "leasesBucket db' = b"
    by (auto simp: put_lease_def split: option.splits)
  note g = bolt_engine.get_put [OF B b]
  show "lease_table B db' = (lease_table B db)(lease_Key l \<mapsto> l)"
    using l by (auto simp: lease_table_def g db' fun_eq_iff)
  show "leases_ok B S db'"
    using ok l net by (auto simp: leases_ok_def g db')
qed

lemma acquire_tx_effect:
  assumes B: "bolt_engine B" and ok: "leases_ok B S db"
    and tx: "acquire_tx B (lease_Key l) now bs db = Inr (u, db')"
    and l: "decodeLease bs = Some l" and net: "lk_Network (lease_Key l) = bs_network S"
    and e: "now < lease_ExpiresAt l"
  shows "table_step now (Granted l) (lease_table B db) (lease_table B db')" and "leases_ok B S db'"
proof -
  from tx have put: "put_lease B (encodeLeaseKey (lease_Key l)) bs db = Inr (u, db')"
    and free: "\<forall>c. lease_table B db (lease_Key l) = Some c \<longrightarrow> lease_ExpiresAt c \<le> now"
    by (auto simp: acquire_tx_def lease_table_def Let_def After_def split: option.splits if_splits)
  show "leases_ok B S db'" and "table_step now (Granted l) (lease_table B db) (lease_table B db')"
    using put_lease_effect [OF B ok put l net] free e by simp_all
qed

lemma release_tx_effect:
  assumes B: "bolt_engine B" and ok: "leases_ok B S db"
    and tx: "release_tx B l now db = Inr (u, db')"
  shows "table_step now (Released l) (lease_table B db) (lease_table B db')" and "leases_ok B S db'"
proof -
  from tx obtain b where c: "check_lease B l now db = None"
    and b: "bdel B (leasesBucket db) (encodeLeaseKey (lease_Key l)) = Some b" and db': "leasesBucket db' = b"
    by (auto simp: release_tx_def split: option.splits)
  note g = bolt_engine.get_del [OF B b]
  have "lease_table B db' = (lease_table B db)(lease_Key l := None)"
    by (auto simp: lease_table_def g db' fun_eq_iff)
  then show "table_step now (Released l) (lease_table B db) (lease_table B db')"
    using c by (simp add: check_lease_None)
  show "leases_ok B S db'"
    using ok by (auto simp: leases_ok_def g db' split: if_splits)
qed

text \<open>How each method can end: refused with the database unchanged, or done.\<close>

lemma Acquire_cases:
  assumes "Acquire B S env key owner ttl st = (r, st')"
  obtains (refused) e where "r = Inl e" "st_db st' = st_db st"
      "st_signals st' = st_signals st \<or> st_signals st' = closeLeaseKeySignals key (st_signals st)"
  | (granted) l bs u where "r = Inr l" "lease_Key l = key" "lease_Owner l = owner"
      "leaseExpiration (se_now env) ttl = (lease_ExpiresAt l, True)" "encodeLease l = Some bs"
      "lk_Network key = bs_network S" "acquire_tx B key (se_now env) bs (st_db st) = Inr (u, st_db st')"
      "st_signals st' = replaceLeaseSignal l (st_signals st)" "store_begin env st = None"
proof -
  obtain e ok where ex: "leaseExpiration (se_now env) ttl = (e, ok)" by fastforce
  define l where "l = \<lparr>lease_Key = key, lease_Owner = owner, lease_ExpiresAt = e\<rparr>"
  show ?thesis
  proof (cases "encodeLease l = None \<or> \<not> ok \<or> lk_Network key \<noteq> bs_network S \<or> store_begin env st \<noteq> None")
    case True
    then have "\<exists>e. r = Inl e \<and> st' = st"
      using assms ex by (auto simp: Acquire_def Let_def l_def split: option.splits if_splits)
    then show ?thesis using refused by blast
  next
    case False
    then obtain bs where bs: "encodeLease l = Some bs" by auto
    show ?thesis
    proof (cases rule: store_update_cases [of env "acquire_tx B key (se_now env) bs" "st_db st"])
      case (rollback x)
      with False bs assms ex have "\<exists>e. r = Inl e \<and> st_db st' = st_db st \<and>
          (st_signals st' = st_signals st \<or> st_signals st' = closeLeaseKeySignals key (st_signals st))"
        by (auto simp: Acquire_def Let_def l_def)
      then show ?thesis using refused by blast
    next
      case (commit u db')
      with False bs assms ex have "r = Inr l"
        "st' = st\<lparr>st_db := db', st_signals := replaceLeaseSignal l (st_signals st)\<rparr>"
        by (auto simp: Acquire_def Let_def l_def)
      with commit False bs ex show ?thesis
        using granted [of l bs u] by (simp add: l_def)
    qed
  qed
qed

lemma Renew_cases:
  assumes "Renew B S env l ttl st = (r, st')"
  obtains (refused) e where "r = Inl e" "st_db st' = st_db st"
      "st_signals st' = st_signals st \<or> st_signals st' = closeLeaseSignal l (st_signals st)"
  | (renewed) m bs u where "r = Inr m" "lease_Key m = lease_Key l" "lease_Owner m = lease_Owner l"
      "leaseExpiration (se_now env) ttl = (lease_ExpiresAt m, True)" "encodeLease m = Some bs"
      "lk_Network (lease_Key l) = bs_network S" "renew_tx B l (se_now env) bs (st_db st) = Inr (u, st_db st')"
      "st_signals st' = (if m = l then st_signals st else replaceLeaseSignal m (st_signals st))"
proof -
  obtain e ok where ex: "leaseExpiration (se_now env) ttl = (e, ok)" by fastforce
  define m where "m = l\<lparr>lease_ExpiresAt := e\<rparr>"
  show ?thesis
  proof (cases "encodeLease m = None \<or> \<not> ok \<or> lk_Network (lease_Key l) \<noteq> bs_network S \<or> store_begin env st \<noteq> None")
    case True
    then have "\<exists>e. r = Inl e \<and> st' = st"
      using assms ex by (auto simp: Renew_def Let_def m_def split: option.splits if_splits)
    then show ?thesis using refused by blast
  next
    case False
    then obtain bs where bs: "encodeLease m = Some bs" by auto
    show ?thesis
    proof (cases rule: store_update_cases [of env "renew_tx B l (se_now env) bs" "st_db st"])
      case (rollback x)
      with False bs assms ex have "\<exists>e. r = Inl e \<and> st_db st' = st_db st \<and>
          (st_signals st' = st_signals st \<or> st_signals st' = closeLeaseSignal l (st_signals st))"
        by (auto simp: Renew_def Let_def m_def)
      then show ?thesis using refused by blast
    next
      case (commit u db')
      with False bs assms ex have "r = Inr m" "st_db st' = db'"
        "st_signals st' = (if m = l then st_signals st else replaceLeaseSignal m (st_signals st))"
        by (auto simp: Renew_def Let_def m_def split: if_splits)
      with commit False bs ex show ?thesis
        using renewed [of m bs u] by (simp add: m_def)
    qed
  qed
qed

lemma Validate_effect:
  assumes "Validate B S env l st = (r, st')"
  shows "st_db st' = st_db st"
    and "st_signals st' = st_signals st \<or> st_signals st' = closeLeaseSignal l (st_signals st)"
    and "r = Inr u \<Longrightarrow> check_lease B l (se_now env) (st_db st) = None"
  using assms
  by (auto simp: Validate_def store_view_def Let_def split: if_splits option.splits sum.splits)

lemma Release_cases:
  assumes "Release B S env l st = (r, st')"
  obtains (refused) e where "r = Inl e" "st_db st' = st_db st"
      "st_signals st' = st_signals st \<or> st_signals st' = closeLeaseSignal l (st_signals st)"
  | (released) u where "r = Inr ()" "release_tx B l (se_now env) (st_db st) = Inr (u, st_db st')"
      "st_signals st' = closeLeaseSignal l (st_signals st)"
proof (cases "\<not> validateLease l \<or> lk_Network (lease_Key l) \<noteq> bs_network S \<or> store_begin env st \<noteq> None")
  case True
  then have "\<exists>e. r = Inl e \<and> st' = st"
    using assms by (auto simp: Release_def Let_def split: option.splits if_splits)
  then show ?thesis using refused by blast
next
  case False
  show ?thesis
  proof (cases rule: store_update_cases [of env "release_tx B l (se_now env)" "st_db st"])
    case (rollback x)
    with False assms have "\<exists>e. r = Inl e \<and> st_db st' = st_db st \<and>
        (st_signals st' = st_signals st \<or> st_signals st' = closeLeaseSignal l (st_signals st))"
      by (auto simp: Release_def Let_def)
    then show ?thesis using refused by blast
  next
    case (commit u db')
    with False assms have "r = Inr ()" "st_db st' = db'" "st_signals st' = closeLeaseSignal l (st_signals st)"
      by (auto simp: Release_def Let_def)
    with commit show ?thesis using released [of u] by simp
  qed
qed

lemma Acquire_step:
  assumes B: "bolt_engine B" and ok: "leases_ok B S (st_db st)"
    and call: "Acquire B S env key owner ttl st = (r, st')"
  shows "leases_ok B S (st_db st') \<and>
    table_step (se_now env) (lease_event_of (CallAcquire key owner ttl) (map_sum id Some r))
      (lease_table B (st_db st)) (lease_table B (st_db st'))"
  using call
proof (cases rule: Acquire_cases)
  case (refused e)
  with ok show ?thesis by simp
next
  case (granted l bs u)
  note ex = leaseExpiration_ok [OF granted(4)]
  have "decodeLease bs = Some l"
    by (rule decode_encode_lease [OF granted(5) ex(3)])
  with acquire_tx_effect [OF B ok, of l "se_now env" bs u "st_db st'"] granted ex(1)
  show ?thesis by simp
qed

lemma Renew_step:
  assumes B: "bolt_engine B" and ok: "leases_ok B S (st_db st)"
    and call: "Renew B S env l ttl st = (r, st')"
  shows "leases_ok B S (st_db st') \<and>
    table_step (se_now env) (lease_event_of (CallRenew l ttl) (map_sum id Some r))
      (lease_table B (st_db st)) (lease_table B (st_db st'))"
  using call
proof (cases rule: Renew_cases)
  case (refused e)
  with ok show ?thesis by simp
next
  case (renewed m bs u)
  note ex = leaseExpiration_ok [OF renewed(4)]
  have m: "decodeLease bs = Some m"
    by (rule decode_encode_lease [OF renewed(5) ex(3)])
  from renewed(7) have c: "check_lease B l (se_now env) (st_db st) = None"
    and put: "put_lease B (encodeLeaseKey (lease_Key m)) bs (st_db st) = Inr (u, st_db st')"
    by (auto simp: renew_tx_def renewed(2) split: option.splits)
  from put_lease_effect [OF B ok put m] renewed(2,6)
  show ?thesis
    using renewed(1,2,3) ex(1) c by (auto simp: check_lease_None)
qed

lemma Release_step:
  assumes B: "bolt_engine B" and ok: "leases_ok B S (st_db st)"
    and call: "Release B S env l st = (r, st')"
  shows "leases_ok B S (st_db st') \<and>
    table_step (se_now env) (lease_event_of (CallRelease l) (map_sum id (\<lambda>_. None) r))
      (lease_table B (st_db st)) (lease_table B (st_db st'))"
  using call
proof (cases rule: Release_cases)
  case (refused e)
  with ok show ?thesis by simp
next
  case (released u)
  with release_tx_effect [OF B ok released(2)] show ?thesis by simp
qed

lemma lease_call_step:
  assumes B: "bolt_engine B" and ok: "leases_ok B S (st_db st)"
    and call: "lease_call_result B S env c st = (r, st')"
  shows "leases_ok B S (st_db st') \<and>
    table_step (se_now env) (lease_event_of c r) (lease_table B (st_db st)) (lease_table B (st_db st'))"
proof (cases c)
  case (CallAcquire key owner ttl)
  obtain q where "Acquire B S env key owner ttl st = (q, st')" "r = map_sum id Some q"
    using call CallAcquire by (cases "Acquire B S env key owner ttl st") auto
  with Acquire_step [OF B ok this(1)] CallAcquire show ?thesis by simp
next
  case (CallRenew l ttl)
  obtain q where "Renew B S env l ttl st = (q, st')" "r = map_sum id Some q"
    using call CallRenew by (cases "Renew B S env l ttl st") auto
  with Renew_step [OF B ok this(1)] CallRenew show ?thesis by simp
next
  case (CallValidate l)
  obtain q where "Validate B S env l st = (q, st')" "r = map_sum id (\<lambda>_. None) q"
    using call CallValidate by (cases "Validate B S env l st") auto
  with Validate_effect(1) [OF this(1)] CallValidate ok show ?thesis by simp
next
  case (CallRelease l)
  obtain q where "Release B S env l st = (q, st')" "r = map_sum id (\<lambda>_. None) q"
    using call CallRelease by (cases "Release B S env l st") auto
  with Release_step [OF B ok this(1)] CallRelease show ?thesis by simp
next
  case CallClose
  with call ok show ?thesis by (auto simp: store_Close_def)
qed

lemma store_is_lease_service:
  assumes "bolt_engine B"
  shows "lease_service (\<lambda>st. leases_ok B S (st_db st)) (\<lambda>st. lease_table B (st_db st)) (lease_store_step B S)"
  by unfold_locales (auto simp: lease_store_step_def dest: lease_call_step [OF assms])

interpretation bolt_leases: lease_service "\<lambda>st. leases_ok list_bolt S (st_db st)"
    "\<lambda>st. lease_table list_bolt (st_db st)" "lease_store_step list_bolt S" for S
  by (rule store_is_lease_service) (rule reference_engine.bolt_engine_axioms)

section \<open>Loss signals\<close>

text \<open>
  A signal is open only for the lease that is persisted under its key, and a channel that was
  handed out for a lease stays the channel of that lease until it is closed.
\<close>

definition signals_of :: "lease_signals \<Rightarrow> lease_table \<Rightarrow> bool" where
  "signals_of s T \<longleftrightarrow>
     (\<forall>e \<in> set (leaseLoss s). \<exists>l. T (lid_key (fst e)) = Some l \<and> leaseSignalIdentity l = fst e)"

definition signals_wf :: "lease_signals \<Rightarrow> bool" where
  "signals_wf s \<longleftrightarrow> closedLease \<in> set (closedChannels s) \<and> distinct (map fst (leaseLoss s))"

definition tracked :: "leaseIdentity \<Rightarrow> nat \<Rightarrow> lease_signals \<Rightarrow> bool" where
  "tracked i c s \<longleftrightarrow> c \<in> set (closedChannels s) \<or> map_of (leaseLoss s) i = Some c"

lemma identity_key [simp]: "lid_key (leaseSignalIdentity l) = lease_Key l"
  by (simp add: leaseSignalIdentity_def)

lemma leaseSignalIdentity_inject:
  assumes "time_ok (lease_ExpiresAt l)" and "time_ok (lease_ExpiresAt m)"
  shows "leaseSignalIdentity l = leaseSignalIdentity m \<longleftrightarrow> l = m"
proof
  assume e: "leaseSignalIdentity l = leaseSignalIdentity m"
  then have "Unix (lease_ExpiresAt l) = Unix (lease_ExpiresAt m)"
    and "Nanosecond (lease_ExpiresAt l) = Nanosecond (lease_ExpiresAt m)"
    by (simp_all only: leaseSignalIdentity_def leaseIdentity.ext_inject)
  then have "lease_ExpiresAt l = lease_ExpiresAt m"
    using timeUnix_Unix assms by metis
  with e show "l = m" by (cases l; cases m) (simp add: leaseSignalIdentity_def)
qed simp

lemma signals_of_close: "signals_of s T \<Longrightarrow> signals_of (close_signals P s) T"
  by (auto simp: signals_of_def close_signals_def)

lemma signals_of_replace: "signals_of s T \<Longrightarrow> signals_of (replaceLeaseSignal l s) (T(lease_Key l \<mapsto> l))"
  by (auto simp: signals_of_def replaceLeaseSignal_def close_signals_def Let_def)

lemma signals_of_release:
  assumes s: "signals_of s T" and l: "T (lease_Key l) = Some l"
  shows "signals_of (closeLeaseSignal l s) (T(lease_Key l := None))"
  unfolding signals_of_def
proof
  fix e
  assume "e \<in> set (leaseLoss (closeLeaseSignal l s))"
  then have i: "e \<in> set (leaseLoss s)" "fst e \<noteq> leaseSignalIdentity l"
    by (simp_all add: closeLeaseSignal_def close_signals_def)
  from s i(1) obtain m where m: "T (lid_key (fst e)) = Some m" "leaseSignalIdentity m = fst e"
    unfolding signals_of_def by blast
  have "lid_key (fst e) \<noteq> lease_Key l"
  proof
    assume "lid_key (fst e) = lease_Key l"
    with m(1) l have "m = l" by simp
    with m(2) i(2) show False by simp
  qed
  with m show "\<exists>m. (T(lease_Key l := None)) (lid_key (fst e)) = Some m \<and> leaseSignalIdentity m = fst e"
    by (intro exI [of _ m]) simp
qed

lemma signals_wf_close: "signals_wf s \<Longrightarrow> signals_wf (close_signals P s)"
  by (auto simp: signals_wf_def close_signals_def distinct_map_filter)

lemma signals_wf_replace: "signals_wf s \<Longrightarrow> signals_wf (replaceLeaseSignal l s)"
  by (auto simp: signals_wf_def replaceLeaseSignal_def close_signals_def distinct_map_filter Let_def)

lemma map_of_filter_key: "map_of (filter (\<lambda>e. P (fst e)) xs) k = (if P k then map_of xs k else None)"
  by (induction xs) auto

lemma tracked_close:
  assumes "tracked i c s"
  shows "tracked i c (close_signals P s)"
proof (cases "c \<in> set (closedChannels s) \<or> \<not> P i")
  case True
  with assms show ?thesis
    by (auto simp: tracked_def close_signals_def map_of_filter_key [of "\<lambda>j. \<not> P j"])
next
  case False
  with assms have "(i, c) \<in> set (leaseLoss s)" "P i"
    by (auto simp: tracked_def dest: map_of_SomeD)
  then show ?thesis
    by (force simp: tracked_def close_signals_def)
qed

lemma tracked_replace:
  assumes "tracked i c s"
  shows "tracked i c (replaceLeaseSignal l s)"
proof -
  define s1 where "s1 = close_signals (\<lambda>e. lid_key e = lease_Key l) s"
  have t: "tracked i c s1"
    unfolding s1_def by (rule tracked_close [OF assms])
  have "i = leaseSignalIdentity l \<Longrightarrow> map_of (leaseLoss s1) i = None"
    by (simp add: s1_def close_signals_def map_of_filter_key [of "\<lambda>j. lid_key j \<noteq> lease_Key l"])
  with t show ?thesis
    by (auto simp: tracked_def replaceLeaseSignal_def Let_def s1_def [symmetric])
qed

lemmas close_defs = closeLeaseSignal_def closeLeaseKeySignals_def closeAllLeaseSignals_def

definition signal_step :: "lease_signals \<Rightarrow> lease_signals \<Rightarrow> bool" where
  "signal_step s s' \<longleftrightarrow> s' = s \<or> (\<exists>P. s' = close_signals P s) \<or> (\<exists>l. s' = replaceLeaseSignal l s)"

lemma signal_step_wf: "signal_step s s' \<Longrightarrow> signals_wf s \<Longrightarrow> signals_wf s'"
  by (auto simp: signal_step_def signals_wf_close signals_wf_replace)

lemma signal_step_tracked: "signal_step s s' \<Longrightarrow> tracked i c s \<Longrightarrow> tracked i c s'"
  by (auto simp: signal_step_def tracked_close tracked_replace)

lemma Acquire_signals:
  assumes B: "bolt_engine B" and ok: "leases_ok B S (st_db st)"
    and call: "Acquire B S env key owner ttl st = (r, st')"
    and s: "signals_of (st_signals st) (lease_table B (st_db st))"
  shows "signal_step (st_signals st) (st_signals st') \<and> signals_of (st_signals st') (lease_table B (st_db st'))"
  using call
proof (cases rule: Acquire_cases)
  case (refused e)
  with s show ?thesis
    by (auto simp: signal_step_def close_defs signals_of_close)
next
  case (granted l bs u)
  with Acquire_step [OF B ok call] have "lease_table B (st_db st') = (lease_table B (st_db st))(lease_Key l \<mapsto> l)"
    by simp
  with granted s show ?thesis
    by (auto simp: signal_step_def signals_of_replace)
qed

lemma Renew_signals:
  assumes B: "bolt_engine B" and ok: "leases_ok B S (st_db st)"
    and call: "Renew B S env l ttl st = (r, st')"
    and s: "signals_of (st_signals st) (lease_table B (st_db st))"
  shows "signal_step (st_signals st) (st_signals st') \<and> signals_of (st_signals st') (lease_table B (st_db st'))"
  using call
proof (cases rule: Renew_cases)
  case (refused e)
  with s show ?thesis
    by (auto simp: signal_step_def close_defs signals_of_close)
next
  case (renewed m bs u)
  with Renew_step [OF B ok call] have t: "lease_table B (st_db st) (lease_Key l) = Some l"
    and "lease_table B (st_db st') = (lease_table B (st_db st))(lease_Key m \<mapsto> m)"
    by simp_all
  moreover have "(lease_table B (st_db st))(lease_Key l \<mapsto> l) = lease_table B (st_db st)"
    using t by auto
  ultimately show ?thesis
    using renewed s signals_of_replace [OF s, of m] by (auto simp: signal_step_def)
qed

lemma Release_signals:
  assumes B: "bolt_engine B" and ok: "leases_ok B S (st_db st)"
    and call: "Release B S env l st = (r, st')"
    and s: "signals_of (st_signals st) (lease_table B (st_db st))"
  shows "signal_step (st_signals st) (st_signals st') \<and> signals_of (st_signals st') (lease_table B (st_db st'))"
  using call
proof (cases rule: Release_cases)
  case (refused e)
  with s show ?thesis
    by (auto simp: signal_step_def close_defs signals_of_close)
next
  case (released u)
  with Release_step [OF B ok call] have "lease_table B (st_db st) (lease_Key l) = Some l"
    and "lease_table B (st_db st') = (lease_table B (st_db st))(lease_Key l := None)"
    by simp_all
  with released signals_of_release [OF s] show ?thesis
    by (auto simp: signal_step_def closeLeaseSignal_def)
qed

lemma lease_call_signals:
  assumes B: "bolt_engine B" and ok: "leases_ok B S (st_db st)"
    and call: "lease_call_result B S env c st = (r, st')"
    and s: "signals_of (st_signals st) (lease_table B (st_db st))"
  shows "signal_step (st_signals st) (st_signals st') \<and> signals_of (st_signals st') (lease_table B (st_db st'))"
proof (cases c)
  case (CallAcquire key owner ttl)
  with call Acquire_signals [OF B ok _ s] show ?thesis
    by (cases "Acquire B S env key owner ttl st") auto
next
  case (CallRenew l ttl)
  with call Renew_signals [OF B ok _ s] show ?thesis
    by (cases "Renew B S env l ttl st") auto
next
  case (CallValidate l)
  with call obtain q where "Validate B S env l st = (q, st')" by (cases "Validate B S env l st") auto
  from Validate_effect(1,2) [OF this] s show ?thesis
    by (auto simp: signal_step_def close_defs signals_of_close)
next
  case (CallRelease l)
  with call Release_signals [OF B ok _ s] show ?thesis
    by (cases "Release B S env l st") auto
next
  case CallClose
  with call s show ?thesis
    by (auto simp: store_Close_def signal_step_def close_defs signals_of_close)
qed

section \<open>Sequences of calls\<close>

fun lease_calls :: "'b bolt \<Rightarrow> BoltStore \<Rightarrow> (store_env \<times> lease_call) list \<Rightarrow> 'b store_state \<Rightarrow> 'b store_state" where
  "lease_calls B S [] st = st"
| "lease_calls B S ((env, c) # cs) st = lease_calls B S cs (snd (lease_call_result B S env c st))"

fun lease_events ::
  "'b bolt \<Rightarrow> BoltStore \<Rightarrow> (store_env \<times> lease_call) list \<Rightarrow> 'b store_state \<Rightarrow> (time \<times> lease_event) list" where
  "lease_events B S [] st = []"
| "lease_events B S ((env, c) # cs) st =
     (se_now env, lease_event_of c (fst (lease_call_result B S env c st))) #
     lease_events B S cs (snd (lease_call_result B S env c st))"

lemma lease_calls_run: "timed_run (lease_store_step B S) (lease_events B S cs st) st (lease_calls B S cs st)"
proof (induction cs arbitrary: st)
  case (Cons p cs)
  obtain env c where p: "p = (env, c)" by fastforce
  have "lease_store_step B S (se_now env) (lease_event_of c (fst (lease_call_result B S env c st))) st
      (snd (lease_call_result B S env c st))"
    unfolding lease_store_step_def by (metis prod.collapse)
  with Cons.IH show ?case by (simp add: p run_step)
qed (simp add: run_end)

lemma gives_up_call:
  "gives_up l (lease_event_of c r) \<Longrightarrow> c = CallRelease l \<or> (\<exists>ttl. c = CallRenew l ttl)"
  by (cases "(c, r)" rule: lease_event_of.cases) auto

lemma quiet_events:
  assumes "\<forall>(env, c) \<in> set cs. se_now env < t \<and> c \<noteq> CallRelease l \<and> (\<forall>ttl. c \<noteq> CallRenew l ttl)"
  shows "\<forall>(now, ev) \<in> set (lease_events B S cs st). now < t \<and> \<not> gives_up l ev"
  using assms
proof (induction cs arbitrary: st)
  case (Cons p cs)
  obtain env c where p: "p = (env, c)" by fastforce
  with Cons.prems have "\<not> gives_up l (lease_event_of c r)" for r
    using gives_up_call by fastforce
  with Cons p show ?case by simp
qed simp

lemma lease_calls_inv:
  assumes B: "bolt_engine B" and "leases_ok B S (st_db st)"
    and "signals_wf (st_signals st)" and "signals_of (st_signals st) (lease_table B (st_db st))"
    and "tracked i ch (st_signals st)"
  shows "let st' = lease_calls B S cs st in leases_ok B S (st_db st') \<and> signals_wf (st_signals st') \<and>
    signals_of (st_signals st') (lease_table B (st_db st')) \<and> tracked i ch (st_signals st')"
  using assms(2-5)
proof (induction cs arbitrary: st)
  case (Cons p cs)
  obtain env c where p: "p = (env, c)" by fastforce
  obtain r st1 where r: "lease_call_result B S env c st = (r, st1)" by fastforce
  from lease_call_signals [OF B Cons.prems(1) r Cons.prems(3)] lease_call_step [OF B Cons.prems(1) r]
  have "leases_ok B S (st_db st1)" "signals_wf (st_signals st1)"
    "signals_of (st_signals st1) (lease_table B (st_db st1))" "tracked i ch (st_signals st1)"
    using Cons.prems signal_step_wf signal_step_tracked by blast+
  from Cons.IH [OF this] show ?case by (simp add: p r)
qed simp

end
