(* ===== verification/Store_Example.thy ===== *)
theory Store_Example
  imports Lease_Service
begin

text \<open>
  A concrete store on which the hypotheses of the store's properties are evaluated: the reference
  engine, a newly created database, and one lease granted on it.
\<close>

definition example_store :: BoltStore where
  "example_store = \<lparr>bs_network = 1, bs_source = 3, bs_sponsor = 7, bs_destination = 5, bs_rescuer = 9,
     bs_maxPending = 10, bs_journalCapacity = 100000, bs_maxDiscoveredTokens = 10, bs_policyFingerprint = 0\<rparr>"

definition live_env :: "time \<Rightarrow> store_env" where
  "live_env now = \<lparr>se_ctx = (\<lambda>_. CtxLive), se_now = now, se_commit = True\<rparr>"

definition start :: time where "start = 1700000000 * second"

definition new_db :: "'b \<Rightarrow> 'b store_db" where
  "new_db b = \<lparr>metaBucket = b, candidatesBucket = b, pendingBucket = b, readyOrderBucket = b,
     blockIndexBucket = b, incidentsBucket = b, blocksBucket = b, discoveredBucket = b,
     tombstonesBucket = b, rescueStateBucket = b, leasesBucket = b\<rparr>"

definition new_state :: "'b \<Rightarrow> 'b store_state" where
  "new_state b = \<lparr>st_db = new_db b, st_closed = False, st_wakes = 0,
     st_signals = \<lparr>leaseLoss = [], closedChannels = [closedLease], nextChannel = 1\<rparr>\<rparr>"

definition example_key :: LeaseKey where "example_key = \<lparr>lk_Network = 1, lk_Sponsor = 7\<rparr>"

definition example_lease :: Lease where
  "example_lease = \<lparr>lease_Key = example_key, lease_Owner = [97], lease_ExpiresAt = start + 60 * second\<rparr>"

definition held_state :: "ordered_bucket store_state" where
  "held_state = snd (Acquire list_bolt example_store (live_env start) example_key [97] (60 * second) (new_state ob_empty))"

lemma list_engine: "bolt_engine list_bolt"
  by (rule reference_engine.bolt_engine_axioms)

lemma list_engine_live: "bolt_engine_live list_bolt"
  by (rule reference_engine.bolt_engine_live_axioms)

lemma new_leases_ok: "leases_ok list_bolt S (st_db (new_state ob_empty))"
  by (simp add: leases_ok_def new_state_def new_db_def list_bolt_def)

lemma example_granted:
  "fst (Acquire list_bolt example_store (live_env start) example_key [97] (60 * second) (new_state ob_empty)) =
     Inr example_lease"
  by code_simp

lemma example_acquired:
  "Acquire list_bolt example_store (live_env start) example_key [97] (60 * second) (new_state ob_empty) =
     (Inr example_lease, held_state)"
  using example_granted unfolding held_state_def by (metis prod.collapse)

lemma held_leases_ok: "leases_ok list_bolt example_store (st_db held_state)"
  using Acquire_step [OF list_engine new_leases_ok example_acquired] by simp

lemma held_table: "lease_table list_bolt (st_db held_state) example_key = Some example_lease"
  by code_simp

lemma example_times: "se_now (live_env t) = t" "se_ctx (live_env t) n = CtxLive" "se_commit (live_env t)"
  by (simp_all add: live_env_def)

lemma held_open: "st_closed held_state = False"
  by code_simp

end
