(* ===== verification/Lease_Properties.thy ===== *)
theory Lease_Properties
  imports Lease_Service Store_Example
begin

text \<open>
  The properties of the lease: the record's round trip, exact outcomes of acquiring, exclusion
  over arbitrary sequences of calls, the loss signals, and that a bucket the store wrote is
  accepted when the database is opened again.
\<close>

section \<open>Lemmas\<close>

lemma validateLeaseEntry_ok:
  "validateLeaseEntry S u e = Inr () \<longleftrightarrow>
     (\<exists>l. decodeLease (snd e) = Some l \<and> lk_Network (lease_Key l) = bs_network S \<and>
          fst e = encodeLeaseKey (lease_Key l))"
  by (auto simp: validateLeaseEntry_def split: option.splits)

lemma split_paired_Ball_set: "(\<forall>e \<in> A. P (fst e) (snd e)) \<longleftrightarrow> (\<forall>k v. (k, v) \<in> A \<longrightarrow> P k v)"
  by force

lemma validateLeasesBucket_ok:
  assumes "bolt_engine (bkv Q)"
  shows "validateLeasesBucket Q S db = Inr () \<longleftrightarrow>
    bseq Q (leasesBucket db) = 0 \<and> leases_ok (bkv Q) S db"
proof -
  have "leases_ok (bkv Q) S db \<longleftrightarrow>
      (\<forall>e \<in> set (bentries (bkv Q) (leasesBucket db)). validateLeaseEntry S () e = Inr ())"
    unfolding leases_ok_def validateLeaseEntry_ok bolt_engine.entry_get [OF assms, symmetric]
    by (rule split_paired_Ball_set [symmetric])
  then show ?thesis
    by (simp add: validateLeasesBucket_def foldE_unit)
qed

lemma put_lease_seq: "seq_engine Q \<Longrightarrow> put_lease (bkv Q) k v db = Inr (u, db') \<Longrightarrow>
    bseq Q (leasesBucket db') = bseq Q (leasesBucket db)"
  by (auto simp: put_lease_def seq_engine.seq_put split: option.splits)

lemma release_tx_seq:
  assumes "seq_engine Q" and "release_tx (bkv Q) l now db = Inr (u, db')"
  shows "bseq Q (leasesBucket db') = bseq Q (leasesBucket db)"
proof -
  from assms(2) obtain b where "bdel (bkv Q) (leasesBucket db) (encodeLeaseKey (lease_Key l)) = Some b"
    "leasesBucket db' = b"
    by (auto simp: release_tx_def split: option.splits)
  with seq_engine.seq_del [OF assms(1)] show ?thesis by simp
qed

lemma lease_call_seq:
  assumes Q: "seq_engine Q" and call: "lease_call_result (bkv Q) S env c st = (r, st')"
  shows "bseq Q (leasesBucket (st_db st')) = bseq Q (leasesBucket (st_db st))"
proof (cases c)
  case (CallAcquire key owner ttl)
  then obtain q where "Acquire (bkv Q) S env key owner ttl st = (q, st')"
    using call by (cases "Acquire (bkv Q) S env key owner ttl st") auto
  then show ?thesis
    by (cases rule: Acquire_cases)
      (auto simp: acquire_tx_def Let_def dest: put_lease_seq [OF Q] split: option.splits if_splits)
next
  case (CallRenew l ttl)
  then obtain q where "Renew (bkv Q) S env l ttl st = (q, st')"
    using call by (cases "Renew (bkv Q) S env l ttl st") auto
  then show ?thesis
    by (cases rule: Renew_cases) (auto simp: renew_tx_def dest: put_lease_seq [OF Q] split: option.splits)
next
  case (CallValidate l)
  then obtain q where "Validate (bkv Q) S env l st = (q, st')"
    using call by (cases "Validate (bkv Q) S env l st") auto
  from Validate_effect(1) [OF this] show ?thesis by simp
next
  case (CallRelease l)
  then obtain q where "Release (bkv Q) S env l st = (q, st')"
    using call by (cases "Release (bkv Q) S env l st") auto
  then show ?thesis
    by (cases rule: Release_cases) (auto dest: release_tx_seq [OF Q])
next
  case CallClose
  with call show ?thesis by (auto simp: store_Close_def)
qed

lemma lease_calls_seq:
  assumes "seq_engine Q"
  shows "bseq Q (leasesBucket (st_db (lease_calls (bkv Q) S cs st))) = bseq Q (leasesBucket (st_db st))"
proof (induction cs arbitrary: st)
  case (Cons p cs)
  obtain env c where p: "p = (env, c)" by fastforce
  obtain r st1 where "lease_call_result (bkv Q) S env c st = (r, st1)" by fastforce
  with lease_call_seq [OF assms this] Cons.IH show ?case by (simp add: p)
qed simp

lemma lease_calls_ok:
  assumes "bolt_engine B" and "leases_ok B S (st_db st)"
  shows "leases_ok B S (st_db (lease_calls B S cs st))"
  by (rule lease_service.run_ok [OF store_is_lease_service [OF assms(1)] lease_calls_run assms(2)])

text \<open>What \<open>Acquire\<close> and \<open>Validate\<close> say of the table.\<close>

lemma Acquire_success_free:
  assumes "bolt_engine B" and "leases_ok B S (st_db st)"
    and "Acquire B S env key owner ttl st = (Inr m, st')"
  shows "\<forall>c. lease_table B (st_db st) key = Some c \<longrightarrow> lease_ExpiresAt c \<le> se_now env"
    and "lease_Key m = key"
proof -
  show k: "lease_Key m = key"
    using assms(3) by (cases rule: Acquire_cases) auto
  show "\<forall>c. lease_table B (st_db st) key = Some c \<longrightarrow> lease_ExpiresAt c \<le> se_now env"
    using Acquire_step [OF assms] k by simp
qed

lemma Validate_success:
  assumes "Validate B S env l st = (Inr (), st')"
  shows "lease_table B (st_db st) (lease_Key l) = Some l" and "se_now env < lease_ExpiresAt l"
  using Validate_effect(3) [OF assms refl] by (simp_all add: check_lease_None)

lemma Validate_live:
  assumes "lease_table B (st_db st) (lease_Key l) = Some l" and "se_now env < lease_ExpiresAt l"
    and "leases_ok B S (st_db st)" and "se_ctx env 0 = CtxLive" and "se_ctx env 1 = CtxLive"
    and "\<not> st_closed st"
  shows "Validate B S env l st = (Inr (), st)"
proof -
  from assms(1) obtain v where v: "bget B (leasesBucket (st_db st)) (encodeLeaseKey (lease_Key l)) = Some v"
    "decodeLease v = Some l"
    by (auto simp: lease_table_def bind_eq_Some_conv)
  from leases_okD [OF assms(3) v(1)] have "lk_Network (lease_Key l) = bs_network S" .
  moreover have "check_lease B l (se_now env) (st_db st) = None"
    using assms(1,2) by (simp add: check_lease_None)
  ultimately show ?thesis
    using decoded_lease [OF v(2)] assms(4-6)
    by (simp add: Validate_def store_begin_def store_view_def store_contextError_def)
qed

lemma acquire_tx_ok:
  assumes ok: "leases_ok B S db"
  shows "acquire_tx B key now bs db =
    (if \<forall>c. lease_table B db key = Some c \<longrightarrow> lease_ExpiresAt c \<le> now
     then put_lease B (encodeLeaseKey key) bs db else Inl ErrLeaseHeld)"
proof (cases "bget B (leasesBucket db) (encodeLeaseKey key)")
  case None
  then show ?thesis by (simp add: acquire_tx_def lease_table_def)
next
  case (Some v)
  from leases_okD [OF ok Some] obtain l where "decodeLease v = Some l" "lease_Key l = key"
    "lease_table B db key = Some l" .
  with Some show ?thesis by (simp add: acquire_tx_def After_def not_less)
qed

lemma put_lease_live:
  assumes "bolt_engine_live B" and "k \<noteq> []" and "length k \<le> 32768" and "length v \<le> 2147483646"
  shows "\<exists>db'. put_lease B k v db = Inr ((), db')"
  using bolt_engine_live.put_ok [OF assms, of "leasesBucket db"] by (auto simp: put_lease_def)

lemma encodeLease_valid:
  assumes "validateLease l"
  obtains bs where "encodeLease l = Some bs" "length bs \<le> 171"
proof -
  from assms obtain bs where bs: "encodeLease l = Some bs" by (simp add: encodeLease_def Let_def)
  with assms have "length bs = 43 + length (lease_Owner l)" "length (lease_Owner l) \<le> 128"
    by (auto simp: encodeLease_def Let_def append_defs time_field.enc_length validateLease_def)
  then have "length bs \<le> 171" by linarith
  with bs show ?thesis by (rule that)
qed

lemma Acquire_held:
  assumes "validateLease l" and "lk_Network (lease_Key l) = bs_network S" and "0 < ttl" and "validRescueTime (se_now env)"
    and "se_now env < lease_ExpiresAt l" and "lease_ExpiresAt l = time_Add (se_now env) ttl"
    and "store_begin env st = None" and "encodeLease l = Some bs"
    and "store_update env (acquire_tx B (lease_Key l) (se_now env) bs) (st_db st) = (Inl ErrLeaseHeld, st_db st)"
  shows "Acquire B S env (lease_Key l) (lease_Owner l) ttl st = (Inl ErrLeaseHeld, st)"
proof -
  have "leaseExpiration (se_now env) ttl = (lease_ExpiresAt l, True)"
    using assms(1,3-6) by (auto simp: leaseExpiration_def Let_def After_def validateLease_def)
  moreover have e: "\<lparr>lease_Key = lease_Key l, lease_Owner = lease_Owner l, lease_ExpiresAt = lease_ExpiresAt l\<rparr> = l"
    by (cases l) simp
  ultimately show ?thesis
    using assms(2,7-9) by (simp add: Acquire_def Let_def store_publicError_def e)
qed

lemma Acquire_request_tx:
  assumes "validateLease l" and "lk_Network (lease_Key l) = bs_network S" and "0 < ttl" and "validRescueTime (se_now env)"
    and "se_now env < lease_ExpiresAt l" and "lease_ExpiresAt l = time_Add (se_now env) ttl"
    and "store_begin env st = None" and "encodeLease l = Some bs"
    and "store_update env (acquire_tx B (lease_Key l) (se_now env) bs) (st_db st) = (Inr (), db')"
  shows "Acquire B S env (lease_Key l) (lease_Owner l) ttl st =
    (Inr l, st\<lparr>st_db := db', st_signals := replaceLeaseSignal l (st_signals st)\<rparr>)"
proof -
  have "leaseExpiration (se_now env) ttl = (lease_ExpiresAt l, True)"
    using assms(1,3-6) by (auto simp: leaseExpiration_def Let_def After_def validateLease_def)
  moreover have e: "\<lparr>lease_Key = lease_Key l, lease_Owner = lease_Owner l, lease_ExpiresAt = lease_ExpiresAt l\<rparr> = l"
    by (cases l) simp
  ultimately show ?thesis
    using assms(2,7-9) by (simp add: Acquire_def Let_def e)
qed

section \<open>Properties\<close>

text \<open>C15: A lease that was encoded is decoded to the same lease, for every representable expiry, and
  different lease keys have different encodings.\<close>

theorem lease_roundtrip:
  "(encodeLease l = Some bs \<and> time_ok (lease_ExpiresAt l) \<longrightarrow> decodeLease bs = Some l) \<and>
   (encodeLeaseKey (lease_Key l) = encodeLeaseKey k \<longleftrightarrow> lease_Key l = k)"
  by (simp add: decode_encode_lease)

theorem lease_roundtrip_witness:
  "encodeLease example_lease \<noteq> None \<and> Option.bind (encodeLease example_lease) decodeLease = Some example_lease"
proof -
  have e: "encodeLease example_lease \<noteq> None" and t: "time_ok (lease_ExpiresAt example_lease)"
    by code_simp+
  then obtain bs where "encodeLease example_lease = Some bs" by auto
  with lease_roundtrip [of example_lease bs example_key] t show ?thesis by simp
qed

text \<open>C16: Every lease call refines the table of leases: whatever the call returns, the persisted
  table changes exactly as the specification allows for the event its result reports, and the
  bucket stays well formed.\<close>

theorem lease_call_refines:
  assumes "bolt_engine B" and "leases_ok B S (st_db st)"
    and "lease_call_result B S env c st = (r, st')"
  shows "leases_ok B S (st_db st') \<and>
    table_step (se_now env) (lease_event_of c r) (lease_table B (st_db st)) (lease_table B (st_db st'))"
  by (rule lease_call_step [OF assms])

theorem lease_call_refines_witness:
  "leases_ok list_bolt example_store (st_db held_state) \<and>
   table_step start (Granted example_lease) (lease_table list_bolt (st_db (new_state ob_empty)))
     (lease_table list_bolt (st_db held_state))"
proof -
  have "lease_call_result list_bolt example_store (live_env start) (CallAcquire example_key [97] (60 * second))
      (new_state ob_empty) = (Inr (Some example_lease), held_state)"
    by (simp add: example_acquired)
  from lease_call_refines [OF list_engine new_leases_ok this] show ?thesis
    by (simp only: example_times lease_event_of.simps)
qed

text \<open>C17: Mutual exclusion. Once a lease has been validated, then after any sequence of lease calls by
  anybody made before it expires, none of which is the holder's own renewal or release, nobody can
  acquire the key, no other lease of the key validates, and the lease itself still does.\<close>

theorem lease_exclusive:
  assumes B: "bolt_engine B" and ok: "leases_ok B S (st_db st)"
    and held: "Validate B S env l st = (Inr (), st0)"
    and quiet: "\<forall>(e, c) \<in> set cs. se_now e < lease_ExpiresAt l \<and> c \<noteq> CallRelease l \<and> (\<forall>t. c \<noteq> CallRenew l t)"
    and now: "se_now env' < lease_ExpiresAt l"
  shows "let st' = lease_calls B S cs st in
    fst (Acquire B S env' (lease_Key l) owner ttl st') \<noteq> Inr m \<and>
    (fst (Validate B S env' m st') = Inr () \<and> lease_Key m = lease_Key l \<longrightarrow> m = l) \<and>
    (se_ctx env' 0 = CtxLive \<and> se_ctx env' 1 = CtxLive \<and> \<not> st_closed st' \<longrightarrow>
       fst (Validate B S env' l st') = Inr ())"
proof -
  define st' where "st' = lease_calls B S cs st"
  have ok': "leases_ok B S (st_db st')"
    unfolding st'_def by (rule lease_calls_ok [OF B ok])
  have l: "lease_table B (st_db st') (lease_Key l) = Some l"
    unfolding st'_def
    by (rule lease_service.undisturbed [OF store_is_lease_service [OF B] lease_calls_run ok
          Validate_success(1) [OF held] quiet_events [OF quiet]])
  have "fst (Acquire B S env' (lease_Key l) owner ttl st') \<noteq> Inr m"
  proof
    assume "fst (Acquire B S env' (lease_Key l) owner ttl st') = Inr m"
    then obtain st1 where "Acquire B S env' (lease_Key l) owner ttl st' = (Inr m, st1)"
      by (cases "Acquire B S env' (lease_Key l) owner ttl st'") simp
    from Acquire_success_free(1) [OF B ok' this] l have "lease_ExpiresAt l \<le> se_now env'" by blast
    with now show False by simp
  qed
  moreover have "m = l" if "fst (Validate B S env' m st') = Inr ()" "lease_Key m = lease_Key l"
  proof -
    from that(1) obtain st1 where "Validate B S env' m st' = (Inr (), st1)"
      by (cases "Validate B S env' m st'") simp
    from Validate_success(1) [OF this] have "lease_table B (st_db st') (lease_Key l) = Some m"
      by (simp only: that(2))
    with l have "Some l = Some m" by (rule trans [OF sym])
    then show ?thesis by simp
  qed
  moreover have "fst (Validate B S env' l st') = Inr ()"
    if "se_ctx env' 0 = CtxLive" "se_ctx env' 1 = CtxLive" "\<not> st_closed st'"
    using Validate_live [OF l now ok' that] by simp
  ultimately show ?thesis
    unfolding Let_def st'_def by (intro conjI impI) simp_all
qed

theorem lease_exclusive_witness:
  "fst (Acquire list_bolt example_store (live_env (start + 40 * second)) example_key [98] second
     (lease_calls list_bolt example_store
       [(live_env (start + 20 * second), CallAcquire example_key [98] (60 * second))] held_state)) \<noteq> Inr example_lease"
proof -
  have v: "Validate list_bolt example_store (live_env start) example_lease held_state = (Inr (), held_state)"
    by (rule Validate_live)
      (use held_table held_open held_leases_ok in \<open>simp_all add: example_lease_def live_env_def second_def\<close>)
  have q: "\<forall>(e, c) \<in> set [(live_env (start + 20 * second), CallAcquire example_key [98] (60 * second))].
      se_now e < lease_ExpiresAt example_lease \<and> c \<noteq> CallRelease example_lease \<and> (\<forall>t. c \<noteq> CallRenew example_lease t)"
    by (simp add: example_times example_lease_def second_def)
  have n: "se_now (live_env (start + 40 * second)) < lease_ExpiresAt example_lease"
    by (simp add: example_times example_lease_def second_def)
  have k: "lease_Key example_lease = example_key" by (simp add: example_lease_def)
  show ?thesis
    using lease_exclusive [OF list_engine held_leases_ok v q n, of "[98]" second example_lease]
    unfolding k Let_def by blast
qed

text \<open>C18: With a working engine and a live context, a well-formed request gets the lease if and only if
  no unexpired lease is stored under the key; a refused request gets the error that says so and
  changes nothing, and a granted one is stored and expires exactly when the call asked for.\<close>

theorem Acquire_iff_free:
  assumes B: "bolt_engine_live B" and ok: "leases_ok B S (st_db st)"
    and live: "se_ctx env 0 = CtxLive" "se_ctx env 1 = CtxLive" "se_commit env" "\<not> st_closed st"
    and req: "validateLease l" "lk_Network (lease_Key l) = bs_network S" "0 < ttl" "validRescueTime (se_now env)"
      "se_now env < lease_ExpiresAt l" "lease_ExpiresAt l = time_Add (se_now env) ttl"
  shows "if \<forall>c. lease_table B (st_db st) (lease_Key l) = Some c \<longrightarrow> lease_ExpiresAt c \<le> se_now env
    then \<exists>st'. Acquire B S env (lease_Key l) (lease_Owner l) ttl st = (Inr l, st') \<and>
      lease_table B (st_db st') = (lease_table B (st_db st))(lease_Key l \<mapsto> l)
    else Acquire B S env (lease_Key l) (lease_Owner l) ttl st = (Inl ErrLeaseHeld, st)"
proof -
  obtain bs where bs: "encodeLease l = Some bs" "length bs \<le> 171"
    by (rule encodeLease_valid [OF req(1)])
  have beg: "store_begin env st = None"
    using live by (simp add: store_begin_def store_contextError_def)
  have E: "bolt_engine B" using B by (simp add: bolt_engine_live_def)
  have l: "decodeLease bs = Some l"
    by (rule decode_encode_lease [OF bs(1)]) (simp add: req(6) time_Add_ok)
  have k: "encodeLeaseKey (lease_Key l) \<noteq> []" "length (encodeLeaseKey (lease_Key l)) \<le> 32768"
    by (auto simp: encodeLeaseKey_def appendUint64_def simp flip: length_0_conv)
  show ?thesis
  proof (cases "\<forall>c. lease_table B (st_db st) (lease_Key l) = Some c \<longrightarrow> lease_ExpiresAt c \<le> se_now env")
    case True
    obtain db' where put: "put_lease B (encodeLeaseKey (lease_Key l)) bs (st_db st) = Inr ((), db')"
      using put_lease_live [OF B k, of bs] bs(2) by auto
    with True have "store_update env (acquire_tx B (lease_Key l) (se_now env) bs) (st_db st) = (Inr (), db')"
      by (simp add: store_update_live [OF live(3,2)] acquire_tx_ok [OF ok])
    from Acquire_request_tx [OF req beg bs(1) this] put_lease_effect(1) [OF E ok put l req(2)] True
    show ?thesis by simp
  next
    case False
    have "acquire_tx B (lease_Key l) (se_now env) bs (st_db st) = Inl ErrLeaseHeld"
      unfolding acquire_tx_ok [OF ok] by (rule if_not_P [OF False])
    then have "store_update env (acquire_tx B (lease_Key l) (se_now env) bs) (st_db st) = (Inl ErrLeaseHeld, st_db st)"
      by (simp add: store_update_live [OF live(3,2)])
    from Acquire_held [OF req beg bs(1) this] False show ?thesis by simp
  qed
qed

theorem Acquire_iff_free_witness:
  "Acquire list_bolt example_store (live_env (start + 20 * second)) example_key [97] (40 * second) held_state =
     (Inl ErrLeaseHeld, held_state)"
proof -
  let ?e = "live_env (start + 20 * second)"
  have k: "lease_Key example_lease = example_key" "lease_Owner example_lease = [97]"
    by (simp_all add: example_lease_def)
  have v: "validateLease example_lease" "lk_Network (lease_Key example_lease) = bs_network example_store"
    "validRescueTime (se_now ?e)" "se_now ?e < lease_ExpiresAt example_lease"
    "lease_ExpiresAt example_lease = time_Add (se_now ?e) (40 * second)" "0 < 40 * second"
    by code_simp+
  have held: "\<not> (\<forall>c. lease_table list_bolt (st_db held_state) example_key = Some c \<longrightarrow>
      lease_ExpiresAt c \<le> se_now ?e)"
    using v(4) held_table by auto
  have o: "\<not> st_closed held_state" using held_open by simp
  from Acquire_iff_free [OF list_engine_live held_leases_ok example_times(2,2,3) o v(1,2,6,3,4,5)]
  show ?thesis
    unfolding k if_not_P [OF held] .
qed

text \<open>C19: A holder is told. The channel that \<open>Lost\<close> returned for a lease is closed after any sequence of
  lease calls that ends with another lease, or none, stored under the key.\<close>

theorem lease_loss_signalled:
  assumes B: "bolt_engine B" and ok: "leases_ok B S (st_db st)"
    and s: "signals_wf (st_signals st)" "signals_of (st_signals st) (lease_table B (st_db st))"
    and t: "time_ok (lease_ExpiresAt l)"
    and lost: "lease_table B (st_db (lease_calls B S cs st)) (lease_Key l) \<noteq> Some l"
  shows "Lost S l st \<in> set (closedChannels (st_signals (lease_calls B S cs st)))"
proof -
  let ?i = "leaseSignalIdentity l" and ?st = "lease_calls B S cs st"
  have "tracked ?i (Lost S l st) (st_signals st)"
    using s(1) by (auto simp: tracked_def signals_wf_def Lost_def Let_def split: option.splits)
  with lease_calls_inv [OF B ok s this, of cs]
  have tr: "tracked ?i (Lost S l st) (st_signals ?st)" and ok': "leases_ok B S (st_db ?st)"
    and so: "signals_of (st_signals ?st) (lease_table B (st_db ?st))"
    by (simp_all add: Let_def)
  have "map_of (leaseLoss (st_signals ?st)) ?i \<noteq> Some (Lost S l st)"
  proof
    assume "map_of (leaseLoss (st_signals ?st)) ?i = Some (Lost S l st)"
    from map_of_SomeD [OF this] so obtain m where m: "lease_table B (st_db ?st) (lease_Key l) = Some m"
      "leaseSignalIdentity m = ?i"
      unfolding signals_of_def by fastforce
    then have "time_ok (lease_ExpiresAt m)"
      using decoded_lease(2) by (auto simp: lease_table_def bind_eq_Some_conv)
    with m t lost leaseSignalIdentity_inject show False by metis
  qed
  with tr show ?thesis by (simp add: tracked_def)
qed

theorem lease_loss_signalled_witness:
  "Lost example_store example_lease held_state \<in> set (closedChannels (st_signals
     (lease_calls list_bolt example_store
       [(live_env (start + 90 * second), CallAcquire example_key [98] (60 * second))] held_state)))"
proof (rule lease_loss_signalled [OF list_engine held_leases_ok])
  show "signals_wf (st_signals held_state)" by code_simp
  have "signals_of (st_signals (new_state ob_empty)) (lease_table list_bolt (st_db (new_state ob_empty)))"
    by (simp add: signals_of_def new_state_def)
  from Acquire_signals [OF list_engine new_leases_ok example_acquired this]
  show "signals_of (st_signals held_state) (lease_table list_bolt (st_db held_state))" by simp
  show "time_ok (lease_ExpiresAt example_lease)" by code_simp
  show "lease_table list_bolt (st_db (lease_calls list_bolt example_store
       [(live_env (start + 90 * second), CallAcquire example_key [98] (60 * second))] held_state))
     (lease_Key example_lease) \<noteq> Some example_lease"
    by code_simp
qed

text \<open>C20: After any sequence of lease calls on a bucket that passed validation, the bucket passes the
  validation done when the database is opened.\<close>

theorem leases_revalidate:
  assumes "seq_engine Q" and "validateLeasesBucket Q S (st_db st) = Inr ()"
  shows "validateLeasesBucket Q S (st_db (lease_calls (bkv Q) S cs st)) = Inr ()"
proof -
  have B: "bolt_engine (bkv Q)"
    using assms(1) by (simp add: seq_engine_def)
  show ?thesis
    using assms(2) lease_calls_ok [OF B] lease_calls_seq [OF assms(1)]
    by (simp add: validateLeasesBucket_ok [OF B])
qed

theorem leases_revalidate_witness:
  "validateLeasesBucket counted_bolt example_store (st_db (lease_calls (bkv counted_bolt) example_store
     [(live_env start, CallAcquire example_key [97] (60 * second))] (new_state (bempty (bkv counted_bolt))))) = Inr ()"
  by (rule leases_revalidate [OF counted_engine_seq.seq_engine_axioms]) code_simp

end
