(* ===== verification/Store_Rescue.thy ===== *)
theory Store_Rescue
  imports Store_Codec
begin

text \<open>
  The journal of rescue operations (\<^verbatim>\<open>internal/store/rescue_state.go\<close>): one record per
  asset and candidate, whose status may only move along \<open>validRescueTransition\<close>; the floor of the
  sponsor's nonces; pruning of finished records; and the migration of records written by the
  previous schema.

  The wire format of Ethereum transactions belongs to go-ethereum. A model of this part is
  parametrised by \<open>unmarshal\<close>, which stands for \<^verbatim>\<open>types.Transaction.UnmarshalBinary\<close> and
  yields the five things the code reads from a decoded transaction.
\<close>

section \<open>Signed transactions\<close>

record signed_tx =
  tx_Type :: byte
  tx_Hash :: hash
  tx_Nonce :: u64
  tx_Data :: bytes
  tx_AuthNonces :: "u64 list"

type_synonym tx_decoder = "bytes \<Rightarrow> signed_tx option"

abbreviation SetCodeTxType :: byte where "SetCodeTxType \<equiv> 4"
abbreviation maxErrorCodeBytes :: int where "maxErrorCodeBytes \<equiv> 128"
abbreviation maxSignedTransactionLen :: int where "maxSignedTransactionLen \<equiv> 131072"
abbreviation rescueRecordVersion :: byte where "rescueRecordVersion \<equiv> 2"
abbreviation latestRescueRecordVersion :: byte where "latestRescueRecordVersion \<equiv> 3"

section \<open>Validation\<close>

definition validateSignedRescueTransaction :: "tx_decoder \<Rightarrow> RescueIncident \<Rightarrow> bool" where
  "validateSignedRescueTransaction unmarshal r \<longleftrightarrow>
     \<not> (ri_SignedTransaction r = [] \<or> maxSignedTransactionLen < int (length (ri_SignedTransaction r)) \<or>
        ri_TxHash r = 0) \<and>
     (case unmarshal (ri_SignedTransaction r) of
        None \<Rightarrow> False
      | Some transaction \<Rightarrow>
          \<not> (tx_Type transaction \<noteq> SetCodeTxType \<or> tx_Hash transaction \<noteq> ri_TxHash r \<or>
             tx_Nonce transaction \<noteq> ri_SponsorNonce r \<or> tx_Data transaction = []) \<and>
          (case tx_AuthNonces transaction of
             [nonce] \<Rightarrow> nonce = ri_SourceNonce r
           | _ \<Rightarrow> False))"

definition validTerminalSignedState :: "tx_decoder \<Rightarrow> RescueIncident \<Rightarrow> bool" where
  "validTerminalSignedState unmarshal r \<longleftrightarrow>
     (if ri_TxHash r = 0 then ri_SignedTransaction r = [] \<and> IsZero (ri_ReconcileUntil r)
      else if ri_SignedTransaction r = [] then IsZero (ri_ReconcileUntil r)
      else validateSignedRescueTransaction unmarshal r)"

definition hasNoSignedTransaction :: "RescueIncident \<Rightarrow> bool" where
  "hasNoSignedTransaction r \<longleftrightarrow>
     ri_TxHash r = 0 \<and> ri_SignedTransaction r = [] \<and> IsZero (ri_ReconcileUntil r)"

definition validRescueStatus :: "RescueStatus \<Rightarrow> bool" where
  "validRescueStatus status \<longleftrightarrow> RescuePending \<le> status \<and> status \<le> RescueLostRace"

definition isTerminalRescueStatus :: "RescueStatus \<Rightarrow> bool" where
  "isTerminalRescueStatus status \<longleftrightarrow>
     status \<in> {RescueExhausted, RescueFailed, RescueTrustedSuccess, RescueTokenReported, RescueLostRace}"

definition isReceiptTerminalStatus :: "RescueStatus \<Rightarrow> bool" where
  "isReceiptTerminalStatus status \<longleftrightarrow>
     status \<in> {RescueFailed, RescueTrustedSuccess, RescueTokenReported, RescueLostRace}"

text \<open>The identity, the policy and the times of a record, whatever its status.\<close>

definition validRescueFrame :: "RescueIncident \<Rightarrow> bool" where
  "validRescueFrame r \<longleftrightarrow>
     \<not> (sint (ri_Network r) \<le> 0 \<or> ri_Candidate r = 0 \<or> ri_Generation r = 0 \<or>
        ri_ID r \<noteq> NewAssetIncidentID (ri_Candidate r) (ri_Kind r) (ri_Asset r) \<or>
        ri_Parent r \<noteq> NewIncidentID (ri_Candidate r)) \<and>
     (if ri_Kind r = CandidateNative then ri_Asset r = 0
      else if ri_Kind r = CandidateToken \<or> ri_Kind r = CandidateClaim then ri_Asset r \<noteq> 0
      else False) \<and>
     \<not> (rp_MaxAttempts (ri_Policy r) = 0 \<or> maxConfiguredBound < rp_MaxAttempts (ri_Policy r) \<or>
        sint (rp_RetryDelay (ri_Policy r)) \<le> 0 \<or> sint (rp_FinalityTimeout (ri_Policy r)) \<le> 0 \<or>
        rp_MaxAttempts (ri_Policy r) < ri_Attempts r \<or> maxErrorCodeBytes < int (length (ri_LastCode r)) \<or>
        maxSignedTransactionLen < int (length (ri_SignedTransaction r))) \<and>
     \<not> (\<not> validRescueTime (ri_CreatedAt r) \<or> \<not> validRescueTime (ri_UpdatedAt r) \<or>
        Before (ri_UpdatedAt r) (ri_CreatedAt r)) \<and>
     \<not> (\<not> IsZero (ri_RetryAt r) \<and> \<not> validRescueTime (ri_RetryAt r) \<or>
        \<not> IsZero (ri_ReconcileUntil r) \<and> \<not> validRescueTime (ri_ReconcileUntil r) \<or>
        \<not> validRescueStatus (ri_Status r))"

definition validPendingState :: "RescueIncident \<Rightarrow> bool" where
  "validPendingState r \<longleftrightarrow>
     \<not> (ri_Attempts r \<noteq> 0 \<or> ri_SponsorNonce r \<noteq> 0 \<or> ri_SourceNonce r \<noteq> 0 \<or> ri_TxHash r \<noteq> 0 \<or>
        ri_SignedTransaction r \<noteq> [] \<or> ri_SnapshotBlockNumber r \<noteq> 0 \<or> ri_SnapshotBlockHash r \<noteq> 0 \<or>
        ri_SourceBefore r \<noteq> 0 \<or> ri_DestinationBefore r \<noteq> 0 \<or> \<not> IsZero (ri_RetryAt r) \<or>
        \<not> IsZero (ri_ReconcileUntil r) \<or> ri_LastCode r \<noteq> [])"

text \<open>The status switch: which fields a status requires.\<close>

definition validStatusFields :: "tx_decoder \<Rightarrow> RescueIncident \<Rightarrow> bool" where
  "validStatusFields unmarshal r \<longleftrightarrow>
     (if ri_Status r = RescuePrepared \<or> ri_Status r = RescueExhausted then
        hasNoSignedTransaction r \<and> IsZero (ri_RetryAt r)
      else if ri_Status r = RescueRetryable then
        \<not> (\<not> hasNoSignedTransaction r \<or> ri_LastCode r = [] \<or> IsZero (ri_RetryAt r) \<or>
           Before (ri_RetryAt r) (ri_UpdatedAt r) \<or>
           time_Sub (ri_RetryAt r) (ri_UpdatedAt r) < sint (rp_RetryDelay (ri_Policy r)))
      else if ri_Status r = RescueSigned \<or> ri_Status r = RescueBroadcast then
        \<not> (\<not> validateSignedRescueTransaction unmarshal r \<or> \<not> IsZero (ri_RetryAt r) \<or>
           IsZero (ri_ReconcileUntil r) \<or> \<not> After (ri_ReconcileUntil r) (ri_UpdatedAt r))
      else if ri_Status r = RescueAmbiguous then
        \<not> (\<not> validateSignedRescueTransaction unmarshal r \<or> ri_LastCode r = [] \<or>
           IsZero (ri_ReconcileUntil r) \<or> \<not> After (ri_ReconcileUntil r) (ri_UpdatedAt r) \<or>
           \<not> IsZero (ri_RetryAt r) \<and>
             (Before (ri_RetryAt r) (ri_UpdatedAt r) \<or> After (ri_RetryAt r) (ri_ReconcileUntil r)))
      else if ri_Status r = RescueFailed then
        IsZero (ri_RetryAt r) \<and> validTerminalSignedState unmarshal r
      else if ri_Status r \<in> {RescueTrustedSuccess, RescueTokenReported, RescueLostRace} then
        \<not> (ri_TxHash r = 0 \<or> \<not> IsZero (ri_RetryAt r) \<or> \<not> validTerminalSignedState unmarshal r)
      else False)"

definition validateRescueIncident :: "tx_decoder \<Rightarrow> RescueIncident \<Rightarrow> bool" where
  "validateRescueIncident unmarshal r \<longleftrightarrow>
     validRescueFrame r \<and>
     (if ri_Status r = RescuePending then validPendingState r
      else
        \<not> (ri_Attempts r = 0 \<or> ri_SnapshotBlockHash r = 0) \<and>
        validStatusFields unmarshal r \<and>
        \<not> (ri_Status r = RescueTrustedSuccess \<and>
           (\<not> ri_Trusted r \<or> ri_Kind r = CandidateToken \<or> ri_Kind r = CandidateClaim)) \<and>
        \<not> (ri_Status r = RescueTokenReported \<and> ri_Kind r \<noteq> CandidateToken \<and> ri_Kind r \<noteq> CandidateClaim))"

section \<open>Codec\<close>

definition normalizeRescueIncident :: "RescueIncident \<Rightarrow> RescueIncident" where
  "normalizeRescueIncident r =
     r\<lparr>ri_CreatedAt := normalizeStoreTime (ri_CreatedAt r), ri_UpdatedAt := normalizeStoreTime (ri_UpdatedAt r),
       ri_RetryAt := normalizeStoreTime (ri_RetryAt r), ri_ReconcileUntil := normalizeStoreTime (ri_ReconcileUntil r)\<rparr>"

definition encodeRescueIncident :: "tx_decoder \<Rightarrow> RescueIncident \<Rightarrow> bytes option" where
  "encodeRescueIncident unmarshal incident =
     (let r = normalizeRescueIncident incident
      in if \<not> validateRescueIncident unmarshal r then None
         else
           let code = ri_LastCode r;
               latest = rp_LatestState (ri_Policy r);
               result = [if latest then latestRescueRecordVersion else rescueRecordVersion];
               result = result @ id_bytes (ri_ID r);
               result = result @ id_bytes (ri_Parent r);
               result = result @ id_bytes (ri_Candidate r);
               result = appendUint64 result (ri_Network r);
               result = result @ [ri_Kind r];
               result = result @ word_bytes 20 (ri_Asset r);
               result = appendUint64 result (ri_Generation r);
               result = result @ [if ri_Trusted r then 1 else 0];
               result = appendUint32 result (rp_MaxAttempts (ri_Policy r));
               result = appendUint64 result (rp_RetryDelay (ri_Policy r));
               result = appendUint64 result (rp_FinalityTimeout (ri_Policy r));
               result = result @ [ri_Status r];
               result = appendUint32 result (ri_Attempts r);
               result = appendUint64 result (ri_SponsorNonce r);
               result = appendUint64 result (ri_SourceNonce r);
               result = result @ id_bytes (ri_TxHash r);
               result = appendUint32 result (word_of_nat (length (ri_SignedTransaction r)));
               result = result @ ri_SignedTransaction r;
               result = appendUint64 result (ri_SnapshotBlockNumber r);
               result = result @ id_bytes (ri_SnapshotBlockHash r);
               result = result @ id_bytes (ri_SourceBefore r);
               result = result @ id_bytes (ri_DestinationBefore r);
               result = appendTime result (ri_RetryAt r);
               result = appendTime result (ri_ReconcileUntil r);
               result = appendUint16 result (word_of_nat (length code));
               result = result @ code;
               result = appendTime result (ri_CreatedAt r);
               result = appendTime result (ri_UpdatedAt r)
           in Some (if latest then result @ [1] else result))"

text \<open>The fields up to the signed transaction, and the rest.\<close>

definition decodeRescueHead :: "bytes \<Rightarrow> (RescueIncident \<times> int) option" where
  "decodeRescueHead data = do {
     (rid, off) \<leftarrow> readFixed32 data 1;
     (parent, off) \<leftarrow> readFixed32 data off;
     (candidate, off) \<leftarrow> readFixed32 data off;
     (network, off) \<leftarrow> readUint64 data off;
     (if maxNetwork < network then None else do {
     (kind, off) \<leftarrow> readByte data off;
     (asset, off) \<leftarrow> readFixed20 data off;
     (generation, off) \<leftarrow> readUint64 data off;
     (trusted, off) \<leftarrow> readByte data off;
     (if 1 < trusted then None else do {
     (maxAttempts, off) \<leftarrow> readUint32 data off;
     (retryDelay, off) \<leftarrow> readUint64 data off;
     (if maxNetwork < retryDelay then None else do {
     (finalityTimeout, off) \<leftarrow> readUint64 data off;
     (if maxNetwork < finalityTimeout then None else do {
     (status, off) \<leftarrow> readByte data off;
     (attempts, off) \<leftarrow> readUint32 data off;
     (sponsorNonce, off) \<leftarrow> readUint64 data off;
     (sourceNonce, off) \<leftarrow> readUint64 data off;
     (txHash, off) \<leftarrow> readFixed32 data off;
     Some (\<lparr>ri_ID = rid, ri_Parent = parent, ri_Candidate = candidate, ri_Network = network, ri_Kind = kind,
        ri_Asset = asset, ri_Generation = generation, ri_Trusted = (trusted = 1),
        ri_Policy = \<lparr>rp_LatestState = False, rp_MaxAttempts = maxAttempts, rp_RetryDelay = retryDelay,
          rp_FinalityTimeout = finalityTimeout\<rparr>,
        ri_Status = status, ri_Attempts = attempts, ri_SponsorNonce = sponsorNonce, ri_SourceNonce = sourceNonce,
        ri_TxHash = txHash, ri_SignedTransaction = [], ri_SnapshotBlockNumber = 0, ri_SnapshotBlockHash = 0,
        ri_SourceBefore = 0, ri_DestinationBefore = 0, ri_RetryAt = zeroTime, ri_ReconcileUntil = zeroTime,
        ri_LastCode = [], ri_CreatedAt = zeroTime, ri_UpdatedAt = zeroTime\<rparr>, off) }) }) }) }) }"

definition decodeRescueTail :: "bytes \<Rightarrow> RescueIncident \<Rightarrow> int \<Rightarrow> (RescueIncident \<times> int) option" where
  "decodeRescueTail data r off = do {
     (signedLength, off) \<leftarrow> readUint32 data off;
     (if maxSignedTransactionLen < uint signedLength then None else do {
     (signed, off) \<leftarrow> read_slice (unat signedLength) data off;
     (blockNumber, off) \<leftarrow> readUint64 data off;
     (blockHash, off) \<leftarrow> readFixed32 data off;
     (sourceBefore, off) \<leftarrow> readFixed32 data off;
     (destinationBefore, off) \<leftarrow> readFixed32 data off;
     (retryAt, off) \<leftarrow> readTime data off;
     (reconcileUntil, off) \<leftarrow> readTime data off;
     (codeLength, off) \<leftarrow> readUint16 data off;
     (if maxErrorCodeBytes < uint codeLength then None else do {
     (code, off) \<leftarrow> read_slice (unat codeLength) data off;
     (createdAt, off) \<leftarrow> readTime data off;
     (updatedAt, off) \<leftarrow> readTime data off;
     Some (r\<lparr>ri_SignedTransaction := signed, ri_SnapshotBlockNumber := blockNumber,
        ri_SnapshotBlockHash := blockHash, ri_SourceBefore := sourceBefore,
        ri_DestinationBefore := destinationBefore, ri_RetryAt := retryAt, ri_ReconcileUntil := reconcileUntil,
        ri_LastCode := code, ri_CreatedAt := createdAt, ri_UpdatedAt := updatedAt\<rparr>, off) }) }) }"

text \<open>The byte that ends a record following the latest state.\<close>

definition decodeRescueMarker :: "bytes \<Rightarrow> RescueIncident \<Rightarrow> int \<Rightarrow> (RescueIncident \<times> int) option" where
  "decodeRescueMarker data r off =
     (if data ! 0 = latestRescueRecordVersion
      then do {
        (latest, off) \<leftarrow> readByte data off;
        (if latest \<noteq> 1 then None
         else Some (r\<lparr>ri_Policy := (ri_Policy r)\<lparr>rp_LatestState := True\<rparr>\<rparr>, off)) }
      else Some (r, off))"

text \<open>The record that is validated: a token success of the previous schema counts as reported.\<close>

definition legacyValidated :: "bool \<Rightarrow> RescueIncident \<Rightarrow> RescueIncident option" where
  "legacyValidated legacy r =
     (if legacy \<and> ri_Status r = RescueTokenReported \<and> ri_Trusted r then None
      else if legacy \<and> ri_Kind r = CandidateToken \<and> ri_Trusted r \<and> ri_Status r = RescueTrustedSuccess
      then Some (r\<lparr>ri_Status := RescueTokenReported\<rparr>)
      else Some r)"

definition decodeRescueIncidentForSchema :: "tx_decoder \<Rightarrow> bytes \<Rightarrow> bool \<Rightarrow> RescueIncident option" where
  "decodeRescueIncidentForSchema unmarshal data allowLegacyTokenSuccess =
     (if int (length data) < 366 \<or>
         data ! 0 \<noteq> rescueRecordVersion \<and> (data ! 0 \<noteq> latestRescueRecordVersion \<or> allowLegacyTokenSuccess)
      then None
      else do {
        (r, off) \<leftarrow> decodeRescueHead data;
        (r, off) \<leftarrow> decodeRescueTail data r off;
        (r, off) \<leftarrow> decodeRescueMarker data r off;
        (if off \<noteq> int (length data) then None else do {
        validated \<leftarrow> legacyValidated allowLegacyTokenSuccess r;
        (if \<not> validateRescueIncident unmarshal validated then None else Some r) }) })"

definition decodeRescueIncident :: "tx_decoder \<Rightarrow> bytes \<Rightarrow> RescueIncident option" where
  "decodeRescueIncident unmarshal data = decodeRescueIncidentForSchema unmarshal data False"

definition decodeRescueIncidentV2 :: "tx_decoder \<Rightarrow> bytes \<Rightarrow> RescueIncident option" where
  "decodeRescueIncidentV2 unmarshal data = decodeRescueIncidentForSchema unmarshal data True"

section \<open>Transitions\<close>

definition sameRescueIdentity :: "RescueIncident \<Rightarrow> RescueIncident \<Rightarrow> bool" where
  "sameRescueIdentity left right \<longleftrightarrow>
     ri_ID left = ri_ID right \<and> ri_Parent left = ri_Parent right \<and> ri_Candidate left = ri_Candidate right \<and>
     ri_Network left = ri_Network right \<and> ri_Kind left = ri_Kind right \<and> ri_Asset left = ri_Asset right \<and>
     ri_Generation left = ri_Generation right \<and> ri_Trusted left = ri_Trusted right \<and>
     ri_Policy left = ri_Policy right"

definition sameRescuePreparation :: "RescueIncident \<Rightarrow> RescueIncident \<Rightarrow> bool" where
  "sameRescuePreparation left right \<longleftrightarrow>
     ri_SponsorNonce left = ri_SponsorNonce right \<and> ri_SourceNonce left = ri_SourceNonce right \<and>
     ri_SnapshotBlockNumber left = ri_SnapshotBlockNumber right \<and>
     ri_SnapshotBlockHash left = ri_SnapshotBlockHash right \<and>
     ri_SourceBefore left = ri_SourceBefore right \<and> ri_DestinationBefore left = ri_DestinationBefore right"

definition sameSignedRescueOperation :: "RescueIncident \<Rightarrow> RescueIncident \<Rightarrow> bool" where
  "sameSignedRescueOperation left right \<longleftrightarrow>
     ri_Attempts left = ri_Attempts right \<and> sameRescuePreparation left right \<and>
     ri_TxHash left = ri_TxHash right \<and> ri_SignedTransaction left = ri_SignedTransaction right"

definition sameRescueIncident :: "RescueIncident \<Rightarrow> RescueIncident \<Rightarrow> bool" where
  "sameRescueIncident l r \<longleftrightarrow>
     (let left = normalizeRescueIncident l; right = normalizeRescueIncident r
      in sameRescueIdentity left right \<and> ri_Status left = ri_Status right \<and> ri_Attempts left = ri_Attempts right \<and>
         ri_SponsorNonce left = ri_SponsorNonce right \<and> ri_SourceNonce left = ri_SourceNonce right \<and>
         ri_TxHash left = ri_TxHash right \<and> ri_SignedTransaction left = ri_SignedTransaction right \<and>
         ri_SnapshotBlockNumber left = ri_SnapshotBlockNumber right \<and>
         ri_SnapshotBlockHash left = ri_SnapshotBlockHash right \<and>
         ri_SourceBefore left = ri_SourceBefore right \<and> ri_DestinationBefore left = ri_DestinationBefore right \<and>
         ri_RetryAt left = ri_RetryAt right \<and> ri_ReconcileUntil left = ri_ReconcileUntil right \<and>
         ri_LastCode left = ri_LastCode right \<and> ri_CreatedAt left = ri_CreatedAt right \<and>
         ri_UpdatedAt left = ri_UpdatedAt right)"

definition validReceiptTerminalTransition :: "RescueIncident \<Rightarrow> RescueIncident \<Rightarrow> bool" where
  "validReceiptTerminalTransition current next \<longleftrightarrow>
     \<not> (ri_Attempts next \<noteq> ri_Attempts current \<or> \<not> sameRescuePreparation current next \<or>
        ri_TxHash next \<noteq> ri_TxHash current) \<and>
     (if ri_SignedTransaction next = [] then IsZero (ri_ReconcileUntil next)
      else ri_SignedTransaction next = ri_SignedTransaction current \<and>
        (IsZero (ri_ReconcileUntil next) \<or> ri_ReconcileUntil next = ri_ReconcileUntil current))"

definition validRescueTransition :: "RescueIncident \<Rightarrow> RescueIncident \<Rightarrow> bool" where
  "validRescueTransition current next \<longleftrightarrow>
     \<not> (\<not> sameRescueIdentity current next \<or> ri_CreatedAt current \<noteq> ri_CreatedAt next \<or>
        Before (ri_UpdatedAt next) (ri_UpdatedAt current)) \<and>
     (if ri_Status current = RescuePending then
        (ri_Status next = RescuePrepared \<or> ri_Status next = RescueRetryable) \<and> ri_Attempts next = 1
      else if ri_Status current = RescuePrepared then
        (let prepared = (if ri_Status next = RescueSigned
               then current\<lparr>ri_SourceNonce := ri_SourceNonce next\<rparr> else current)
         in \<not> (ri_Attempts next \<noteq> ri_Attempts current \<or> \<not> sameRescuePreparation prepared next) \<and>
            (ri_Status next = RescueSigned \<and>
               sint (rp_FinalityTimeout (ri_Policy next)) \<le> time_Sub (ri_ReconcileUntil next) (ri_UpdatedAt next) \<or>
             ri_Status next = RescueRetryable \<or> ri_Status next = RescueExhausted \<or>
             ri_Status next = RescueFailed \<and> ri_TxHash next = 0))
      else if ri_Status current = RescueSigned then
        (ri_Status next = RescueBroadcast \<or> ri_Status next = RescueAmbiguous) \<and>
        sameSignedRescueOperation current next \<and> ri_ReconcileUntil next = ri_ReconcileUntil current
      else if ri_Status current = RescueBroadcast then
        (if ri_Status next = RescueAmbiguous then
           sameSignedRescueOperation current next \<and> ri_ReconcileUntil next = ri_ReconcileUntil current
         else isReceiptTerminalStatus (ri_Status next) \<and> validReceiptTerminalTransition current next)
      else if ri_Status current = RescueRetryable then
        \<not> (IsZero (ri_RetryAt current) \<or> Before (ri_UpdatedAt next) (ri_RetryAt current)) \<and>
        (if ri_Status next = RescuePrepared \<or> ri_Status next = RescueRetryable then
           ri_Attempts current < 0xffffffff \<and> ri_Attempts next = ri_Attempts current + 1
         else if ri_Status next = RescueExhausted then
           ri_Attempts next = ri_Attempts current \<and> sameRescuePreparation current next
         else if ri_Status next = RescueFailed then
           ri_Attempts next = ri_Attempts current \<and> ri_TxHash next = 0 \<and> sameRescuePreparation current next
         else False)
      else if ri_Status current = RescueAmbiguous then
        (if ri_Status next = RescueBroadcast then
           sameSignedRescueOperation current next \<and> ri_ReconcileUntil next = ri_ReconcileUntil current
         else if ri_Status next = RescueAmbiguous then
           sameSignedRescueOperation current next \<and> \<not> Before (ri_ReconcileUntil next) (ri_ReconcileUntil current) \<and>
           time_Sub (ri_ReconcileUntil next) (ri_ReconcileUntil current) \<le> sint (rp_FinalityTimeout (ri_Policy current))
         else isReceiptTerminalStatus (ri_Status next) \<and> validReceiptTerminalTransition current next)
      else False)"

section \<open>Operations\<close>

definition put_rescue ::
  "'b bolt \<Rightarrow> bytes \<Rightarrow> bytes \<Rightarrow> 'b store_db \<Rightarrow> 'r \<Rightarrow> store_error + 'r \<times> 'b store_db" where
  "put_rescue B k v db result =
     (case bput B (rescueStateBucket db) k v of
        None \<Rightarrow> Inl engineErr
      | Some b \<Rightarrow> Inr (result, db\<lparr>rescueStateBucket := b\<rparr>))"

definition put_incident_tx ::
  "'b bolt \<Rightarrow> tx_decoder \<Rightarrow> BoltStore \<Rightarrow> RescueIncident \<Rightarrow> bytes \<Rightarrow> 'b store_db \<Rightarrow>
     store_error + RescueIncident \<times> 'b store_db" where
  "put_incident_tx B unmarshal S incident encoded db =
     (case bget B (rescueStateBucket db) (id_bytes (ri_ID incident)) of
        None \<Rightarrow> put_rescue B (id_bytes (ri_ID incident)) encoded db incident
      | Some persisted \<Rightarrow>
          case decodeRescueIncident unmarshal persisted of
            None \<Rightarrow> Inl errCorrupt
          | Some stored \<Rightarrow>
              if ri_Network stored \<noteq> bs_network S \<or> ri_ID stored \<noteq> ri_ID incident then Inl errCorrupt
              else if \<not> sameRescueIdentity stored incident then Inl errConflict
              else Inr (stored, db))"

definition PutRescueIncident ::
  "'b bolt \<Rightarrow> tx_decoder \<Rightarrow> BoltStore \<Rightarrow> store_env \<Rightarrow> RescueIncident \<Rightarrow> 'b store_state \<Rightarrow>
     (store_error + RescueIncident) \<times> 'b store_state" where
  "PutRescueIncident B unmarshal S env r st =
     (let incident = normalizeRescueIncident r
      in case encodeRescueIncident unmarshal incident of
           None \<Rightarrow> (Inl errInvalidInput, st)
         | Some encoded \<Rightarrow>
             if ri_Network incident \<noteq> bs_network S \<or> ri_Status incident \<noteq> RescuePending
             then (Inl errInvalidInput, st)
             else case store_begin env st of
               Some e \<Rightarrow> (Inl e, st)
             | None \<Rightarrow>
                 (let (out, db') = store_update env (put_incident_tx B unmarshal S incident encoded) (st_db st)
                  in (public_result out, st\<lparr>st_db := db'\<rparr>)))"

definition update_incident_tx ::
  "'b bolt \<Rightarrow> tx_decoder \<Rightarrow> BoltStore \<Rightarrow> RescueIncident \<Rightarrow> bytes \<Rightarrow> 'b store_db \<Rightarrow>
     store_error + unit \<times> 'b store_db" where
  "update_incident_tx B unmarshal S incident encoded db =
     (case bget B (rescueStateBucket db) (id_bytes (ri_ID incident)) of
        None \<Rightarrow> Inl errConflict
      | Some persisted \<Rightarrow>
          case decodeRescueIncident unmarshal persisted of
            None \<Rightarrow> Inl errCorrupt
          | Some current \<Rightarrow>
              if ri_Network current \<noteq> bs_network S \<or> ri_ID current \<noteq> ri_ID incident then Inl errCorrupt
              else if sameRescueIncident current incident then Inr ((), db)
              else if \<not> validRescueTransition current incident then Inl errConflict
              else put_rescue B (id_bytes (ri_ID incident)) encoded db ())"

definition UpdateRescueIncident ::
  "'b bolt \<Rightarrow> tx_decoder \<Rightarrow> BoltStore \<Rightarrow> store_env \<Rightarrow> RescueIncident \<Rightarrow> 'b store_state \<Rightarrow>
     (store_error + unit) \<times> 'b store_state" where
  "UpdateRescueIncident B unmarshal S env r st =
     (let incident = normalizeRescueIncident r
      in case encodeRescueIncident unmarshal incident of
           None \<Rightarrow> (Inl errInvalidInput, st)
         | Some encoded \<Rightarrow>
             if ri_Network incident \<noteq> bs_network S then (Inl errInvalidInput, st)
             else case store_begin env st of
               Some e \<Rightarrow> (Inl e, st)
             | None \<Rightarrow>
                 (let (out, db') = store_update env (update_incident_tx B unmarshal S incident encoded) (st_db st)
                  in (public_result out, st\<lparr>st_db := db'\<rparr>)))"

text \<open>The lookup; \<open>None\<close> for \<^verbatim>\<open>found == false\<close>.\<close>

definition RescueIncident_of ::
  "'b bolt \<Rightarrow> tx_decoder \<Rightarrow> BoltStore \<Rightarrow> store_env \<Rightarrow> IncidentID \<Rightarrow> 'b store_state \<Rightarrow>
     store_error + RescueIncident option" where
  "RescueIncident_of B unmarshal S env iid st =
     (case store_begin env st of
        Some e \<Rightarrow> Inl e
      | None \<Rightarrow>
          public_result (store_view env
            (\<lambda>db. case bget B (rescueStateBucket db) (id_bytes iid) of
                    None \<Rightarrow> Inr None
                  | Some data \<Rightarrow>
                      case decodeRescueIncident unmarshal data of
                        None \<Rightarrow> Inl errCorrupt
                      | Some incident \<Rightarrow>
                          if ri_ID incident \<noteq> iid \<or> ri_Network incident \<noteq> bs_network S then Inl errCorrupt
                          else Inr (Some incident)) (st_db st)))"

text \<open>The check of one entry that the iterations share.\<close>

definition rescue_entry :: "tx_decoder \<Rightarrow> BoltStore \<Rightarrow> bytes \<times> bytes \<Rightarrow> store_error + RescueIncident" where
  "rescue_entry unmarshal S entry =
     (case decodeRescueIncident unmarshal (snd entry) of
        None \<Rightarrow> Inl errCorrupt
      | Some incident \<Rightarrow>
          if length (fst entry) \<noteq> 32 \<or> fst entry \<noteq> id_bytes (ri_ID incident) \<or> ri_Network incident \<noteq> bs_network S
          then Inl errCorrupt else Inr incident)"

definition collectIncident ::
  "tx_decoder \<Rightarrow> BoltStore \<Rightarrow> RescueIncident list \<Rightarrow> bytes \<times> bytes \<Rightarrow> store_error + RescueIncident list" where
  "collectIncident unmarshal S incidents entry =
     (case rescue_entry unmarshal S entry of Inl e \<Rightarrow> Inl e | Inr incident \<Rightarrow> Inr (incidents @ [incident]))"

definition RescueIncidents ::
  "'b bolt \<Rightarrow> tx_decoder \<Rightarrow> BoltStore \<Rightarrow> store_env \<Rightarrow> NetworkID \<Rightarrow> 'b store_state \<Rightarrow>
     store_error + RescueIncident list" where
  "RescueIncidents B unmarshal S env network st =
     (if network \<noteq> bs_network S then Inl errInvalidInput
      else case store_begin env st of
        Some e \<Rightarrow> Inl e
      | None \<Rightarrow>
          (case public_result (store_view env
              (\<lambda>db. foldE (collectIncident unmarshal S) [] (bentries B (rescueStateBucket db))) (st_db st)) of
             Inl e \<Rightarrow> Inl e
           | Inr incidents \<Rightarrow> Inr (sort_key ri_ID incidents)))"

definition NonceFloor :: "'b bolt \<Rightarrow> store_env \<Rightarrow> 'b store_state \<Rightarrow> store_error + u64" where
  "NonceFloor B env st =
     (case store_begin env st of
        Some e \<Rightarrow> Inl e
      | None \<Rightarrow>
          public_result (store_view env
            (\<lambda>db. case decodeUint64 (slice_of (bget B (metaBucket db) nonceFloorKey)) of
                    None \<Rightarrow> Inl errCorrupt
                  | Some floor \<Rightarrow> Inr floor) (st_db st)))"

definition raise_floor_tx :: "'b bolt \<Rightarrow> u64 \<Rightarrow> 'b store_db \<Rightarrow> store_error + unit \<times> 'b store_db" where
  "raise_floor_tx B floor db =
     (case decodeUint64 (slice_of (bget B (metaBucket db) nonceFloorKey)) of
        None \<Rightarrow> Inl errCorrupt
      | Some current \<Rightarrow>
          if floor \<le> current then Inr ((), db)
          else case bput B (metaBucket db) nonceFloorKey (encodeUint64 floor) of
                 None \<Rightarrow> Inl engineErr
               | Some b \<Rightarrow> Inr ((), db\<lparr>metaBucket := b\<rparr>))"

definition RaiseNonceFloor ::
  "'b bolt \<Rightarrow> store_env \<Rightarrow> u64 \<Rightarrow> 'b store_state \<Rightarrow> (store_error + unit) \<times> 'b store_state" where
  "RaiseNonceFloor B env floor st =
     (case store_begin env st of
        Some e \<Rightarrow> (Inl e, st)
      | None \<Rightarrow>
          (let (out, db') = store_update env (raise_floor_tx B floor) (st_db st)
           in (public_result out, st\<lparr>st_db := db'\<rparr>)))"

text \<open>
  Pruning checks the context before every entry and before every deletion: the state of the loops
  counts the checks made so far.
\<close>

definition collectTerminal ::
  "tx_decoder \<Rightarrow> BoltStore \<Rightarrow> store_env \<Rightarrow> nat \<times> RescueIncident list \<Rightarrow> bytes \<times> bytes \<Rightarrow>
     store_error + nat \<times> RescueIncident list" where
  "collectTerminal unmarshal S env acc entry =
     (let (n, terminals) = acc
      in case store_contextError (se_ctx env n) of
           Some e \<Rightarrow> Inl e
         | None \<Rightarrow>
             case rescue_entry unmarshal S entry of
               Inl e \<Rightarrow> Inl e
             | Inr incident \<Rightarrow>
                 if isTerminalRescueStatus (ri_Status incident) \<and> ri_Kind incident \<noteq> CandidateClaim
                 then Inr (Suc n, terminals @ [incident]) else Inr (Suc n, terminals))"

definition deleteTerminal ::
  "'b bolt \<Rightarrow> store_env \<Rightarrow> nat \<times> 'b \<Rightarrow> RescueIncident \<Rightarrow> store_error + nat \<times> 'b" where
  "deleteTerminal B env acc terminal =
     (let (n, bucket) = acc
      in case store_contextError (se_ctx env n) of
           Some e \<Rightarrow> Inl e
         | None \<Rightarrow>
             case bdel B bucket (id_bytes (ri_ID terminal)) of
               None \<Rightarrow> Inl engineErr
             | Some bucket' \<Rightarrow> Inr (Suc n, bucket'))"

definition oldest_first :: "RescueIncident list \<Rightarrow> RescueIncident list" where
  "oldest_first terminals = sort_key ri_UpdatedAt (sort_key ri_ID terminals)"

definition prune_tx ::
  "'b bolt \<Rightarrow> tx_decoder \<Rightarrow> BoltStore \<Rightarrow> store_env \<Rightarrow> int \<Rightarrow> 'b store_db \<Rightarrow> store_error + unit \<times> 'b store_db" where
  "prune_tx B unmarshal S env retain db =
     (case foldE (collectTerminal unmarshal S env) (2, []) (bentries B (rescueStateBucket db)) of
        Inl e \<Rightarrow> Inl e
      | Inr (n, terminals) \<Rightarrow>
          case foldE (deleteTerminal B env) (n, rescueStateBucket db)
                 (take (nat (max 0 (int (length terminals) - retain))) (oldest_first terminals)) of
            Inl e \<Rightarrow> Inl e
          | Inr (_, bucket) \<Rightarrow> Inr ((), db\<lparr>rescueStateBucket := bucket\<rparr>))"

definition PruneRescueIncidents ::
  "'b bolt \<Rightarrow> tx_decoder \<Rightarrow> BoltStore \<Rightarrow> store_env \<Rightarrow> int \<Rightarrow> 'b store_state \<Rightarrow>
     (store_error + unit) \<times> 'b store_state" where
  "PruneRescueIncidents B unmarshal S env retain st =
     (if retain < 0 \<or> uint maxConfiguredBound < retain then (Inl errInvalidInput, st)
      else case store_begin env st of
        Some e \<Rightarrow> (Inl e, st)
      | None \<Rightarrow>
          (let (out, db') = store_update env (prune_tx B unmarshal S env retain) (st_db st)
           in (public_result out, st\<lparr>st_db := db'\<rparr>)))"

section \<open>Opening and migration\<close>

abbreviation schemaVersionV1 :: u32 where "schemaVersionV1 \<equiv> 1"
abbreviation schemaVersionV2 :: u32 where "schemaVersionV2 \<equiv> 2"
abbreviation schemaVersion :: u32 where "schemaVersion \<equiv> 3"

definition validateRescueEntry ::
  "tx_decoder \<Rightarrow> BoltStore \<Rightarrow> u32 \<Rightarrow> unit \<Rightarrow> bytes \<times> bytes \<Rightarrow> store_error + unit" where
  "validateRescueEntry unmarshal S schema u entry =
     (case (if schema = schemaVersionV2 then decodeRescueIncidentV2 unmarshal (snd entry)
            else decodeRescueIncident unmarshal (snd entry)) of
        None \<Rightarrow> Inl errCorrupt
      | Some incident \<Rightarrow>
          if length (fst entry) \<noteq> 32 \<or> fst entry \<noteq> id_bytes (ri_ID incident) \<or> ri_Network incident \<noteq> bs_network S
          then Inl errCorrupt else Inr ())"

definition validateRescueStateBucket ::
  "'b seq_bolt \<Rightarrow> tx_decoder \<Rightarrow> BoltStore \<Rightarrow> u32 \<Rightarrow> 'b store_db \<Rightarrow> store_error + unit" where
  "validateRescueStateBucket Q unmarshal S schema db =
     (if bseq Q (rescueStateBucket db) \<noteq> 0 then Inl errCorrupt
      else foldE (validateRescueEntry unmarshal S schema) () (bentries (bkv Q) (rescueStateBucket db)))"

definition migrateEntry ::
  "tx_decoder \<Rightarrow> (bytes \<times> bytes) list \<Rightarrow> bytes \<times> bytes \<Rightarrow> store_error + (bytes \<times> bytes) list" where
  "migrateEntry unmarshal updates entry =
     (case decodeRescueIncidentV2 unmarshal (snd entry) of
        None \<Rightarrow> Inl errCorrupt
      | Some incident \<Rightarrow>
          if length (fst entry) \<noteq> 32 \<or> fst entry \<noteq> id_bytes (ri_ID incident) then Inl errCorrupt
          else if ri_Kind incident \<noteq> CandidateToken \<or> ri_Status incident \<noteq> RescueTrustedSuccess then Inr updates
          else case encodeRescueIncident unmarshal (incident\<lparr>ri_Status := RescueTokenReported\<rparr>) of
                 None \<Rightarrow> Inl errCorrupt
               | Some encoded \<Rightarrow> Inr (updates @ [(fst entry, encoded)]))"

definition put_entry :: "'b bolt \<Rightarrow> 'b \<Rightarrow> bytes \<times> bytes \<Rightarrow> store_error + 'b" where
  "put_entry B bucket item =
     (case bput B bucket (fst item) (snd item) of None \<Rightarrow> Inl engineErr | Some b \<Rightarrow> Inr b)"

definition migrateV2TokenOutcomes ::
  "'b bolt \<Rightarrow> tx_decoder \<Rightarrow> 'b store_db \<Rightarrow> store_error + 'b store_db" where
  "migrateV2TokenOutcomes B unmarshal db =
     (case foldE (migrateEntry unmarshal) [] (bentries B (rescueStateBucket db)) of
        Inl e \<Rightarrow> Inl e
      | Inr updates \<Rightarrow>
          case foldE (put_entry B) (rescueStateBucket db) updates of
            Inl e \<Rightarrow> Inl e
          | Inr bucket \<Rightarrow> Inr (db\<lparr>rescueStateBucket := bucket\<rparr>))"

end
