(* ===== verification/Rescue_Codec.thy ===== *)
theory Rescue_Codec
  imports Store_Rescue
begin

text \<open>
  Round trip of the rescue journal's records. The layout is split where the decoder is: the head
  up to the transaction hash, the tail from the signed transaction on, and the marker byte of a
  record that follows the latest state.
\<close>

section \<open>Layout\<close>

definition rescue_head :: "RescueIncident \<Rightarrow> bytes" where
  "rescue_head r =
     id_bytes (ri_ID r) @ id_bytes (ri_Parent r) @ id_bytes (ri_Candidate r) @ word_bytes 8 (ri_Network r) @
     [ri_Kind r] @ word_bytes 20 (ri_Asset r) @ word_bytes 8 (ri_Generation r) @ [if ri_Trusted r then 1 else 0] @
     word_bytes 4 (rp_MaxAttempts (ri_Policy r)) @ word_bytes 8 (rp_RetryDelay (ri_Policy r)) @
     word_bytes 8 (rp_FinalityTimeout (ri_Policy r)) @ [ri_Status r] @ word_bytes 4 (ri_Attempts r) @
     word_bytes 8 (ri_SponsorNonce r) @ word_bytes 8 (ri_SourceNonce r) @ id_bytes (ri_TxHash r)"

definition rescue_tail :: "RescueIncident \<Rightarrow> bytes" where
  "rescue_tail r =
     word_bytes 4 (word_of_nat (length (ri_SignedTransaction r)) :: u32) @ ri_SignedTransaction r @
     word_bytes 8 (ri_SnapshotBlockNumber r) @ id_bytes (ri_SnapshotBlockHash r) @ id_bytes (ri_SourceBefore r) @
     id_bytes (ri_DestinationBefore r) @ time_bytes (ri_RetryAt r) @ time_bytes (ri_ReconcileUntil r) @
     word_bytes 2 (word_of_nat (length (ri_LastCode r)) :: u16) @ ri_LastCode r @ time_bytes (ri_CreatedAt r) @
     time_bytes (ri_UpdatedAt r)"

lemma normalizeRescueIncident_id [simp]: "normalizeRescueIncident r = r"
  by (simp add: normalizeRescueIncident_def)

lemma sameRescueIncident_eq: "sameRescueIncident l r \<longleftrightarrow> l = r"
  by (cases l; cases r) (auto simp: sameRescueIncident_def sameRescueIdentity_def)

lemma length_rescue_head: "length (rescue_head r) = 207"
  by (simp add: rescue_head_def)

lemma length_rescue_tail:
  "length (rescue_tail r) = 158 + length (ri_SignedTransaction r) + length (ri_LastCode r)"
  by (simp add: rescue_tail_def time_field.enc_length)

lemma encodeRescueIncident_layout:
  "encodeRescueIncident unmarshal r = Some bs \<longleftrightarrow>
     validateRescueIncident unmarshal r \<and>
     bs = [if rp_LatestState (ri_Policy r) then 3 else 2] @ rescue_head r @ rescue_tail r @
       (if rp_LatestState (ri_Policy r) then [1] else [])"
  by (auto simp: encodeRescueIncident_def append_defs Let_def rescue_head_def rescue_tail_def)

section \<open>Reading the parts\<close>

text \<open>The record with the head's fields only, as the decoder holds it in between.\<close>

definition head_of :: "RescueIncident \<Rightarrow> RescueIncident" where
  "head_of r = r\<lparr>ri_Policy := (ri_Policy r)\<lparr>rp_LatestState := False\<rparr>, ri_SignedTransaction := [],
     ri_SnapshotBlockNumber := 0, ri_SnapshotBlockHash := 0, ri_SourceBefore := 0, ri_DestinationBefore := 0,
     ri_RetryAt := zeroTime, ri_ReconcileUntil := zeroTime, ri_LastCode := [], ri_CreatedAt := zeroTime,
     ri_UpdatedAt := zeroTime\<rparr>"

definition storable_rescue :: "RescueIncident \<Rightarrow> bool" where
  "storable_rescue r \<longleftrightarrow>
     ri_Network r \<le> maxNetwork \<and> rp_RetryDelay (ri_Policy r) \<le> maxNetwork \<and>
     rp_FinalityTimeout (ri_Policy r) \<le> maxNetwork \<and>
     int (length (ri_SignedTransaction r)) \<le> maxSignedTransactionLen \<and>
     int (length (ri_LastCode r)) \<le> maxErrorCodeBytes \<and>
     storable_time (ri_RetryAt r) \<and> storable_time (ri_ReconcileUntil r) \<and>
     storable_time (ri_CreatedAt r) \<and> storable_time (ri_UpdatedAt r)"

lemma decode_head:
  assumes at: "rest_at data 1 (rescue_head r @ rest)" and ok: "storable_rescue r"
  shows "decodeRescueHead data = Some (head_of r, 208)" and "rest_at data 208 rest"
proof -
  note a0 = at [unfolded rescue_head_def append_assoc]
  note a1 = hash_field.rest_after [OF a0] and r0 = hash_field.read_back [OF a0 TrueI]
  note a2 = hash_field.rest_after [OF a1] and r1 = hash_field.read_back [OF a1 TrueI]
  note a3 = hash_field.rest_after [OF a2] and r2 = hash_field.read_back [OF a2 TrueI]
  note a4 = u64_field.rest_after [OF a3] and r3 = u64_field.read_back [OF a3 TrueI]
  note a5 = byte_field.rest_after [OF a4] and r4 = byte_field.read_back [OF a4 TrueI]
  note a6 = address_field.rest_after [OF a5] and r5 = address_field.read_back [OF a5 TrueI]
  note a7 = u64_field.rest_after [OF a6] and r6 = u64_field.read_back [OF a6 TrueI]
  note a8 = byte_field.rest_after [OF a7] and r7 = byte_field.read_back [OF a7 TrueI]
  note a9 = u32_field.rest_after [OF a8] and r8 = u32_field.read_back [OF a8 TrueI]
  note a10 = u64_field.rest_after [OF a9] and r9 = u64_field.read_back [OF a9 TrueI]
  note a11 = u64_field.rest_after [OF a10] and r10 = u64_field.read_back [OF a10 TrueI]
  note a12 = byte_field.rest_after [OF a11] and r11 = byte_field.read_back [OF a11 TrueI]
  note a13 = u32_field.rest_after [OF a12] and r12 = u32_field.read_back [OF a12 TrueI]
  note a14 = u64_field.rest_after [OF a13] and r13 = u64_field.read_back [OF a13 TrueI]
  note a15 = u64_field.rest_after [OF a14] and r14 = u64_field.read_back [OF a14 TrueI]
  note a16 = hash_field.rest_after [OF a15] and r15 = hash_field.read_back [OF a15 TrueI]
  note reads = r0 r1 r2 r3 r4 r5 r6 r7 r8 r9 r10 r11 r12 r13 r14 r15
  show "rest_at data 208 rest" using a16 by simp
  show "decodeRescueHead data = Some (head_of r, 208)"
    using reads ok [unfolded storable_rescue_def]
    by (cases "ri_Trusted r"; cases r; cases "ri_Policy r")
      (simp_all add: decodeRescueHead_def head_of_def not_less cong: bind_weak_cong)
qed

lemma decode_tail:
  assumes at: "rest_at data off (rescue_tail r @ rest)" and ok: "storable_rescue r"
  shows "decodeRescueTail data (head_of r) off =
      Some (r\<lparr>ri_Policy := (ri_Policy r)\<lparr>rp_LatestState := False\<rparr>\<rparr>, off + int (length (rescue_tail r)))"
    and "rest_at data (off + int (length (rescue_tail r))) rest"
proof -
  define n :: u32 where "n = word_of_nat (length (ri_SignedTransaction r))"
  define m :: u16 where "m = word_of_nat (length (ri_LastCode r))"
  note ok' = ok [unfolded storable_rescue_def]
  have n: "uint n = int (length (ri_SignedTransaction r))" "unat n = length (ri_SignedTransaction r)"
    using ok' by (simp_all add: n_def unsigned_of_nat take_bit_nat_eq_self)
  have m: "uint m = int (length (ri_LastCode r))" "unat m = length (ri_LastCode r)"
    using ok' by (simp_all add: m_def unsigned_of_nat take_bit_nat_eq_self)
  note a0 = at [unfolded rescue_tail_def append_assoc, folded n_def m_def]
  note a1 = u32_field.rest_after [OF a0] and r0 = u32_field.read_back [OF a0 TrueI]
  note a2 = slice_after [OF a1 refl] and r1 = read_slice_back [OF a1 refl]
  note a3 = u64_field.rest_after [OF a2] and r2 = u64_field.read_back [OF a2 TrueI]
  note a4 = hash_field.rest_after [OF a3] and r3 = hash_field.read_back [OF a3 TrueI]
  note a5 = hash_field.rest_after [OF a4] and r4 = hash_field.read_back [OF a4 TrueI]
  note a6 = hash_field.rest_after [OF a5] and r5 = hash_field.read_back [OF a5 TrueI]
  note a7 = time_field.rest_after [OF a6] and r6 = time_field.read_back [OF a6]
  note a8 = time_field.rest_after [OF a7] and r7 = time_field.read_back [OF a7]
  note a9 = u16_field.rest_after [OF a8] and r8 = u16_field.read_back [OF a8 TrueI]
  note a10 = slice_after [OF a9 refl] and r9 = read_slice_back [OF a9 refl]
  note a11 = time_field.rest_after [OF a10] and r10 = time_field.read_back [OF a10]
  note r11 = time_field.read_back [OF a11]
  note reads = r0 r1 r2 r3 r4 r5 r6 r7 r8 r9 r10 r11
  show "rest_at data (off + int (length (rescue_tail r))) rest"
    by (rule rest_at_step [OF at])
  show "decodeRescueTail data (head_of r) off =
      Some (r\<lparr>ri_Policy := (ri_Policy r)\<lparr>rp_LatestState := False\<rparr>\<rparr>, off + int (length (rescue_tail r)))"
    using reads ok' n m
    by (simp add: decodeRescueTail_def head_of_def length_rescue_tail algebra_simps cong: bind_weak_cong)
qed

section \<open>Round trip\<close>

lemma valid_rescue_storable:
  assumes "validRescueFrame r" and "time_ok (ri_RetryAt r)" and "time_ok (ri_ReconcileUntil r)"
    and "time_ok (ri_CreatedAt r)" and "time_ok (ri_UpdatedAt r)"
  shows "storable_rescue r"
proof -
  have "storable_time t" if "time_ok t" "IsZero t \<or> validRescueTime t" for t
    using that validRescueTime_storable by (auto simp: IsZero_def)
  moreover have "n \<le> maxNetwork" if "\<not> sint n \<le> 0" for n :: u64
    using that by (rule network_not_too_big)
  ultimately show ?thesis
    using assms unfolding storable_rescue_def validRescueFrame_def by (metis not_less)
qed

lemma decode_rescue_parts:
  assumes bs: "bs = [v] @ rescue_head r @ rescue_tail r @ rest" and ok: "storable_rescue r"
  shows "decodeRescueHead bs = Some (head_of r, 208)"
    and "decodeRescueTail bs (head_of r) 208 =
      Some (r\<lparr>ri_Policy := (ri_Policy r)\<lparr>rp_LatestState := False\<rparr>\<rparr>, 208 + int (length (rescue_tail r)))"
    and "rest_at bs (208 + int (length (rescue_tail r))) rest"
proof -
  have "rest_at bs 1 (rescue_head r @ rescue_tail r @ rest)"
    using bs by (simp add: rest_at_def)
  note h = decode_head [OF this ok]
  note t = decode_tail [OF h(2) ok]
  show "decodeRescueHead bs = Some (head_of r, 208)" by (rule h(1))
  show "decodeRescueTail bs (head_of r) 208 =
      Some (r\<lparr>ri_Policy := (ri_Policy r)\<lparr>rp_LatestState := False\<rparr>\<rparr>, 208 + int (length (rescue_tail r)))"
    by (rule t(1))
  show "rest_at bs (208 + int (length (rescue_tail r))) rest" by (rule t(2))
qed

text \<open>
  What either decoder finds in a written record: the record itself, checked after the legacy
  adjustment. A record that follows the latest state is unknown to the previous schema.
\<close>

lemma decode_written:
  assumes bs: "bs = [if rp_LatestState (ri_Policy r) then 3 else 2] @ rescue_head r @ rescue_tail r @
      (if rp_LatestState (ri_Policy r) then [1] else [])"
    and ok: "storable_rescue r" and legacy: "legacy \<longrightarrow> \<not> rp_LatestState (ri_Policy r)"
  shows "decodeRescueIncidentForSchema unmarshal bs legacy =
    (case legacyValidated legacy r of None \<Rightarrow> None
     | Some v \<Rightarrow> if validateRescueIncident unmarshal v then Some r else None)"
proof (cases "rp_LatestState (ri_Policy r)")
  case True
  then have bs': "bs = [3] @ rescue_head r @ rescue_tail r @ [1]" using bs by simp
  note p = decode_rescue_parts [OF bs' ok]
  have "readByte bs (208 + int (length (rescue_tail r))) = Some (1, 209 + int (length (rescue_tail r)))"
    using read_byte_back [OF p(3)] by simp
  moreover have "int (length bs) = 209 + int (length (rescue_tail r))" "bs ! 0 = 3"
    using bs' by (simp_all add: length_rescue_head)
  moreover have e: "r\<lparr>ri_Policy := (ri_Policy r)\<lparr>rp_LatestState := True\<rparr>\<rparr> = r"
    using True by (cases r; cases "ri_Policy r") simp
  ultimately show ?thesis
    using p legacy True
    by (auto simp: decodeRescueIncidentForSchema_def decodeRescueMarker_def length_rescue_tail e cong: bind_weak_cong split: option.splits)
next
  case False
  then have bs': "bs = [2] @ rescue_head r @ rescue_tail r @ []" using bs by simp
  note p = decode_rescue_parts [OF bs' ok]
  have "int (length bs) = 208 + int (length (rescue_tail r))" "bs ! 0 = 2"
    using bs' by (simp_all add: length_rescue_head)
  moreover have e: "r\<lparr>ri_Policy := (ri_Policy r)\<lparr>rp_LatestState := False\<rparr>\<rparr> = r"
    using False by (cases r; cases "ri_Policy r") simp
  ultimately show ?thesis
    using p
    by (auto simp: decodeRescueIncidentForSchema_def decodeRescueMarker_def length_rescue_tail e cong: bind_weak_cong split: option.splits)
qed

lemma decode_encode_rescue:
  assumes enc: "encodeRescueIncident unmarshal r = Some bs"
    and t: "time_ok (ri_RetryAt r)" "time_ok (ri_ReconcileUntil r)" "time_ok (ri_CreatedAt r)" "time_ok (ri_UpdatedAt r)"
  shows "decodeRescueIncident unmarshal bs = Some r"
proof -
  from enc have v: "validateRescueIncident unmarshal r"
    and bs: "bs = [if rp_LatestState (ri_Policy r) then 3 else 2] @ rescue_head r @ rescue_tail r @
      (if rp_LatestState (ri_Policy r) then [1] else [])"
    by (simp_all only: encodeRescueIncident_layout)
  have "storable_rescue r"
    by (rule valid_rescue_storable [OF _ t]) (use v in \<open>simp add: validateRescueIncident_def\<close>)
  from decode_written [OF bs this, of False] v show ?thesis
    by (simp add: decodeRescueIncident_def legacyValidated_def)
qed

text \<open>What a decoder returns is storable and valid.\<close>

lemma decoded_tail:
  assumes "decodeRescueTail data r off = Some (r', off')"
  shows "storable_time (ri_RetryAt r')" "storable_time (ri_ReconcileUntil r')" "storable_time (ri_CreatedAt r')"
    "storable_time (ri_UpdatedAt r')"
  using assms
  by (auto simp: decodeRescueTail_def bind_eq_Some_conv dest: readTime_storable split: if_splits)

lemma decoded_schema:
  assumes "decodeRescueIncidentForSchema unmarshal data legacy = Some r"
  obtains v where "legacyValidated legacy r = Some v" "validateRescueIncident unmarshal v"
    "time_ok (ri_RetryAt r)" "time_ok (ri_ReconcileUntil r)" "time_ok (ri_CreatedAt r)" "time_ok (ri_UpdatedAt r)"
proof -
  from assms obtain h o1 t o2 o3 v where t: "decodeRescueTail data h o1 = Some (t, o2)"
    and m: "decodeRescueMarker data t o2 = Some (r, o3)"
    and v: "legacyValidated legacy r = Some v" "validateRescueIncident unmarshal v"
    unfolding decodeRescueIncidentForSchema_def
    by (auto simp: bind_eq_Some_conv split: if_splits)
  from m have r: "ri_RetryAt r = ri_RetryAt t" "ri_ReconcileUntil r = ri_ReconcileUntil t"
    "ri_CreatedAt r = ri_CreatedAt t" "ri_UpdatedAt r = ri_UpdatedAt t"
    by (auto simp: decodeRescueMarker_def bind_eq_Some_conv split: if_splits)
  from decoded_tail [OF t] r have "time_ok (ri_RetryAt r)" "time_ok (ri_ReconcileUntil r)"
    "time_ok (ri_CreatedAt r)" "time_ok (ri_UpdatedAt r)"
    by (simp_all add: storable_time_def)
  with v show ?thesis by (rule that)
qed

lemma decoded_rescue:
  assumes "decodeRescueIncident unmarshal data = Some r"
  shows "validateRescueIncident unmarshal r" "time_ok (ri_RetryAt r)" "time_ok (ri_ReconcileUntil r)"
    "time_ok (ri_CreatedAt r)" "time_ok (ri_UpdatedAt r)"
proof -
  from decoded_schema [OF assms [unfolded decodeRescueIncident_def]]
  obtain v where "legacyValidated False r = Some v" "validateRescueIncident unmarshal v"
    and t: "time_ok (ri_RetryAt r)" "time_ok (ri_ReconcileUntil r)" "time_ok (ri_CreatedAt r)" "time_ok (ri_UpdatedAt r)" .
  then show "validateRescueIncident unmarshal r" by (simp add: legacyValidated_def)
  show "time_ok (ri_RetryAt r)" "time_ok (ri_ReconcileUntil r)" "time_ok (ri_CreatedAt r)" "time_ok (ri_UpdatedAt r)"
    using t by simp_all
qed

text \<open>A record that is not a legacy token success means the same in both schemas.\<close>

lemma decode_V2_unchanged:
  assumes d: "decodeRescueIncidentV2 unmarshal data = Some r"
    and n: "\<not> (ri_Kind r = CandidateToken \<and> ri_Status r = RescueTrustedSuccess)"
  shows "decodeRescueIncident unmarshal data = Some r"
proof -
  from n have "legacyValidated True r = Some v \<Longrightarrow> v = r" for v
    by (auto simp: legacyValidated_def split: if_splits)
  with d show ?thesis
    unfolding decodeRescueIncidentV2_def decodeRescueIncident_def decodeRescueIncidentForSchema_def
    by (auto simp: bind_eq_Some_conv legacyValidated_def [of False] split: if_splits)
qed

lemma decode_V2_token_success:
  assumes d: "decodeRescueIncidentV2 unmarshal data = Some r"
    and t: "ri_Kind r = CandidateToken" "ri_Status r = RescueTrustedSuccess"
  shows "\<exists>bs. encodeRescueIncident unmarshal (r\<lparr>ri_Status := RescueTokenReported\<rparr>) = Some bs \<and>
    decodeRescueIncident unmarshal bs = Some (r\<lparr>ri_Status := RescueTokenReported\<rparr>)"
proof -
  let ?r = "r\<lparr>ri_Status := RescueTokenReported\<rparr>"
  from decoded_schema [OF d [unfolded decodeRescueIncidentV2_def]]
  obtain v where v: "legacyValidated True r = Some v" "validateRescueIncident unmarshal v"
    and tm: "time_ok (ri_RetryAt r)" "time_ok (ri_ReconcileUntil r)" "time_ok (ri_CreatedAt r)" "time_ok (ri_UpdatedAt r)" .
  have "ri_Trusted r"
    using v t by (auto simp: legacyValidated_def validateRescueIncident_def split: if_splits)
  with v t have "validateRescueIncident unmarshal ?r"
    by (simp add: legacyValidated_def)
  then obtain bs where bs: "encodeRescueIncident unmarshal ?r = Some bs"
    by (simp add: encodeRescueIncident_def Let_def)
  moreover have "decodeRescueIncident unmarshal bs = Some ?r"
    by (rule decode_encode_rescue [OF bs]) (simp_all add: tm)
  ultimately show ?thesis by blast
qed

end
