(* ===== verification/Rescue_Phases.thy ===== *)
theory Rescue_Phases
  imports Rescue_Codec
begin

text \<open>
  The life of one rescue as a small machine: waiting, preparing an attempt, backing off before
  the next one, a transaction in flight, finished. Every transition the store accepts is a step of
  this machine.
\<close>

section \<open>Phases of a rescue\<close>

datatype phase =
    Waiting
  | Preparing u32
  | BackingOff u32
  | InFlight u32 hash
  | Finished RescueStatus u32 hash

definition phase_of :: "RescueIncident \<Rightarrow> phase" where
  "phase_of r =
     (if ri_Status r = RescuePending then Waiting
      else if ri_Status r = RescuePrepared then Preparing (ri_Attempts r)
      else if ri_Status r = RescueRetryable then BackingOff (ri_Attempts r)
      else if ri_Status r \<in> {RescueSigned, RescueBroadcast, RescueAmbiguous} then InFlight (ri_Attempts r) (ri_TxHash r)
      else Finished (ri_Status r) (ri_Attempts r) (ri_TxHash r))"

inductive phase_step :: "phase \<Rightarrow> phase \<Rightarrow> bool" where
  first_attempt: "phase_step Waiting (Preparing 1)"
| first_failure: "phase_step Waiting (BackingOff 1)"
| sign: "h \<noteq> 0 \<Longrightarrow> phase_step (Preparing n) (InFlight n h)"
| back_off: "phase_step (Preparing n) (BackingOff n)"
| give_up: "s \<in> {RescueExhausted, RescueFailed} \<Longrightarrow> phase_step (Preparing n) (Finished s n 0)"
| retry: "n < 0xffffffff \<Longrightarrow> phase_step (BackingOff n) (Preparing (n + 1))"
| retry_failure: "n < 0xffffffff \<Longrightarrow> phase_step (BackingOff n) (BackingOff (n + 1))"
| exhausted: "s \<in> {RescueExhausted, RescueFailed} \<Longrightarrow> phase_step (BackingOff n) (Finished s n 0)"
| in_flight: "phase_step (InFlight n h) (InFlight n h)"
| settled: "isReceiptTerminalStatus s \<Longrightarrow> phase_step (InFlight n h) (Finished s n h)"

lemma valid_statuses:
  assumes "validateRescueIncident unmarshal r"
  shows "ri_Status r \<in> {RescuePending, RescuePrepared, RescueSigned, RescueBroadcast, RescueRetryable,
      RescueAmbiguous, RescueExhausted, RescueFailed, RescueTrustedSuccess, RescueTokenReported, RescueLostRace}"
  using assms by (auto simp: validateRescueIncident_def validStatusFields_def split: if_splits)

lemma terminal_phase:
  "validateRescueIncident unmarshal r \<Longrightarrow>
     isTerminalRescueStatus (ri_Status r) \<longleftrightarrow> (\<exists>s n h. phase_of r = Finished s n h)"
  using valid_statuses [of unmarshal r] by (auto simp: phase_of_def isTerminalRescueStatus_def)

lemma in_flight_hash:
  assumes "validateRescueIncident unmarshal r" and "ri_Status r \<in> {RescueSigned, RescueBroadcast, RescueAmbiguous}"
  shows "ri_TxHash r \<noteq> 0"
  using assms
  by (auto simp: validateRescueIncident_def validStatusFields_def validateSignedRescueTransaction_def)

lemma exhausted_hash:
  assumes "validateRescueIncident unmarshal r" and "ri_Status r = RescueExhausted"
  shows "ri_TxHash r = 0"
  using assms by (auto simp: validateRescueIncident_def validStatusFields_def hasNoSignedTransaction_def)

lemma unsigned_hash:
  assumes "validateRescueIncident unmarshal r" and "ri_Status r \<in> {RescuePending, RescuePrepared, RescueRetryable}"
  shows "ri_TxHash r = 0"
  using assms
  by (auto simp: validateRescueIncident_def validPendingState_def validStatusFields_def hasNoSignedTransaction_def)

lemma succ_u32: "(n :: u32) < 0xffffffff \<Longrightarrow> n < n + 1"
  by (simp add: word_less_def uint_word_ariths)

text \<open>Every accepted transition is a step of the machine.\<close>

lemma transition_statuses:
  assumes "validRescueTransition current next"
  shows "ri_Status current \<in> {RescuePending, RescuePrepared, RescueSigned, RescueBroadcast, RescueRetryable, RescueAmbiguous}"
  using assms by (auto simp: validRescueTransition_def split: if_splits)

lemma transition_phase_step:
  assumes t: "validRescueTransition current next" and v: "validateRescueIncident unmarshal next"
  shows "phase_step (phase_of current) (phase_of next)"
proof -
  note s = transition_statuses [OF t] and h = in_flight_hash [OF v] exhausted_hash [OF v]
  consider "ri_Status current = RescuePending" | "ri_Status current = RescuePrepared"
    | "ri_Status current = RescueRetryable"
    | "ri_Status current \<in> {RescueSigned, RescueBroadcast, RescueAmbiguous}"
    using s by auto
  then show ?thesis
  proof cases
    case 1
    then have "ri_Status next = RescuePrepared \<or> ri_Status next = RescueRetryable" "ri_Attempts next = 1"
      using t by (auto simp: validRescueTransition_def)
    with 1 show ?thesis by (auto simp: phase_of_def intro: phase_step.intros)
  next
    case 2
    then have "ri_Attempts next = ri_Attempts current"
      "ri_Status next \<in> {RescueSigned, RescueRetryable, RescueExhausted} \<or>
       ri_Status next = RescueFailed \<and> ri_TxHash next = 0"
      using t by (auto simp: validRescueTransition_def Let_def)
    with 2 h show ?thesis by (auto simp: phase_of_def intro: phase_step.intros)
  next
    case 3
    then have "ri_Status next \<in> {RescuePrepared, RescueRetryable} \<and> ri_Attempts current < 0xffffffff \<and>
        ri_Attempts next = ri_Attempts current + 1 \<or>
      (ri_Status next = RescueExhausted \<or> ri_Status next = RescueFailed \<and> ri_TxHash next = 0) \<and>
        ri_Attempts next = ri_Attempts current"
      using t by (auto simp: validRescueTransition_def split: if_splits)
    with 3 h show ?thesis
      by (auto simp: phase_of_def intro: phase_step.intros)
  next
    case 4
    then have "ri_Attempts next = ri_Attempts current" "ri_TxHash next = ri_TxHash current"
      "ri_Status next \<in> {RescueSigned, RescueBroadcast, RescueAmbiguous} \<or> isReceiptTerminalStatus (ri_Status next)"
      using t
      by (auto simp: validRescueTransition_def sameSignedRescueOperation_def validReceiptTerminalTransition_def
          split: if_splits)
    with 4 show ?thesis
      by (auto simp: phase_of_def isReceiptTerminalStatus_def intro: phase_step.intros)
  qed
qed

end
