(* ===== verification/Rescue_Journal.thy ===== *)
theory Rescue_Journal
  imports Rescue_Phases
begin

text \<open>
  What the rescue journal promises: a table of records whose entries change only by accepted
  transitions, by the creation of a pending record and by the pruning of finished ones, and a
  nonce floor that never falls.
\<close>

section \<open>The journal as a table\<close>

definition rescue_table :: "'b bolt \<Rightarrow> tx_decoder \<Rightarrow> 'b store_db \<Rightarrow> IncidentID \<Rightarrow> RescueIncident option" where
  "rescue_table B unmarshal db iid =
     Option.bind (bget B (rescueStateBucket db) (id_bytes iid)) (decodeRescueIncident unmarshal)"

definition rescues_ok :: "'b bolt \<Rightarrow> tx_decoder \<Rightarrow> BoltStore \<Rightarrow> 'b store_db \<Rightarrow> bool" where
  "rescues_ok B unmarshal S db \<longleftrightarrow>
     (\<forall>k v. bget B (rescueStateBucket db) k = Some v \<longrightarrow>
        (\<exists>r. decodeRescueIncident unmarshal v = Some r \<and> k = id_bytes (ri_ID r) \<and> ri_Network r = bs_network S))"

definition nonce_floor :: "'b bolt \<Rightarrow> 'b store_db \<Rightarrow> u64 option" where
  "nonce_floor B db = decodeUint64 (slice_of (bget B (metaBucket db) nonceFloorKey))"

inductive entry_step :: "RescueIncident option \<Rightarrow> RescueIncident option \<Rightarrow> bool" where
  keep: "entry_step e e"
| create: "ri_Status r = RescuePending \<Longrightarrow> entry_step None (Some r)"
| move: "validRescueTransition r r' \<Longrightarrow> entry_step (Some r) (Some r')"
| prune: "isTerminalRescueStatus (ri_Status r) \<Longrightarrow> ri_Kind r \<noteq> CandidateClaim \<Longrightarrow> entry_step (Some r) None"

inductive_simps entry_step_from [simp]: "entry_step (Some r) e"

datatype rescue_call =
    CallPut RescueIncident
  | CallUpdate RescueIncident
  | CallRaise u64
  | CallPrune int

fun rescue_call_result ::
  "'b bolt \<Rightarrow> tx_decoder \<Rightarrow> BoltStore \<Rightarrow> store_env \<Rightarrow> rescue_call \<Rightarrow> 'b store_state \<Rightarrow>
     (store_error + RescueIncident option) \<times> 'b store_state" where
  "rescue_call_result B U S env (CallPut r) st = apfst (map_sum id Some) (PutRescueIncident B U S env r st)"
| "rescue_call_result B U S env (CallUpdate r) st = apfst (map_sum id (\<lambda>_. None)) (UpdateRescueIncident B U S env r st)"
| "rescue_call_result B U S env (CallRaise n) st = apfst (map_sum id (\<lambda>_. None)) (RaiseNonceFloor B env n st)"
| "rescue_call_result B U S env (CallPrune k) st = apfst (map_sum id (\<lambda>_. None)) (PruneRescueIncidents B U S env k st)"

text \<open>The times of an argument are values of \<^verbatim>\<open>time.Time\<close>.\<close>

definition rescue_times_ok :: "RescueIncident \<Rightarrow> bool" where
  "rescue_times_ok r \<longleftrightarrow>
     time_ok (ri_RetryAt r) \<and> time_ok (ri_ReconcileUntil r) \<and> time_ok (ri_CreatedAt r) \<and> time_ok (ri_UpdatedAt r)"

fun call_times_ok :: "rescue_call \<Rightarrow> bool" where
  "call_times_ok (CallPut r) \<longleftrightarrow> rescue_times_ok r"
| "call_times_ok (CallUpdate r) \<longleftrightarrow> rescue_times_ok r"
| "call_times_ok _ \<longleftrightarrow> True"

lemma rescues_okD:
  assumes "rescues_ok B U S db" and "bget B (rescueStateBucket db) (id_bytes iid) = Some v"
  obtains r where "decodeRescueIncident U v = Some r" "ri_ID r = iid" "ri_Network r = bs_network S"
    "rescue_table B U db iid = Some r"
proof -
  from assms obtain r where r: "decodeRescueIncident U v = Some r" "id_bytes iid = id_bytes (ri_ID r)"
    "ri_Network r = bs_network S"
    unfolding rescues_ok_def by blast
  then have i: "ri_ID r = iid" by simp
  have "rescue_table B U db iid = Some r" using assms(2) r(1) by (simp add: rescue_table_def)
  with r(1) i r(3) show ?thesis by (rule that)
qed

lemma rescue_table_None:
  assumes "rescues_ok B U S db"
  shows "rescue_table B U db iid = None \<longleftrightarrow> bget B (rescueStateBucket db) (id_bytes iid) = None"
proof (cases "bget B (rescueStateBucket db) (id_bytes iid)")
  case (Some v)
  from rescues_okD [OF assms this] obtain r where "rescue_table B U db iid = Some r" .
  with Some show ?thesis by simp
qed (simp add: rescue_table_def)

lemma rescue_table_Some:
  assumes "rescues_ok B U S db" and "rescue_table B U db iid = Some r"
  shows "ri_ID r = iid" "ri_Network r = bs_network S" "validateRescueIncident U r" "rescue_times_ok r"
proof -
  from assms(2) obtain v where v: "bget B (rescueStateBucket db) (id_bytes iid) = Some v"
    and d: "decodeRescueIncident U v = Some r"
    by (auto simp: rescue_table_def bind_eq_Some_conv)
  from rescues_okD [OF assms(1) v] obtain r' where "decodeRescueIncident U v = Some r'" "ri_ID r' = iid"
    "ri_Network r' = bs_network S" .
  with d show "ri_ID r = iid" "ri_Network r = bs_network S" by simp_all
  show "validateRescueIncident U r" "rescue_times_ok r"
    using decoded_rescue [OF d] by (simp_all add: rescue_times_ok_def)
qed

section \<open>Effects of the operations\<close>

lemma put_rescue_effect:
  assumes B: "bolt_engine B" and ok: "rescues_ok B U S db"
    and put: "put_rescue B (id_bytes (ri_ID r)) bs db x = Inr (y, db')"
    and r: "decodeRescueIncident U bs = Some r" and net: "ri_Network r = bs_network S"
  shows "rescue_table B U db' = (rescue_table B U db)(ri_ID r \<mapsto> r)" "rescues_ok B U S db'"
    "nonce_floor B db' = nonce_floor B db" "y = x"
proof -
  from put obtain b where b: "bput B (rescueStateBucket db) (id_bytes (ri_ID r)) bs = Some b"
    and db': "db' = db\<lparr>rescueStateBucket := b\<rparr>" and "y = x"
    by (auto simp: put_rescue_def split: option.splits)
  note g = bolt_engine.get_put [OF B b]
  show "rescue_table B U db' = (rescue_table B U db)(ri_ID r \<mapsto> r)"
    using r by (simp add: rescue_table_def g db' fun_eq_iff)
  show "rescues_ok B U S db'"
    using ok r net unfolding rescues_ok_def by (simp add: g db')
  show "nonce_floor B db' = nonce_floor B db" by (simp add: nonce_floor_def db')
  show "y = x" by fact
qed

definition journal_step :: "'b bolt \<Rightarrow> tx_decoder \<Rightarrow> BoltStore \<Rightarrow> 'b store_db \<Rightarrow> 'b store_db \<Rightarrow> bool" where
  "journal_step B U S db db' \<longleftrightarrow>
     rescues_ok B U S db' \<and>
     (\<forall>iid. entry_step (rescue_table B U db iid) (rescue_table B U db' iid)) \<and>
     (\<forall>n. nonce_floor B db = Some n \<longrightarrow> (\<exists>m \<ge> n. nonce_floor B db' = Some m))"

lemma journal_step_refl: "rescues_ok B U S db \<Longrightarrow> journal_step B U S db db"
  by (auto simp: journal_step_def intro: entry_step.keep)

lemma put_incident_tx_step:
  assumes B: "bolt_engine B" and ok: "rescues_ok B U S db" and t: "rescue_times_ok r"
    and enc: "encodeRescueIncident U r = Some bs" and net: "ri_Network r = bs_network S"
    and p: "ri_Status r = RescuePending"
    and tx: "put_incident_tx B U S r bs db = Inr (x, db')"
  shows "journal_step B U S db db'"
    and "rescue_table B U db' = (rescue_table B U db)(ri_ID r \<mapsto> x)" and "sameRescueIdentity x r"
    and "rescue_table B U db (ri_ID r) = None \<Longrightarrow> x = r"
    and "rescue_table B U db (ri_ID r) = Some y \<Longrightarrow> x = y \<and> db' = db"
proof -
  have d: "decodeRescueIncident U bs = Some r"
    using decode_encode_rescue [OF enc] t by (simp add: rescue_times_ok_def)
  have "journal_step B U S db db' \<and> rescue_table B U db' = (rescue_table B U db)(ri_ID r \<mapsto> x) \<and> sameRescueIdentity x r \<and>
    (rescue_table B U db (ri_ID r) = None \<longrightarrow> x = r) \<and>
    (\<forall>y. rescue_table B U db (ri_ID r) = Some y \<longrightarrow> x = y \<and> db' = db)"
  proof (cases "bget B (rescueStateBucket db) (id_bytes (ri_ID r))")
    case None
    with tx have put: "put_rescue B (id_bytes (ri_ID r)) bs db r = Inr (x, db')"
      by (simp add: put_incident_tx_def)
    have n: "rescue_table B U db (ri_ID r) = None" using None by (simp add: rescue_table_def)
    note e = put_rescue_effect [OF B ok put d net]
    have "journal_step B U S db db'"
      unfolding journal_step_def using e n p by (auto intro: entry_step.intros)
    with e n show ?thesis by (simp add: sameRescueIdentity_def)
  next
    case (Some v)
    from rescues_okD [OF ok this] obtain y where "decodeRescueIncident U v = Some y"
      "rescue_table B U db (ri_ID r) = Some y" .
    with Some tx have "x = y" "db' = db" "sameRescueIdentity y r" "rescue_table B U db (ri_ID r) = Some y"
      by (auto simp: put_incident_tx_def split: if_splits)
    then show ?thesis using journal_step_refl [OF ok] by (simp add: fun_upd_idem)
  qed
  then show "journal_step B U S db db'" "rescue_table B U db' = (rescue_table B U db)(ri_ID r \<mapsto> x)" "sameRescueIdentity x r"
    "rescue_table B U db (ri_ID r) = None \<Longrightarrow> x = r"
    "rescue_table B U db (ri_ID r) = Some y \<Longrightarrow> x = y \<and> db' = db"
    by simp_all
qed

lemma update_incident_tx_step:
  assumes B: "bolt_engine B" and ok: "rescues_ok B U S db" and t: "rescue_times_ok r"
    and enc: "encodeRescueIncident U r = Some bs" and net: "ri_Network r = bs_network S"
    and tx: "update_incident_tx B U S r bs db = Inr (x, db')"
  shows "journal_step B U S db db' \<and> rescue_table B U db' = (rescue_table B U db)(ri_ID r \<mapsto> r)"
proof -
  have d: "decodeRescueIncident U bs = Some r"
    using decode_encode_rescue [OF enc] t by (simp add: rescue_times_ok_def)
  from tx obtain v c where v: "bget B (rescueStateBucket db) (id_bytes (ri_ID r)) = Some v"
    and c: "decodeRescueIncident U v = Some c"
    by (auto simp: update_incident_tx_def split: option.splits)
  have tc: "rescue_table B U db (ri_ID r) = Some c" using v c by (simp add: rescue_table_def)
  show ?thesis
  proof (cases "c = r")
    case True
    with tx v c have "db' = db"
      by (auto simp: update_incident_tx_def sameRescueIncident_eq split: if_splits)
    with True tc journal_step_refl [OF ok] show ?thesis by auto
  next
    case False
    with tx v c have tr: "validRescueTransition c r"
      and put: "put_rescue B (id_bytes (ri_ID r)) bs db () = Inr (x, db')"
      by (auto simp: update_incident_tx_def sameRescueIncident_eq split: if_splits)
    note e = put_rescue_effect [OF B ok put d net]
    have "entry_step (rescue_table B U db iid) (rescue_table B U db' iid)" for iid
      using tc tr by (cases "iid = ri_ID r") (simp_all add: e(1) entry_step.intros)
    with e show ?thesis by (auto simp: journal_step_def)
  qed
qed

lemma raise_floor_tx_step:
  assumes B: "bolt_engine B" and ok: "rescues_ok B U S db" and tx: "raise_floor_tx B n db = Inr (x, db')"
  shows "journal_step B U S db db'" and "\<exists>m \<ge> n. nonce_floor B db' = Some m"
    and "rescue_table B U db' = rescue_table B U db"
proof -
  from tx obtain c where c: "nonce_floor B db = Some c"
    by (auto simp: raise_floor_tx_def nonce_floor_def split: option.splits)
  have "journal_step B U S db db' \<and> (\<exists>m \<ge> n. nonce_floor B db' = Some m) \<and> rescue_table B U db' = rescue_table B U db"
  proof (cases "n \<le> c")
    case True
    with tx c have "db' = db" by (auto simp: raise_floor_tx_def nonce_floor_def)
    with True c journal_step_refl [OF ok] show ?thesis by auto
  next
    case False
    with tx c obtain b where b: "bput B (metaBucket db) nonceFloorKey (encodeUint64 n) = Some b"
      and db': "db' = db\<lparr>metaBucket := b\<rparr>"
      by (auto simp: raise_floor_tx_def nonce_floor_def split: option.splits)
    have "nonce_floor B db' = Some n"
      by (simp add: nonce_floor_def db' bolt_engine.get_put [OF B b] slice_of_def)
    moreover have "rescues_ok B U S db'" "rescue_table B U db' = rescue_table B U db"
      using ok by (simp_all add: rescues_ok_def rescue_table_def db' fun_eq_iff)
    ultimately show ?thesis
      using False c by (auto simp: journal_step_def intro: entry_step.keep)
  qed
  then show "journal_step B U S db db'" "\<exists>m \<ge> n. nonce_floor B db' = Some m"
    "rescue_table B U db' = rescue_table B U db" by simp_all
qed

section \<open>Pruning\<close>

definition prunable :: "RescueIncident \<Rightarrow> bool" where
  "prunable r \<longleftrightarrow> isTerminalRescueStatus (ri_Status r) \<and> ri_Kind r \<noteq> CandidateClaim"

definition older :: "RescueIncident \<Rightarrow> RescueIncident \<Rightarrow> bool" where
  "older a b \<longleftrightarrow> ri_UpdatedAt a < ri_UpdatedAt b \<or> ri_UpdatedAt a = ri_UpdatedAt b \<and> ri_ID a \<le> ri_ID b"

lemma rescue_entry_Inr:
  "rescue_entry U S e = Inr r \<longleftrightarrow>
     decodeRescueIncident U (snd e) = Some r \<and> fst e = id_bytes (ri_ID r) \<and> ri_Network r = bs_network S"
  by (auto simp: rescue_entry_def split: option.splits)

lemma collectTerminal_Inr:
  "collectTerminal U S env (n, acc) e = Inr s \<longleftrightarrow>
     se_ctx env n = CtxLive \<and> (\<exists>r. rescue_entry U S e = Inr r \<and> s = (Suc n, if prunable r then acc @ [r] else acc))"
  by (cases "se_ctx env n = CtxLive"; cases "rescue_entry U S e")
    (auto simp: collectTerminal_def prunable_def split: option.splits)

lemma deleteTerminal_Inr:
  "deleteTerminal B env (n, b) t = Inr s \<longleftrightarrow>
     se_ctx env n = CtxLive \<and> (\<exists>b1. bdel B b (id_bytes (ri_ID t)) = Some b1 \<and> s = (Suc n, b1))"
  by (cases "se_ctx env n = CtxLive") (auto simp: deleteTerminal_def split: option.splits)

lemma collectTerminal_fold:
  "foldE (collectTerminal U S env) (n, acc) es = Inr (m, ts) \<Longrightarrow>
     \<exists>rs. list_all2 (\<lambda>e r. rescue_entry U S e = Inr r) es rs \<and> ts = acc @ filter prunable rs"
proof (induction es arbitrary: n acc)
  case (Cons e es)
  from Cons.prems obtain r where e: "rescue_entry U S e = Inr r"
    and "foldE (collectTerminal U S env) (Suc n, if prunable r then acc @ [r] else acc) es = Inr (m, ts)"
    unfolding foldE_Cons_Inr collectTerminal_Inr by blast
  from Cons.IH [OF this(2)] obtain rs where "list_all2 (\<lambda>e r. rescue_entry U S e = Inr r) es rs"
    "ts = (if prunable r then acc @ [r] else acc) @ filter prunable rs" by blast
  with e show ?case by (intro exI [of _ "r # rs"]) simp
qed simp

lemma collectTerminal_live:
  assumes "list_all2 (\<lambda>e r. rescue_entry U S e = Inr r) es rs" and "\<forall>n. se_ctx env n = CtxLive"
  shows "foldE (collectTerminal U S env) (n, acc) es = Inr (n + length es, acc @ filter prunable rs)"
  using assms
proof (induction arbitrary: n acc rule: list_all2_induct)
  case (Cons e es r rs)
  have "collectTerminal U S env (n, acc) e = Inr (Suc n, if prunable r then acc @ [r] else acc)"
    using Cons by (simp add: collectTerminal_Inr)
  with Cons show ?case by simp
qed simp

lemma deleteTerminal_fold:
  assumes B: "bolt_engine B" and "foldE (deleteTerminal B env) (n, b) ts = Inr (m, b')"
  shows "bget B b' k = (if k \<in> id_bytes ` ri_ID ` set ts then None else bget B b k)"
  using assms(2)
proof (induction ts arbitrary: n b)
  case (Cons t ts)
  from Cons.prems obtain b1 where b1: "bdel B b (id_bytes (ri_ID t)) = Some b1"
    and f: "foldE (deleteTerminal B env) (Suc n, b1) ts = Inr (m, b')"
    unfolding foldE_Cons_Inr deleteTerminal_Inr by blast
  from Cons.IH [OF f] show ?case by (simp add: bolt_engine.get_del [OF B b1])
qed simp

lemma deleteTerminal_live:
  assumes B: "bolt_engine_live B" and "\<forall>n. se_ctx env n = CtxLive"
  shows "\<exists>b'. foldE (deleteTerminal B env) (n, b) ts = Inr (n + length ts, b')"
proof (induction ts arbitrary: n b)
  case (Cons t ts)
  obtain b1 where "bdel B b (id_bytes (ri_ID t)) = Some b1"
    using bolt_engine_live.del_ok [OF B] by blast
  then have "deleteTerminal B env (n, b) t = Inr (Suc n, b1)"
    using assms(2) by (simp add: deleteTerminal_Inr)
  moreover obtain b' where "foldE (deleteTerminal B env) (Suc n, b1) ts = Inr (Suc n + length ts, b')"
    using Cons.IH by blast
  ultimately show ?case by simp
qed simp

text \<open>Stable sorting by the identifier and then by the time orders by the pair.\<close>

lemma sorted_wrt_classes:
  assumes "\<And>k. sorted_wrt P (filter (\<lambda>x. f x = k) ys)"
  shows "sorted_wrt (\<lambda>a b. f a = f b \<longrightarrow> P a b) ys"
  using assms
proof (induction ys)
  case (Cons y ys)
  have "sorted_wrt P (filter (\<lambda>x. f x = k) ys)" for k
    using Cons.prems [of k] by (auto split: if_splits)
  moreover have "P y b" if "b \<in> set ys" "f y = f b" for b
    using Cons.prems [of "f y"] that by auto
  ultimately show ?case using Cons.IH by simp
qed simp

lemma sorted_wrt_conj: "sorted_wrt P xs \<Longrightarrow> sorted_wrt Q xs \<Longrightarrow> sorted_wrt (\<lambda>a b. P a b \<and> Q a b) xs"
  by (induction xs) auto

lemma oldest_first_sorted: "sorted_wrt older (oldest_first ts)"
proof -
  have "sorted_wrt (\<lambda>a b. ri_ID a \<le> ri_ID b) (filter (\<lambda>x. ri_UpdatedAt x = k) (oldest_first ts))" for k
  proof -
    have "filter (\<lambda>x. ri_UpdatedAt x = k) (oldest_first ts) = filter (\<lambda>x. ri_UpdatedAt x = k) (sort_key ri_ID ts)"
      by (simp add: oldest_first_def sort_key_stable)
    moreover have "sorted_wrt (\<lambda>a b. ri_ID a \<le> ri_ID b) (sort_key ri_ID ts)"
      using sorted_sort_key [of ri_ID ts] by (simp add: sorted_map)
    ultimately show ?thesis by (simp add: sorted_wrt_filter)
  qed
  then have "sorted_wrt (\<lambda>a b. ri_UpdatedAt a = ri_UpdatedAt b \<longrightarrow> ri_ID a \<le> ri_ID b) (oldest_first ts)"
    by (rule sorted_wrt_classes)
  moreover have "sorted_wrt (\<lambda>a b. ri_UpdatedAt a \<le> ri_UpdatedAt b) (oldest_first ts)"
    using sorted_sort_key [of ri_UpdatedAt "sort_key ri_ID ts"] by (simp add: oldest_first_def sorted_map)
  ultimately have "sorted_wrt (\<lambda>a b. (ri_UpdatedAt a = ri_UpdatedAt b \<longrightarrow> ri_ID a \<le> ri_ID b) \<and>
      ri_UpdatedAt a \<le> ri_UpdatedAt b) (oldest_first ts)"
    by (rule sorted_wrt_conj)
  then show ?thesis
    by (rule sorted_wrt_mono_rel [rotated]) (auto simp: older_def)
qed

lemma set_oldest_first [simp]: "set (oldest_first ts) = set ts"
  by (simp add: oldest_first_def)

text \<open>The records behind the entries of a well-formed bucket.\<close>

lemma list_all2_entries:
  assumes "\<forall>e \<in> set es. \<exists>r. rescue_entry U S e = Inr r"
  shows "\<exists>rs. list_all2 (\<lambda>e r. rescue_entry U S e = Inr r) es rs"
  using assms
proof (induction es)
  case (Cons e es)
  then obtain r rs where "rescue_entry U S e = Inr r" "list_all2 (\<lambda>e r. rescue_entry U S e = Inr r) es rs"
    by auto
  then show ?case by (intro exI [of _ "r # rs"]) simp
qed (auto intro: exI [of _ "[]"])

lemma rescues_ok_entries:
  assumes B: "bolt_engine B"
  shows "rescues_ok B U S db \<longleftrightarrow> (\<forall>e \<in> set (bentries B (rescueStateBucket db)). \<exists>r. rescue_entry U S e = Inr r)"
  unfolding rescues_ok_def rescue_entry_Inr bolt_engine.entry_get [OF B, symmetric]
  by fastforce

lemma table_of_entries:
  assumes B: "bolt_engine B"
    and rs: "list_all2 (\<lambda>e r. rescue_entry U S e = Inr r) (bentries B (rescueStateBucket db)) rs"
  shows "r \<in> set rs \<longleftrightarrow> rescue_table B U db (ri_ID r) = Some r"
proof
  assume "r \<in> set rs"
  then obtain i where i: "i < length rs" "rs ! i = r" by (auto simp: in_set_conv_nth)
  define e where "e = bentries B (rescueStateBucket db) ! i"
  have "rescue_entry U S e = Inr r" "e \<in> set (bentries B (rescueStateBucket db))"
    using i rs by (auto simp: e_def list_all2_conv_all_nth)
  moreover from this have "bget B (rescueStateBucket db) (fst e) = Some (snd e)"
    by (simp add: bolt_engine.entry_get [OF B, symmetric])
  ultimately show "rescue_table B U db (ri_ID r) = Some r"
    by (simp add: rescue_entry_Inr rescue_table_def)
next
  assume "rescue_table B U db (ri_ID r) = Some r"
  then obtain v where v: "bget B (rescueStateBucket db) (id_bytes (ri_ID r)) = Some v"
    and d: "decodeRescueIncident U v = Some r"
    by (auto simp: rescue_table_def bind_eq_Some_conv)
  then have "(id_bytes (ri_ID r), v) \<in> set (bentries B (rescueStateBucket db))"
    by (simp add: bolt_engine.entry_get [OF B])
  then obtain i where i: "i < length (bentries B (rescueStateBucket db))"
    "bentries B (rescueStateBucket db) ! i = (id_bytes (ri_ID r), v)"
    by (auto simp: in_set_conv_nth)
  then have "rescue_entry U S (id_bytes (ri_ID r), v) = Inr (rs ! i)" "rs ! i \<in> set rs"
    using rs by (auto simp: list_all2_conv_all_nth)
  with d show "r \<in> set rs" by (simp add: rescue_entry_Inr)
qed

definition pruned :: "int \<Rightarrow> RescueIncident list \<Rightarrow> RescueIncident list" where
  "pruned retain rs = take (nat (max 0 (int (length (filter prunable rs)) - retain))) (oldest_first (filter prunable rs))"

lemma prune_tx_effect:
  assumes B: "bolt_engine B" and tx: "prune_tx B U S env retain db = Inr (x, db')"
  shows "\<exists>rs. list_all2 (\<lambda>e r. rescue_entry U S e = Inr r) (bentries B (rescueStateBucket db)) rs \<and>
    (\<forall>iid. rescue_table B U db' iid = (if iid \<in> ri_ID ` set (pruned retain rs) then None else rescue_table B U db iid)) \<and>
    (rescues_ok B U S db \<longrightarrow> rescues_ok B U S db') \<and> nonce_floor B db' = nonce_floor B db"
proof -
  from tx obtain n ts m b where
    c: "foldE (collectTerminal U S env) (2, []) (bentries B (rescueStateBucket db)) = Inr (n, ts)"
    and f: "foldE (deleteTerminal B env) (n, rescueStateBucket db)
        (take (nat (max 0 (int (length ts) - retain))) (oldest_first ts)) = Inr (m, b)"
    and db': "db' = db\<lparr>rescueStateBucket := b\<rparr>"
    unfolding prune_tx_def by (auto split: sum.splits)
  from collectTerminal_fold [OF c] obtain rs where
    rs: "list_all2 (\<lambda>e r. rescue_entry U S e = Inr r) (bentries B (rescueStateBucket db)) rs"
    and ts: "ts = filter prunable rs" by auto
  note g = deleteTerminal_fold [OF B f, unfolded ts, folded pruned_def]
  have "rescue_table B U db' iid = (if iid \<in> ri_ID ` set (pruned retain rs) then None else rescue_table B U db iid)" for iid
    by (auto simp: rescue_table_def db' g)
  moreover have "rescues_ok B U S db \<Longrightarrow> rescues_ok B U S db'"
    unfolding rescues_ok_def db' by (simp add: g)
  moreover have "nonce_floor B db' = nonce_floor B db" by (simp add: nonce_floor_def db')
  ultimately show ?thesis using rs by blast
qed

lemma pruned_prunable: "r \<in> set (pruned retain rs) \<Longrightarrow> prunable r \<and> r \<in> set rs"
  using in_set_takeD [of r _ "oldest_first (filter prunable rs)"] by (auto simp: pruned_def)

lemma prune_tx_step:
  assumes B: "bolt_engine B" and ok: "rescues_ok B U S db" and tx: "prune_tx B U S env retain db = Inr (x, db')"
  shows "journal_step B U S db db'"
proof -
  from prune_tx_effect [OF B tx] obtain rs where
    rs: "list_all2 (\<lambda>e r. rescue_entry U S e = Inr r) (bentries B (rescueStateBucket db)) rs"
    and t: "\<forall>iid. rescue_table B U db' iid = (if iid \<in> ri_ID ` set (pruned retain rs) then None else rescue_table B U db iid)"
    and o: "rescues_ok B U S db'" and n: "nonce_floor B db' = nonce_floor B db"
    using ok by blast
  have "entry_step (rescue_table B U db iid) (rescue_table B U db' iid)" for iid
  proof (cases "iid \<in> ri_ID ` set (pruned retain rs)")
    case True
    then obtain r where "r \<in> set (pruned retain rs)" "iid = ri_ID r" by blast
    then have "rescue_table B U db iid = Some r" "prunable r"
      using table_of_entries [OF B rs] pruned_prunable by blast+
    with True t show ?thesis by (simp add: prunable_def)
  next
    case False
    with t show ?thesis by (simp add: entry_step.keep)
  qed
  with o n show ?thesis by (auto simp: journal_step_def)
qed

section \<open>Calls\<close>

text \<open>Every method is a transaction whose error leaves the database alone.\<close>

lemma public_update_cases:
  assumes "(let (out, db') = store_update env body (st_db st) in (public_result out, st\<lparr>st_db := db'\<rparr>)) = (r, st')"
  obtains (failed) e where "r = Inl e" "st' = st"
  | (finished) x where "r = Inr x" "body (st_db st) = Inr (x, st_db st')" "st' = st\<lparr>st_db := st_db st'\<rparr>"
proof (cases rule: store_update_cases [of env body "st_db st"])
  case (rollback e)
  with assms have "r = Inl (store_publicError e)" "st' = st" by auto
  then show ?thesis by (rule failed)
next
  case (commit x db')
  with assms have "r = Inr x" "st' = st\<lparr>st_db := db'\<rparr>" by auto
  with commit(3) show ?thesis by (intro finished) simp_all
qed

lemma Put_cases:
  assumes "PutRescueIncident B U S env r st = (out, st')"
  obtains (failed) e where "out = Inl e" "st' = st"
  | (finished) x bs where "out = Inr x" "encodeRescueIncident U r = Some bs" "ri_Network r = bs_network S"
      "ri_Status r = RescuePending" "put_incident_tx B U S r bs (st_db st) = Inr (x, st_db st')"
proof (cases "encodeRescueIncident U r = None \<or> ri_Network r \<noteq> bs_network S \<or> ri_Status r \<noteq> RescuePending \<or>
    store_begin env st \<noteq> None")
  case True
  then have "\<exists>e. out = Inl e \<and> st' = st"
    using assms by (auto simp: PutRescueIncident_def split: option.splits if_splits)
  then show ?thesis using failed by blast
next
  case False
  then obtain bs where bs: "encodeRescueIncident U r = Some bs" by auto
  with False assms have "(let (out, db') = store_update env (put_incident_tx B U S r bs) (st_db st)
      in (public_result out, st\<lparr>st_db := db'\<rparr>)) = (out, st')"
    by (simp add: PutRescueIncident_def)
  then show ?thesis
  proof (cases rule: public_update_cases)
    case (failed e)
    then show ?thesis by (rule that(1))
  next
    case (finished x)
    with bs False show ?thesis by (intro that(2)) simp_all
  qed
qed

lemma Update_cases:
  assumes "UpdateRescueIncident B U S env r st = (out, st')"
  obtains (failed) e where "out = Inl e" "st' = st"
  | (finished) bs x where "out = Inr ()" "encodeRescueIncident U r = Some bs" "ri_Network r = bs_network S"
      "update_incident_tx B U S r bs (st_db st) = Inr (x, st_db st')"
proof (cases "encodeRescueIncident U r = None \<or> ri_Network r \<noteq> bs_network S \<or> store_begin env st \<noteq> None")
  case True
  then have "\<exists>e. out = Inl e \<and> st' = st"
    using assms by (auto simp: UpdateRescueIncident_def split: option.splits if_splits)
  then show ?thesis using failed by blast
next
  case False
  then obtain bs where bs: "encodeRescueIncident U r = Some bs" by auto
  with False assms have "(let (out, db') = store_update env (update_incident_tx B U S r bs) (st_db st)
      in (public_result out, st\<lparr>st_db := db'\<rparr>)) = (out, st')"
    by (simp add: UpdateRescueIncident_def)
  then show ?thesis
  proof (cases rule: public_update_cases)
    case (failed e)
    then show ?thesis by (rule that(1))
  next
    case (finished x)
    with bs False show ?thesis by (intro that(2)) simp_all
  qed
qed

lemma Raise_cases:
  assumes "RaiseNonceFloor B env n st = (out, st')"
  obtains (failed) e where "out = Inl e" "st' = st"
  | (finished) x where "out = Inr ()" "raise_floor_tx B n (st_db st) = Inr (x, st_db st')"
proof (cases "store_begin env st")
  case (Some e)
  with assms show ?thesis using that(1) by (auto simp: RaiseNonceFloor_def)
next
  case None
  with assms have "(let (out, db') = store_update env (raise_floor_tx B n) (st_db st)
      in (public_result out, st\<lparr>st_db := db'\<rparr>)) = (out, st')"
    by (simp add: RaiseNonceFloor_def)
  then show ?thesis
  proof (cases rule: public_update_cases)
    case (failed e)
    then show ?thesis by (rule that(1))
  next
    case (finished x)
    then show ?thesis by (intro that(2)) simp_all
  qed
qed

lemma Prune_cases:
  assumes "PruneRescueIncidents B U S env retain st = (out, st')"
  obtains (failed) e where "out = Inl e" "st' = st"
  | (finished) x where "out = Inr ()" "prune_tx B U S env retain (st_db st) = Inr (x, st_db st')"
proof (cases "retain < 0 \<or> uint maxConfiguredBound < retain \<or> store_begin env st \<noteq> None")
  case True
  then have "\<exists>e. out = Inl e \<and> st' = st"
    using assms by (auto simp: PruneRescueIncidents_def split: option.splits if_splits)
  then show ?thesis using that(1) by blast
next
  case False
  with assms have "(let (out, db') = store_update env (prune_tx B U S env retain) (st_db st)
      in (public_result out, st\<lparr>st_db := db'\<rparr>)) = (out, st')"
    by (simp add: PruneRescueIncidents_def)
  then show ?thesis
  proof (cases rule: public_update_cases)
    case (failed e)
    then show ?thesis by (rule that(1))
  next
    case (finished x)
    then show ?thesis by (intro that(2)) simp_all
  qed
qed

lemma rescue_call_step:
  assumes B: "bolt_engine B" and ok: "rescues_ok B U S (st_db st)" and t: "call_times_ok c"
    and call: "rescue_call_result B U S env c st = (r, st')"
  shows "journal_step B U S (st_db st) (st_db st')"
proof (cases c)
  case (CallPut i)
  then obtain q where "PutRescueIncident B U S env i st = (q, st')"
    using call by (cases "PutRescueIncident B U S env i st") auto
  then show ?thesis
    by (cases rule: Put_cases)
      (use CallPut t put_incident_tx_step(1) [OF B ok] journal_step_refl [OF ok] in auto)
next
  case (CallUpdate i)
  then obtain q where "UpdateRescueIncident B U S env i st = (q, st')"
    using call by (cases "UpdateRescueIncident B U S env i st") auto
  then show ?thesis
    by (cases rule: Update_cases)
      (use CallUpdate t update_incident_tx_step [OF B ok] journal_step_refl [OF ok] in auto)
next
  case (CallRaise n)
  then obtain q where "RaiseNonceFloor B env n st = (q, st')"
    using call by (cases "RaiseNonceFloor B env n st") auto
  then show ?thesis
    by (cases rule: Raise_cases) (use raise_floor_tx_step(1) [OF B ok] journal_step_refl [OF ok] in auto)
next
  case (CallPrune k)
  then obtain q where "PruneRescueIncidents B U S env k st = (q, st')"
    using call by (cases "PruneRescueIncidents B U S env k st") auto
  then show ?thesis
    by (cases rule: Prune_cases) (use prune_tx_step [OF B ok] journal_step_refl [OF ok] in auto)
qed

text \<open>Only pruning removes a record.\<close>

lemma rescue_call_keeps:
  assumes B: "bolt_engine B" and ok: "rescues_ok B U S (st_db st)" and t: "call_times_ok c"
    and call: "rescue_call_result B U S env c st = (r, st')" and c: "\<And>k. c \<noteq> CallPrune k"
    and i: "rescue_table B U (st_db st) iid \<noteq> None"
  shows "rescue_table B U (st_db st') iid \<noteq> None"
proof (cases c)
  case (CallPut x)
  then obtain q where "PutRescueIncident B U S env x st = (q, st')"
    using call by (cases "PutRescueIncident B U S env x st") auto
  then show ?thesis
    by (cases rule: Put_cases) (use CallPut t i put_incident_tx_step(2) [OF B ok] in auto)
next
  case (CallUpdate x)
  then obtain q where "UpdateRescueIncident B U S env x st = (q, st')"
    using call by (cases "UpdateRescueIncident B U S env x st") auto
  then show ?thesis
    by (cases rule: Update_cases) (use CallUpdate t i update_incident_tx_step [OF B ok] in auto)
next
  case (CallRaise n)
  then obtain q where "RaiseNonceFloor B env n st = (q, st')"
    using call by (cases "RaiseNonceFloor B env n st") auto
  then show ?thesis
    by (cases rule: Raise_cases) (use i raise_floor_tx_step(3) [OF B ok] in auto)
qed (use c in auto)

section \<open>Sequences of calls\<close>

fun rescue_calls ::
  "'b bolt \<Rightarrow> tx_decoder \<Rightarrow> BoltStore \<Rightarrow> (store_env \<times> rescue_call) list \<Rightarrow> 'b store_state \<Rightarrow> 'b store_state" where
  "rescue_calls B U S [] st = st"
| "rescue_calls B U S ((env, c) # cs) st = rescue_calls B U S cs (snd (rescue_call_result B U S env c st))"

text \<open>A property of entries that every step keeps holds after any sequence of calls.\<close>

lemma rescue_calls_induct:
  assumes B: "bolt_engine B" and ok: "rescues_ok B U S (st_db st)" and t: "\<forall>(env, c) \<in> set cs. call_times_ok c"
    and p: "P (st_db st)"
    and step: "\<And>st env c r st'. rescues_ok B U S (st_db st) \<Longrightarrow> (env, c) \<in> set cs \<Longrightarrow>
      rescue_call_result B U S env c st = (r, st') \<Longrightarrow> journal_step B U S (st_db st) (st_db st') \<Longrightarrow>
      P (st_db st) \<Longrightarrow> P (st_db st')"
  shows "rescues_ok B U S (st_db (rescue_calls B U S cs st)) \<and> P (st_db (rescue_calls B U S cs st))"
  using ok t p step
proof (induction cs arbitrary: st)
  case (Cons q cs)
  obtain env c where q: "q = (env, c)" by fastforce
  obtain r st1 where r: "rescue_call_result B U S env c st = (r, st1)" by fastforce
  have j: "journal_step B U S (st_db st) (st_db st1)"
    by (rule rescue_call_step [OF B Cons.prems(1) _ r]) (use Cons.prems(2) q in simp)
  then have o: "rescues_ok B U S (st_db st1)" by (simp add: journal_step_def)
  have p: "P (st_db st1)"
    by (rule Cons.prems(4) [OF Cons.prems(1) _ r j Cons.prems(3)]) (simp add: q)
  have t: "\<forall>(env, c) \<in> set cs. call_times_ok c" using Cons.prems(2) by simp
  have "rescues_ok B U S (st_db (rescue_calls B U S cs st1)) \<and> P (st_db (rescue_calls B U S cs st1))"
    by (rule Cons.IH [OF o t p], rule Cons.prems(4)) auto
  then show ?case by (simp add: q r)
qed simp

end
