(* ===== verification/Rescue_Migration.thy ===== *)
theory Rescue_Migration
  imports Rescue_Journal
begin

text \<open>
  The migration of the rescue journal from the previous schema
  (\<^verbatim>\<open>migrateV2TokenOutcomes\<close>): every bucket that the previous schema accepts is turned into
  one that the current schema accepts, in which exactly the token successes are reworded.
\<close>

section \<open>Batches of writes\<close>

lemma put_entry_Inr: "put_entry B b u = Inr b' \<longleftrightarrow> bput B b (fst u) (snd u) = Some b'"
  by (auto simp: put_entry_def split: option.splits)

lemma put_entry_fold:
  assumes B: "bolt_engine B" and "foldE (put_entry B) b ups = Inr b'"
  shows "bget B b' k = (case map_of (rev ups) k of Some v \<Rightarrow> Some v | None \<Rightarrow> bget B b k)"
  using assms(2)
proof (induction ups arbitrary: b)
  case (Cons u ups)
  from Cons.prems obtain b1 where b1: "bput B b (fst u) (snd u) = Some b1"
    and f: "foldE (put_entry B) b1 ups = Inr b'"
    unfolding foldE_Cons_Inr put_entry_Inr by blast
  from Cons.IH [OF f] show ?case
    by (auto simp: bolt_engine.get_put [OF B b1] map_add_def split: option.splits)
qed simp

lemma put_entry_live:
  assumes B: "bolt_engine_live B"
    and "\<forall>u \<in> set ups. fst u \<noteq> [] \<and> length (fst u) \<le> 32768 \<and> length (snd u) \<le> 2147483646"
  shows "\<exists>b'. foldE (put_entry B) b ups = Inr b'"
  using assms(2)
proof (induction ups arbitrary: b)
  case (Cons u ups)
  then obtain b1 where "bput B b (fst u) (snd u) = Some b1"
    using bolt_engine_live.put_ok [OF B, of "fst u" "snd u" b] by auto
  then have "put_entry B b u = Inr b1" by (simp add: put_entry_def)
  with Cons show ?case by simp
qed simp

section \<open>The rewritten entries\<close>

text \<open>A record of the previous schema and what becomes of it.\<close>

definition legacy_success :: "RescueIncident \<Rightarrow> bool" where
  "legacy_success r \<longleftrightarrow> ri_Kind r = CandidateToken \<and> ri_Status r = RescueTrustedSuccess"

definition migrated :: "RescueIncident \<Rightarrow> RescueIncident" where
  "migrated r = (if legacy_success r then r\<lparr>ri_Status := RescueTokenReported\<rparr> else r)"

definition entry_V2 :: "tx_decoder \<Rightarrow> BoltStore \<Rightarrow> bytes \<times> bytes \<Rightarrow> RescueIncident \<Rightarrow> bool" where
  "entry_V2 U S e r \<longleftrightarrow>
     decodeRescueIncidentV2 U (snd e) = Some r \<and> fst e = id_bytes (ri_ID r) \<and> ri_Network r = bs_network S"

lemma validateRescueEntry_V2: "validateRescueEntry U S schemaVersionV2 u e = Inr () \<longleftrightarrow> (\<exists>r. entry_V2 U S e r)"
  by (auto simp: validateRescueEntry_def entry_V2_def split: option.splits)

lemma validateRescueEntry_current:
  "validateRescueEntry U S schemaVersion u e = Inr () \<longleftrightarrow> (\<exists>r. rescue_entry U S e = Inr r)"
  by (auto simp: validateRescueEntry_def rescue_entry_Inr split: option.splits)

text \<open>The value an entry is rewritten to, if it is.\<close>

definition rewritten :: "tx_decoder \<Rightarrow> bytes \<times> bytes \<Rightarrow> (bytes \<times> bytes) option" where
  "rewritten U e =
     (case decodeRescueIncidentV2 U (snd e) of
        None \<Rightarrow> None
      | Some r \<Rightarrow>
          if legacy_success r
          then map_option (Pair (fst e)) (encodeRescueIncident U (r\<lparr>ri_Status := RescueTokenReported\<rparr>))
          else None)"

lemma rewritten_success:
  assumes "entry_V2 U S e r" and "legacy_success r"
  obtains bs where "rewritten U e = Some (fst e, bs)" "encodeRescueIncident U (migrated r) = Some bs"
    "decodeRescueIncident U bs = Some (migrated r)"
proof -
  from assms decode_V2_token_success [of U "snd e" r] obtain bs where
    "encodeRescueIncident U (r\<lparr>ri_Status := RescueTokenReported\<rparr>) = Some bs"
    "decodeRescueIncident U bs = Some (r\<lparr>ri_Status := RescueTokenReported\<rparr>)"
    by (auto simp: entry_V2_def legacy_success_def)
  with assms show ?thesis by (intro that) (simp_all add: rewritten_def entry_V2_def migrated_def)
qed

lemma rewritten_other: "entry_V2 U S e r \<Longrightarrow> \<not> legacy_success r \<Longrightarrow> rewritten U e = None"
  by (simp add: rewritten_def entry_V2_def)

lemma migrateEntry_V2:
  assumes "entry_V2 U S e r"
  shows "migrateEntry U ups e = Inr (ups @ (case rewritten U e of None \<Rightarrow> [] | Some u \<Rightarrow> [u]))"
proof (cases "legacy_success r")
  case True
  from rewritten_success [OF assms True] obtain bs where "rewritten U e = Some (fst e, bs)"
    "encodeRescueIncident U (migrated r) = Some bs" .
  with True assms show ?thesis
    by (auto simp: migrateEntry_def entry_V2_def migrated_def legacy_success_def)
next
  case False
  with assms rewritten_other [OF assms False] show ?thesis
    by (auto simp: migrateEntry_def entry_V2_def legacy_success_def)
qed

lemma migrateEntry_fold:
  assumes "\<forall>e \<in> set es. \<exists>r. entry_V2 U S e r"
  shows "foldE (migrateEntry U) ups es = Inr (ups @ List.map_filter (rewritten U) es)"
  using assms
proof (induction es arbitrary: ups)
  case (Cons e es)
  then obtain r where "entry_V2 U S e r" by auto
  from migrateEntry_V2 [OF this] Cons show ?case
    by (cases "rewritten U e") (simp_all add: List.map_filter_def)
qed (simp add: List.map_filter_def)

lemma rewritten_key: "rewritten U e = Some u \<Longrightarrow> fst u = fst e"
  by (auto simp: rewritten_def split: option.splits if_splits)

lemma map_of_map_filter:
  assumes "distinct (map fst es)" and "\<And>e u. f e = Some u \<Longrightarrow> fst u = fst e"
  shows "map_of (List.map_filter f es) k =
    (case map_of es k of None \<Rightarrow> None | Some v \<Rightarrow> map_option snd (f (k, v)))"
  using assms(1)
proof (induction es)
  case (Cons e es)
  then have n: "map_of es (fst e) = None" by (simp add: map_of_eq_None_iff)
  show ?case
  proof (cases "f e")
    case None
    with Cons n show ?thesis by (cases e) (auto simp: List.map_filter_def)
  next
    case (Some u)
    with assms(2) have "fst u = fst e" by blast
    with Some Cons show ?thesis by (cases e; cases u) (auto simp: List.map_filter_def)
  qed
qed (simp add: List.map_filter_def)

lemma map_filter_keys:
  assumes "distinct (map fst es)" and "\<And>e u. f e = Some u \<Longrightarrow> fst u = fst e"
  shows "distinct (map fst (List.map_filter f es))"
proof -
  have "map fst (List.map_filter f es) = map fst (filter (\<lambda>e. f e \<noteq> None) es)"
    using assms(2) by (induction es) (auto simp: List.map_filter_def)
  with assms(1) show ?thesis by (simp add: distinct_map_filter)
qed

lemma map_of_rev_keys: "distinct (map fst ps) \<Longrightarrow> map_of (rev ps) = map_of ps"
  by (rule map_of_eqI) (auto simp: rev_map [symmetric] intro: map_of_is_SomeI)

lemma encodeRescueIncident_length:
  assumes "encodeRescueIncident U r = Some bs"
  shows "length bs \<le> 131567"
proof -
  from assms have v: "validateRescueIncident U r"
    and l: "length bs = 366 + length (ri_SignedTransaction r) + length (ri_LastCode r) +
      (if rp_LatestState (ri_Policy r) then 1 else 0)"
    by (auto simp: encodeRescueIncident_layout length_rescue_head length_rescue_tail)
  have "int (length (ri_SignedTransaction r)) \<le> 131072" "int (length (ri_LastCode r)) \<le> 128"
    using v by (auto simp: validateRescueIncident_def validRescueFrame_def)
  with l show ?thesis by (simp split: if_splits)
qed

lemma rewritten_bounds:
  assumes "\<forall>e \<in> set es. \<exists>r. entry_V2 U S e r"
  shows "\<forall>u \<in> set (List.map_filter (rewritten U) es).
    fst u \<noteq> [] \<and> length (fst u) \<le> 32768 \<and> length (snd u) \<le> 2147483646"
proof
  fix u
  assume "u \<in> set (List.map_filter (rewritten U) es)"
  then obtain e where e: "e \<in> set es" "rewritten U e = Some u"
    by (auto simp: List.map_filter_def)
  with assms obtain r where r: "entry_V2 U S e r" by blast
  with e(2) rewritten_other have "legacy_success r" by fastforce
  from rewritten_success [OF r this] e(2) obtain bs where "u = (fst e, bs)" "encodeRescueIncident U (migrated r) = Some bs"
    by (metis option.inject)
  moreover have "length (fst e) = 32" using r by (simp add: entry_V2_def)
  ultimately show "fst u \<noteq> [] \<and> length (fst u) \<le> 32768 \<and> length (snd u) \<le> 2147483646"
    using encodeRescueIncident_length by fastforce
qed

section \<open>Correctness of the migration\<close>

lemma migration_table:
  assumes B: "bolt_engine_live B"
    and v2: "\<forall>e \<in> set (bentries B (rescueStateBucket db)). \<exists>r. entry_V2 U S e r"
  shows "\<exists>b. migrateV2TokenOutcomes B U db = Inr (db\<lparr>rescueStateBucket := b\<rparr>) \<and>
    (\<forall>k. case bget B (rescueStateBucket db) k of
       None \<Rightarrow> bget B b k = None
     | Some v \<Rightarrow> \<exists>w r. bget B b k = Some w \<and> entry_V2 U S (k, v) r \<and> rescue_entry U S (k, w) = Inr (migrated r))"
proof -
  define es where "es = bentries B (rescueStateBucket db)"
  define ups where "ups = List.map_filter (rewritten U) es"
  have E: "bolt_engine B" using B by (simp add: bolt_engine_live_def)
  have d: "distinct (map fst es)" unfolding es_def by (rule bolt_engine.entries_distinct [OF E])
  have "\<forall>u \<in> set ups. fst u \<noteq> [] \<and> length (fst u) \<le> 32768 \<and> length (snd u) \<le> 2147483646"
    unfolding ups_def using v2 by (intro rewritten_bounds) (simp add: es_def)
  from put_entry_live [OF B this] obtain b where b: "foldE (put_entry B) (rescueStateBucket db) ups = Inr b" by blast
  have mg: "migrateV2TokenOutcomes B U db = Inr (db\<lparr>rescueStateBucket := b\<rparr>)"
    using migrateEntry_fold [of es U S "[]"] v2 b
    by (simp add: migrateV2TokenOutcomes_def es_def ups_def)
  have g: "bget B b k = (case map_of ups k of Some v \<Rightarrow> Some v | None \<Rightarrow> bget B (rescueStateBucket db) k)" for k
    using put_entry_fold [OF E b] map_of_rev_keys [OF map_filter_keys [OF d rewritten_key]]
    by (simp add: ups_def)
  have u: "map_of ups k = (case bget B (rescueStateBucket db) k of None \<Rightarrow> None
      | Some v \<Rightarrow> map_option snd (rewritten U (k, v)))" for k
    using map_of_map_filter [OF d, of "rewritten U" k, OF rewritten_key]
    by (simp add: ups_def es_def bolt_engine.get_entries [OF E])
  have "case bget B (rescueStateBucket db) k of
       None \<Rightarrow> bget B b k = None
     | Some v \<Rightarrow> \<exists>w r. bget B b k = Some w \<and> entry_V2 U S (k, v) r \<and> rescue_entry U S (k, w) = Inr (migrated r)" for k
  proof (cases "bget B (rescueStateBucket db) k")
    case None
    then show ?thesis by (simp add: g u)
  next
    case (Some v)
    with v2 obtain r where r: "entry_V2 U S (k, v) r"
      using bolt_engine.entry_get [OF E] by blast
    show ?thesis
    proof (cases "legacy_success r")
      case True
      from rewritten_success [OF r True] obtain bs where "rewritten U (k, v) = Some (k, bs)"
        "decodeRescueIncident U bs = Some (migrated r)" by auto
      with Some r show ?thesis
        by (simp add: g u rescue_entry_Inr entry_V2_def migrated_def)
    next
      case False
      then have "decodeRescueIncident U v = Some r"
        using r decode_V2_unchanged [of U v r] by (simp add: entry_V2_def legacy_success_def)
      with Some r False rewritten_other [OF r False] show ?thesis
        by (auto simp: g u rescue_entry_Inr entry_V2_def migrated_def)
    qed
  qed
  with mg show ?thesis by blast
qed

text \<open>In terms of whole buckets, as \<^verbatim>\<open>Open\<close> validates them before and after.\<close>

lemma validateRescueStateBucket_Inr:
  "validateRescueStateBucket Q U S schema db = Inr () \<longleftrightarrow>
     bseq Q (rescueStateBucket db) = 0 \<and>
     (\<forall>e \<in> set (bentries (bkv Q) (rescueStateBucket db)). validateRescueEntry U S schema () e = Inr ())"
  by (simp add: validateRescueStateBucket_def foldE_unit)

lemma put_entry_seq:
  assumes Q: "seq_engine Q" and "foldE (put_entry (bkv Q)) b ups = Inr b'"
  shows "bseq Q b' = bseq Q b"
  using assms(2)
proof (induction ups arbitrary: b)
  case (Cons u ups)
  then obtain b1 where "bput (bkv Q) b (fst u) (snd u) = Some b1" "foldE (put_entry (bkv Q)) b1 ups = Inr b'"
    unfolding foldE_Cons_Inr put_entry_Inr by blast
  with Cons.IH seq_engine.seq_put [OF Q] show ?case by metis
qed simp

lemma migration_seq:
  assumes "seq_engine Q" and "migrateV2TokenOutcomes (bkv Q) U db = Inr db'"
  shows "bseq Q (rescueStateBucket db') = bseq Q (rescueStateBucket db)"
  using assms put_entry_seq [OF assms(1)] by (auto simp: migrateV2TokenOutcomes_def split: sum.splits)

end
