(* ===== verification/Rescue_Runs.thy ===== *)
theory Rescue_Runs
  imports Rescue_Migration
begin

text \<open>
  What the calls of the rescue journal do when nothing outside the journal fails, and what a
  sequence of calls can never undo.
\<close>

section \<open>What a transition keeps\<close>

text \<open>A record whose transaction has been signed, and a later record of the same rescue.\<close>

definition same_transaction :: "RescueIncident \<Rightarrow> RescueIncident \<Rightarrow> bool" where
  "same_transaction r r' \<longleftrightarrow>
     ri_TxHash r' = ri_TxHash r \<and> ri_Attempts r' = ri_Attempts r \<and> ri_Kind r' = ri_Kind r \<and>
     ri_SponsorNonce r' = ri_SponsorNonce r \<and> ri_SourceNonce r' = ri_SourceNonce r \<and>
     (ri_SignedTransaction r' = ri_SignedTransaction r \<or>
      isTerminalRescueStatus (ri_Status r') \<and> ri_SignedTransaction r' = [])"

lemma transition_unfinished: "validRescueTransition r r' \<Longrightarrow> \<not> isTerminalRescueStatus (ri_Status r)"
  using transition_statuses [of r r'] by (auto simp: isTerminalRescueStatus_def)

lemma transition_kind: "validRescueTransition r r' \<Longrightarrow> ri_Kind r' = ri_Kind r"
  by (simp add: validRescueTransition_def sameRescueIdentity_def)

lemma transition_same_transaction:
  assumes t: "validRescueTransition r r'" and v: "validateRescueIncident U r" and h: "ri_TxHash r \<noteq> 0"
  shows "same_transaction r r'"
proof -
  from transition_statuses [OF t] unsigned_hash [OF v] h
  have "ri_Status r \<in> {RescueSigned, RescueBroadcast, RescueAmbiguous}" by auto
  then have "sameSignedRescueOperation r r' \<or>
      isReceiptTerminalStatus (ri_Status r') \<and> validReceiptTerminalTransition r r'"
    using t by (auto simp: validRescueTransition_def split: if_splits)
  moreover have "ri_Kind r' = ri_Kind r" by (rule transition_kind [OF t])
  ultimately show ?thesis
    by (auto simp: same_transaction_def sameSignedRescueOperation_def sameRescuePreparation_def
        validReceiptTerminalTransition_def isReceiptTerminalStatus_def isTerminalRescueStatus_def split: if_splits)
qed

lemma same_transaction_trans:
  assumes "same_transaction r r'" and "same_transaction r' r''" and "\<not> isTerminalRescueStatus (ri_Status r')"
  shows "same_transaction r r''"
  using assms by (auto simp: same_transaction_def)

section \<open>How often a rescue can change its phase\<close>

text \<open>The phases a record can still pass through, given the attempts its policy allows.\<close>

definition phases_left :: "RescueIncident \<Rightarrow> nat" where
  "phases_left r =
     (let m = unat (rp_MaxAttempts (ri_Policy r))
      in case phase_of r of
           Waiting \<Rightarrow> 2 * m + 2
         | Preparing n \<Rightarrow> 2 * (m - unat n) + 3
         | BackingOff n \<Rightarrow> 2 * (m - unat n) + 2
         | InFlight n h \<Rightarrow> 1
         | Finished s n h \<Rightarrow> 0)"

lemma valid_attempts: "validateRescueIncident U r \<Longrightarrow> ri_Attempts r \<le> rp_MaxAttempts (ri_Policy r)"
  by (auto simp: validateRescueIncident_def validRescueFrame_def)

lemma phase_attempts:
  "phase_of r = Preparing n \<or> phase_of r = BackingOff n \<Longrightarrow> n = ri_Attempts r"
  by (auto simp: phase_of_def split: if_splits)

lemma transition_phases_left:
  assumes t: "validRescueTransition r r'" and v: "validateRescueIncident U r'"
  shows "phase_of r' = phase_of r \<or> phases_left r' < phases_left r"
proof -
  have p: "ri_Policy r' = ri_Policy r" using t by (simp add: validRescueTransition_def sameRescueIdentity_def)
  have succ: "unat (n + 1) = unat n + 1" if "n < 0xffffffff" for n :: u32
    using that by (simp add: unat_word_ariths word_less_nat_alt)
  have bound: "unat n \<le> unat (rp_MaxAttempts (ri_Policy r))" if "phase_of r' = Preparing n \<or> phase_of r' = BackingOff n" for n
    using phase_attempts [OF that] valid_attempts [OF v] p by (simp add: word_le_nat_alt)
  from transition_phase_step [OF t v] show ?thesis
  proof cases
    case (retry n)
    with bound [of "n + 1"] succ [of n] show ?thesis by (simp add: phases_left_def p)
  next
    case (retry_failure n)
    with bound [of "n + 1"] succ [of n] show ?thesis by (simp add: phases_left_def p)
  next
    case first_attempt
    with bound [of 1] show ?thesis by (simp add: phases_left_def p)
  next
    case first_failure
    with bound [of 1] show ?thesis by (simp add: phases_left_def p)
  qed (simp_all add: phases_left_def p)
qed

lemma chain_phases_left:
  assumes "successively validRescueTransition (r # rs)" and "\<forall>r' \<in> set rs. validateRescueIncident U r'"
  shows "length (remdups_adj (map phase_of (r # rs))) \<le> phases_left r + 1"
  using assms
proof (induction rs arbitrary: r)
  case (Cons q rs)
  then have "length (remdups_adj (map phase_of (q # rs))) \<le> phases_left q + 1" by simp
  moreover have "phase_of q = phase_of r \<or> phases_left q < phases_left r"
    using Cons.prems transition_phases_left [of r q U] by simp
  moreover have "phases_left q = phases_left r" if "phase_of q = phase_of r"
    using that Cons.prems(1) by (simp add: phases_left_def validRescueTransition_def sameRescueIdentity_def)
  ultimately show ?case by (cases "phase_of q = phase_of r") simp_all
qed simp

section \<open>The calls on a working engine\<close>

lemma store_begin_live: "se_ctx env 0 = CtxLive \<Longrightarrow> \<not> st_closed st \<Longrightarrow> store_begin env st = None"
  by (simp add: store_begin_def)

lemma put_rescue_live:
  assumes "bolt_engine_live B" and "encodeRescueIncident U r = Some bs"
  shows "\<exists>db'. put_rescue B (id_bytes i) bs db x = Inr (x, db')"
proof -
  have "length (id_bytes i) = 32" by simp
  then have "id_bytes i \<noteq> []" by force
  then have "bput B (rescueStateBucket db) (id_bytes i) bs \<noteq> None"
    using encodeRescueIncident_length [OF assms(2)]
    by (intro bolt_engine_live.put_ok [OF assms(1)]) simp_all
  then show ?thesis by (auto simp: put_rescue_def)
qed

lemma update_incident_tx_live:
  assumes B: "bolt_engine_live B" and ok: "rescues_ok B U S db"
    and enc: "encodeRescueIncident U r = Some bs"
  shows "update_incident_tx B U S r bs db =
    (case rescue_table B U db (ri_ID r) of
       None \<Rightarrow> Inl errConflict
     | Some c \<Rightarrow>
         if c = r then Inr ((), db)
         else if validRescueTransition c r then put_rescue B (id_bytes (ri_ID r)) bs db ()
         else Inl errConflict)"
proof (cases "bget B (rescueStateBucket db) (id_bytes (ri_ID r))")
  case None
  then show ?thesis by (simp add: update_incident_tx_def rescue_table_def)
next
  case (Some v)
  from rescues_okD [OF ok this] obtain c where "decodeRescueIncident U v = Some c" "ri_ID c = ri_ID r"
    "ri_Network c = bs_network S" "rescue_table B U db (ri_ID r) = Some c" .
  with Some show ?thesis by (simp add: update_incident_tx_def sameRescueIncident_eq)
qed

text \<open>The outcome of an update, decided by the stored record alone.\<close>

definition accepts_update :: "RescueIncident option \<Rightarrow> RescueIncident \<Rightarrow> bool" where
  "accepts_update e r = (case e of None \<Rightarrow> False | Some c \<Rightarrow> c = r \<or> validRescueTransition c r)"

lemma Update_live:
  assumes B: "bolt_engine_live B" and ok: "rescues_ok B U S (st_db st)" and t: "rescue_times_ok r"
    and v: "validateRescueIncident U r" and net: "ri_Network r = bs_network S"
    and env: "se_commit env" "se_ctx env 0 = CtxLive" "se_ctx env 1 = CtxLive" and op: "\<not> st_closed st"
  shows "fst (UpdateRescueIncident B U S env r st) =
      (if accepts_update (rescue_table B U (st_db st) (ri_ID r)) r then Inr () else Inl errConflict)"
    and "rescue_table B U (st_db (snd (UpdateRescueIncident B U S env r st))) =
      (if accepts_update (rescue_table B U (st_db st) (ri_ID r)) r
       then (rescue_table B U (st_db st))(ri_ID r \<mapsto> r) else rescue_table B U (st_db st))"
proof -
  have E: "bolt_engine B" using B by (simp add: bolt_engine_live_def)
  from v obtain bs where bs: "encodeRescueIncident U r = Some bs" by (simp add: encodeRescueIncident_layout)
  let ?tx = "update_incident_tx B U S r bs"
  have call: "UpdateRescueIncident B U S env r st =
      (case ?tx (st_db st) of Inl e \<Rightarrow> (Inl (store_publicError e), st) | Inr (x, db') \<Rightarrow> (Inr x, st\<lparr>st_db := db'\<rparr>))"
    using store_begin_live [OF env(2) op] bs net env
    by (auto simp: UpdateRescueIncident_def store_update_live split: sum.splits)
  note tx = update_incident_tx_live [OF B ok bs]
  show "fst (UpdateRescueIncident B U S env r st) =
      (if accepts_update (rescue_table B U (st_db st) (ri_ID r)) r then Inr () else Inl errConflict)"
    using put_rescue_live [OF B bs, of "ri_ID r" "st_db st" "()"]
    by (auto simp: call tx accepts_update_def store_publicError_def split: option.splits)
  show "rescue_table B U (st_db (snd (UpdateRescueIncident B U S env r st))) =
      (if accepts_update (rescue_table B U (st_db st) (ri_ID r)) r
       then (rescue_table B U (st_db st))(ri_ID r \<mapsto> r) else rescue_table B U (st_db st))"
  proof (cases "?tx (st_db st)")
    case (Inl e)
    then have "\<not> accepts_update (rescue_table B U (st_db st) (ri_ID r)) r"
      using put_rescue_live [OF B bs, of "ri_ID r" "st_db st" "()"]
      by (auto simp: tx accepts_update_def split: option.splits if_splits)
    with Inl show ?thesis by (simp add: call)
  next
    case (Inr p)
    obtain x db' where p: "p = (x, db')" by (cases p)
    with Inr update_incident_tx_step [OF E ok t bs net]
    have "rescue_table B U db' = (rescue_table B U (st_db st))(ri_ID r \<mapsto> r)" by simp
    moreover have "accepts_update (rescue_table B U (st_db st) (ri_ID r)) r"
      using Inr by (auto simp: tx accepts_update_def split: option.splits if_splits)
    ultimately show ?thesis using Inr p by (simp add: call)
  qed
qed

section \<open>Pruning on a working engine\<close>

definition terminals :: "'b bolt \<Rightarrow> tx_decoder \<Rightarrow> 'b store_db \<Rightarrow> RescueIncident set" where
  "terminals B U db = {r. rescue_table B U db (ri_ID r) = Some r \<and> prunable r}"

lemma entries_distinct_records:
  assumes B: "bolt_engine B"
    and rs: "list_all2 (\<lambda>e r. rescue_entry U S e = Inr r) (bentries B (rescueStateBucket db)) rs"
  shows "distinct rs"
proof -
  have "map fst (bentries B (rescueStateBucket db)) = map (id_bytes \<circ> ri_ID) rs"
    using rs by (induction rule: list_all2_induct) (auto simp: rescue_entry_Inr)
  then have "distinct (map (id_bytes \<circ> ri_ID) rs)"
    using bolt_engine.entries_distinct [OF B, of "rescueStateBucket db"] by simp
  then show ?thesis by (simp add: distinct_map)
qed

lemma prune_tx_live:
  assumes B: "bolt_engine_live B" and ok: "rescues_ok B U S db" and env: "\<forall>n. se_ctx env n = CtxLive"
  shows "\<exists>db'. prune_tx B U S env retain db = Inr ((), db')"
proof -
  have E: "bolt_engine B" using B by (simp add: bolt_engine_live_def)
  from ok obtain rs where rs: "list_all2 (\<lambda>e r. rescue_entry U S e = Inr r) (bentries B (rescueStateBucket db)) rs"
    using list_all2_entries rescues_ok_entries [OF E] by blast
  note c = collectTerminal_live [OF rs env, of 2 "[]"]
  define n where "n = 2 + length (bentries B (rescueStateBucket db))"
  obtain b where "foldE (deleteTerminal B env) (n, rescueStateBucket db) (pruned retain rs) =
      Inr (n + length (pruned retain rs), b)"
    using deleteTerminal_live [OF B env] by blast
  with c show ?thesis by (simp add: prune_tx_def pruned_def n_def)
qed

lemma pruned_split:
  assumes "distinct rs" and "0 \<le> retain"
  shows "set (pruned retain rs) \<subseteq> set (filter prunable rs)"
    and "card (set (filter prunable rs) - set (pruned retain rs)) = min (nat retain) (card (set (filter prunable rs)))"
    and "a \<in> set (pruned retain rs) \<Longrightarrow> b \<in> set (filter prunable rs) - set (pruned retain rs) \<Longrightarrow> older a b"
proof -
  define ts where "ts = oldest_first (filter prunable rs)"
  define k where "k = nat (max 0 (int (length (filter prunable rs)) - retain))"
  have p: "pruned retain rs = take k ts" by (simp add: pruned_def ts_def k_def)
  have st: "set ts = set (filter prunable rs)" by (simp add: ts_def)
  have d: "distinct ts" using assms(1) by (simp add: ts_def oldest_first_def)
  have l: "length ts = length (filter prunable rs)" by (simp add: ts_def oldest_first_def)
  have split: "set ts = set (take k ts) \<union> set (drop k ts)" by (metis append_take_drop_id set_append)
  have disj: "set (take k ts) \<inter> set (drop k ts) = {}" using d by (simp add: set_take_disj_set_drop_if_distinct)
  have kept: "set (filter prunable rs) - set (pruned retain rs) = set (drop k ts)"
    using split disj st p by auto
  show "set (pruned retain rs) \<subseteq> set (filter prunable rs)" using split st p by auto
  have "card (set (drop k ts)) = length ts - k" using d by (simp add: distinct_card)
  moreover have "card (set (filter prunable rs)) = length ts"
    using d st by (metis distinct_card)
  ultimately show "card (set (filter prunable rs) - set (pruned retain rs)) = min (nat retain) (card (set (filter prunable rs)))"
    unfolding kept using assms(2) by (auto simp: l k_def min_def max_def nat_diff_distrib)
  have "sorted_wrt older (take k ts @ drop k ts)" by (simp add: ts_def oldest_first_sorted)
  then have "\<forall>a \<in> set (take k ts). \<forall>b \<in> set (drop k ts). older a b" unfolding sorted_wrt_append by simp
  then show "a \<in> set (pruned retain rs) \<Longrightarrow> b \<in> set (filter prunable rs) - set (pruned retain rs) \<Longrightarrow> older a b"
    unfolding kept by (simp add: p)
qed

lemma prune_tx_exact:
  assumes B: "bolt_engine B" and ok: "rescues_ok B U S db" and tx: "prune_tx B U S env retain db = Inr (x, db')"
    and k: "0 \<le> retain"
  shows "\<forall>r. \<not> prunable r \<longrightarrow>
      (rescue_table B U db' (ri_ID r) = Some r \<longleftrightarrow> rescue_table B U db (ri_ID r) = Some r)"
    and "terminals B U db' \<subseteq> terminals B U db"
    and "card (terminals B U db') = min (nat retain) (card (terminals B U db))"
    and "\<forall>a \<in> terminals B U db - terminals B U db'. \<forall>b \<in> terminals B U db'. older a b"
proof -
  from prune_tx_effect [OF B tx] obtain rs where
    rs: "list_all2 (\<lambda>e r. rescue_entry U S e = Inr r) (bentries B (rescueStateBucket db)) rs"
    and t: "\<forall>iid. rescue_table B U db' iid = (if iid \<in> ri_ID ` set (pruned retain rs) then None else rescue_table B U db iid)"
    by blast
  note d = entries_distinct_records [OF B rs] and mem = table_of_entries [OF B rs]
  have same: "r = q" if "q \<in> set (pruned retain rs)" "rescue_table B U db (ri_ID r) = Some r" "ri_ID r = ri_ID q" for r q
    using that pruned_prunable [of q] mem [of q] by simp
  have after: "rescue_table B U db' (ri_ID r) = Some r \<longleftrightarrow>
      rescue_table B U db (ri_ID r) = Some r \<and> r \<notin> set (pruned retain rs)" for r
  proof (cases "rescue_table B U db (ri_ID r) = Some r")
    case True
    then have "ri_ID r \<in> ri_ID ` set (pruned retain rs) \<longleftrightarrow> r \<in> set (pruned retain rs)"
      using same by blast
    with True t show ?thesis by simp
  qed (simp add: t)
  have T: "terminals B U db = set (filter prunable rs)" by (auto simp: terminals_def mem)
  have T': "terminals B U db' = set (filter prunable rs) - set (pruned retain rs)"
    using after by (auto simp: terminals_def mem)
  show "\<forall>r. \<not> prunable r \<longrightarrow>
      (rescue_table B U db' (ri_ID r) = Some r \<longleftrightarrow> rescue_table B U db (ri_ID r) = Some r)"
    using after pruned_prunable by blast
  show "terminals B U db' \<subseteq> terminals B U db" by (auto simp: T T')
  show "card (terminals B U db') = min (nat retain) (card (terminals B U db))"
    unfolding T T' by (rule pruned_split(2) [OF d k])
  show "\<forall>a \<in> terminals B U db - terminals B U db'. \<forall>b \<in> terminals B U db'. older a b"
    unfolding T T' using pruned_split(1,3) [OF d k] by blast
qed

lemma Prune_live:
  assumes B: "bolt_engine_live B" and ok: "rescues_ok B U S (st_db st)" and env: "\<forall>n. se_ctx env n = CtxLive"
    and c: "se_commit env" and k: "0 \<le> retain" "retain \<le> 1000000" and op: "\<not> st_closed st"
  shows "\<exists>db'. prune_tx B U S env retain (st_db st) = Inr ((), db') \<and>
    PruneRescueIncidents B U S env retain st = (Inr (), st\<lparr>st_db := db'\<rparr>)"
proof -
  from prune_tx_live [OF B ok env] obtain db' where "prune_tx B U S env retain (st_db st) = Inr ((), db')" by blast
  with store_begin_live [OF _ op, of env] env c k show ?thesis
    by (auto simp: PruneRescueIncidents_def store_update_live)
qed

end
