(* ===== verification/Rescue_Example.thy ===== *)
theory Rescue_Example
  imports Rescue_Migration Store_Example
begin

text \<open>
  A concrete journal for the rescue properties: one claim, from its creation to a broadcast
  transaction, on the reference engine, with a decoder that knows one transaction.
\<close>

definition example_unmarshal :: tx_decoder where
  "example_unmarshal bs =
     (if bs = [1] then Some \<lparr>tx_Type = SetCodeTxType, tx_Hash = 77, tx_Nonce = 5, tx_Data = [9], tx_AuthNonces = [6]\<rparr>
      else None)"

definition pending_claim :: RescueIncident where
  "pending_claim = \<lparr>ri_ID = NewAssetIncidentID 11 CandidateClaim 8, ri_Parent = NewIncidentID 11, ri_Candidate = 11,
     ri_Network = 1, ri_Kind = CandidateClaim, ri_Asset = 8, ri_Generation = 1, ri_Trusted = True,
     ri_Policy = \<lparr>rp_LatestState = False, rp_MaxAttempts = 3, rp_RetryDelay = 1000000000, rp_FinalityTimeout = 60000000000\<rparr>,
     ri_Status = RescuePending, ri_Attempts = 0, ri_SponsorNonce = 0, ri_SourceNonce = 0, ri_TxHash = 0,
     ri_SignedTransaction = [], ri_SnapshotBlockNumber = 0, ri_SnapshotBlockHash = 0, ri_SourceBefore = 0,
     ri_DestinationBefore = 0, ri_RetryAt = zeroTime, ri_ReconcileUntil = zeroTime, ri_LastCode = [],
     ri_CreatedAt = start, ri_UpdatedAt = start\<rparr>"

definition prepared_claim :: RescueIncident where
  "prepared_claim = pending_claim\<lparr>ri_Status := RescuePrepared, ri_Attempts := 1, ri_SponsorNonce := 5,
     ri_SnapshotBlockNumber := 100, ri_SnapshotBlockHash := 55\<rparr>"

definition signed_claim :: RescueIncident where
  "signed_claim = prepared_claim\<lparr>ri_Status := RescueSigned, ri_SourceNonce := 6, ri_TxHash := 77,
     ri_SignedTransaction := [1], ri_ReconcileUntil := start + 60 * second\<rparr>"

definition broadcast_claim :: RescueIncident where
  "broadcast_claim = signed_claim\<lparr>ri_Status := RescueBroadcast\<rparr>"

definition lost_claim :: RescueIncident where
  "lost_claim = broadcast_claim\<lparr>ri_Status := RescueLostRace, ri_SignedTransaction := [], ri_ReconcileUntil := zeroTime\<rparr>"

lemmas example_claims = pending_claim_def prepared_claim_def signed_claim_def broadcast_claim_def lost_claim_def

text \<open>A token rescue that the previous schema recorded as a success.\<close>

definition legacy_token :: RescueIncident where
  "legacy_token = lost_claim\<lparr>ri_ID := NewAssetIncidentID 11 CandidateToken 8, ri_Kind := CandidateToken,
     ri_Status := RescueTrustedSuccess\<rparr>"

lemma example_rescue_times: "validRescueTime start" "validRescueTime (start + 60 * second)" "\<not> IsZero start"
    "\<not> IsZero (start + 60 * second)" "IsZero zeroTime" "time_ok start" "time_ok (start + 60 * second)" "time_ok zeroTime"
  by code_simp+

lemma example_time_order: "\<not> Before start start" "After (start + 60 * second) start"
    "time_Sub (start + 60 * second) start = 60000000000"
  by code_simp+

lemma example_durations: "sint (1000000000 :: 64 word) = 1000000000" "sint (60000000000 :: 64 word) = 60000000000"
    "sint (1 :: 64 word) = 1"
  by code_simp+

lemmas example_validation = validateRescueIncident_def validRescueFrame_def validPendingState_def
  validStatusFields_def hasNoSignedTransaction_def validateSignedRescueTransaction_def validTerminalSignedState_def
  validRescueStatus_def example_unmarshal_def

lemma example_valid:
  "validateRescueIncident example_unmarshal pending_claim"
  "validateRescueIncident example_unmarshal prepared_claim"
  "validateRescueIncident example_unmarshal signed_claim"
  "validateRescueIncident example_unmarshal broadcast_claim"
  "validateRescueIncident example_unmarshal lost_claim"
  by (simp_all add: example_validation example_claims example_rescue_times example_time_order example_durations)

lemma example_times_ok:
  "rescue_times_ok pending_claim" "rescue_times_ok prepared_claim" "rescue_times_ok signed_claim"
  "rescue_times_ok broadcast_claim" "rescue_times_ok lost_claim" "rescue_times_ok legacy_token"
  by (simp_all add: rescue_times_ok_def example_claims legacy_token_def example_rescue_times)

lemma example_transitions:
  "validRescueTransition pending_claim prepared_claim"
  "validRescueTransition prepared_claim signed_claim"
  "validRescueTransition signed_claim broadcast_claim"
  "validRescueTransition broadcast_claim lost_claim"
  by (simp_all add: validRescueTransition_def example_claims sameRescueIdentity_def sameRescuePreparation_def
      sameSignedRescueOperation_def validReceiptTerminalTransition_def isReceiptTerminalStatus_def
      example_rescue_times example_time_order example_durations)

section \<open>A journal with one record\<close>

definition journal_with :: "bytes \<Rightarrow> RescueIncident \<Rightarrow> ordered_bucket store_state" where
  "journal_with bs r =
     (new_state ob_empty)\<lparr>st_db := (new_db ob_empty)\<lparr>rescueStateBucket := ob_put ob_empty (id_bytes (ri_ID r)) bs\<rparr>\<rparr>"

lemma journal_with_open: "st_closed (journal_with bs r) = False"
  by (simp add: journal_with_def new_state_def)

lemma journal_with_table:
  assumes "decodeRescueIncident U bs = Some r"
  shows "rescue_table list_bolt U (st_db (journal_with bs r)) iid = (if iid = ri_ID r then Some r else None)"
  using assms by (simp add: rescue_table_def journal_with_def list_bolt_def)

lemma journal_with_ok:
  assumes "decodeRescueIncident U bs = Some r" and "ri_Network r = bs_network S"
  shows "rescues_ok list_bolt U S (st_db (journal_with bs r))"
  using assms by (simp add: rescues_ok_def journal_with_def list_bolt_def)

definition written :: "RescueIncident \<Rightarrow> bytes" where
  "written r = the (encodeRescueIncident example_unmarshal r)"

lemma written_encoded:
  assumes "validateRescueIncident example_unmarshal r"
  shows "encodeRescueIncident example_unmarshal r = Some (written r)"
proof -
  from assms obtain bs where "encodeRescueIncident example_unmarshal r = Some bs"
    by (simp add: encodeRescueIncident_layout)
  then show ?thesis by (simp add: written_def)
qed

lemma written_decoded:
  assumes "validateRescueIncident example_unmarshal r" and "rescue_times_ok r"
  shows "decodeRescueIncident example_unmarshal (written r) = Some r"
  using decode_encode_rescue [OF written_encoded [OF assms(1)]] assms(2) by (simp add: rescue_times_ok_def)

abbreviation claim_journal :: "RescueIncident \<Rightarrow> ordered_bucket store_state" where
  "claim_journal r \<equiv> journal_with (written r) r"

lemma claim_networks: "ri_Network pending_claim = bs_network example_store"
  "ri_Network prepared_claim = bs_network example_store" "ri_Network signed_claim = bs_network example_store"
  "ri_Network broadcast_claim = bs_network example_store" "ri_Network lost_claim = bs_network example_store"
  by (simp_all add: example_claims example_store_def)

lemmas example_ok = journal_with_ok [OF written_decoded]
lemmas example_table = journal_with_table [OF written_decoded]

lemma claim_facts: "ri_TxHash signed_claim = 77" "ri_Kind signed_claim = CandidateClaim"
  "ri_Kind lost_claim = CandidateClaim" "isTerminalRescueStatus (ri_Status lost_claim)"
  by (simp_all add: example_claims isTerminalRescueStatus_def)

section \<open>A token rescue of the previous schema\<close>

definition reported_token :: RescueIncident where
  "reported_token = legacy_token\<lparr>ri_Status := RescueTokenReported\<rparr>"

lemma reported_valid: "validateRescueIncident example_unmarshal reported_token"
  by (simp add: reported_token_def legacy_token_def example_validation example_claims example_rescue_times
      example_time_order example_durations)

lemma reported_facts: "rescue_times_ok reported_token" "ri_Network reported_token = bs_network example_store"
  "prunable reported_token" "migrated legacy_token = reported_token" "ri_ID reported_token = ri_ID legacy_token"
  using example_times_ok(6)
  by (simp_all add: reported_token_def legacy_token_def example_claims rescue_times_ok_def example_store_def
      prunable_def isTerminalRescueStatus_def migrated_def legacy_success_def)

definition legacy_bytes :: bytes where
  "legacy_bytes = [2] @ rescue_head legacy_token @ rescue_tail legacy_token"

lemma legacy_decoded: "decodeRescueIncidentV2 example_unmarshal legacy_bytes = Some legacy_token"
proof -
  have "storable_rescue reported_token"
    using reported_valid reported_facts(1) valid_rescue_storable
    by (simp add: validateRescueIncident_def rescue_times_ok_def)
  then have s: "storable_rescue legacy_token" by (simp add: reported_token_def storable_rescue_def)
  have "legacyValidated True legacy_token = Some reported_token"
    by (simp add: legacyValidated_def legacy_token_def reported_token_def example_claims)
  moreover have "\<not> rp_LatestState (ri_Policy legacy_token)" by (simp add: legacy_token_def example_claims)
  ultimately show ?thesis
    using decode_written [of legacy_bytes legacy_token True example_unmarshal] s reported_valid
    by (simp add: legacy_bytes_def decodeRescueIncidentV2_def)
qed

definition legacy_db :: "(ordered_bucket \<times> u64) store_db" where
  "legacy_db = (new_db (ob_empty, 0))\<lparr>rescueStateBucket := (ob_put ob_empty (id_bytes (ri_ID legacy_token)) legacy_bytes, 0)\<rparr>"

lemma legacy_accepted: "validateRescueStateBucket counted_bolt example_unmarshal example_store schemaVersionV2 legacy_db = Inr ()"
  using legacy_decoded reported_facts(2)
  by (simp add: validateRescueStateBucket_Inr validateRescueEntry_V2 entry_V2_def legacy_db_def counted_bolt_def
      reported_token_def)

section \<open>A store with a nonce floor\<close>

definition floor_state :: "ordered_bucket store_state" where
  "floor_state = (new_state ob_empty)\<lparr>st_db := (new_db ob_empty)\<lparr>metaBucket := ob_put ob_empty nonceFloorKey (encodeUint64 3)\<rparr>\<rparr>"

lemma floor_rescues_ok: "rescues_ok list_bolt U S (st_db floor_state)"
  by (simp add: rescues_ok_def floor_state_def new_db_def list_bolt_def)

lemma floor_raised: "fst (RaiseNonceFloor list_bolt (live_env start) 7 floor_state) = Inr ()"
  by (simp add: RaiseNonceFloor_def store_begin_def live_env_def floor_state_def new_state_def store_update_live
      raise_floor_tx_def list_bolt_def slice_of_def)

end
