(* ===== verification/Rescue_Properties.thy ===== *)
theory Rescue_Properties
  imports Rescue_Runs Rescue_Example
begin

text \<open>
  The properties of the rescue journal: the record's round trip, the exact outcome of an update,
  what a sequence of calls can never undo, how long a rescue can go on, pruning, and the migration
  of an older database.
\<close>

section \<open>The record\<close>

text \<open>C21: Every rescue record that the encoder accepts, whatever its status and policy, is read
  back unchanged by the decoder of the current schema.\<close>
theorem rescue_roundtrip:
  assumes "encodeRescueIncident U r = Some bs" and "rescue_times_ok r"
  shows "decodeRescueIncident U bs = Some r"
  using decode_encode_rescue [OF assms(1)] assms(2) by (simp add: rescue_times_ok_def)

theorem rescue_roundtrip_witness:
  "decodeRescueIncident example_unmarshal (written signed_claim) = Some signed_claim \<and> ri_TxHash signed_claim = 77"
  using rescue_roundtrip [OF written_encoded [OF example_valid(3)] example_times_ok(3)]
  by (simp add: example_claims)

section \<open>Single calls\<close>

text \<open>C22: On a working engine, an update of a valid record succeeds exactly if the stored record is
  already the new one or may move to it; otherwise it reports a conflict. Success stores the new
  record and nothing else changes.\<close>
theorem Update_exact:
  assumes "bolt_engine_live B" and "rescues_ok B U S (st_db st)" and "rescue_times_ok r"
    and "validateRescueIncident U r" and "ri_Network r = bs_network S"
    and "se_commit env" and "se_ctx env 0 = CtxLive" and "se_ctx env 1 = CtxLive" and "\<not> st_closed st"
  shows "(let (out, st') = UpdateRescueIncident B U S env r st; T = rescue_table B U (st_db st);
              T' = rescue_table B U (st_db st')
          in if accepts_update (T (ri_ID r)) r then out = Inr () \<and> T' = T(ri_ID r \<mapsto> r)
             else out = Inl errConflict \<and> T' = T)"
  using Update_live [OF assms] by (auto simp: split_beta)

theorem Update_exact_witness:
  "(let (out, st') = UpdateRescueIncident list_bolt example_unmarshal example_store (live_env start) broadcast_claim
        (claim_journal signed_claim)
    in out = Inr () \<and> rescue_table list_bolt example_unmarshal (st_db st') (ri_ID broadcast_claim) = Some broadcast_claim)"
proof -
  have i: "ri_ID broadcast_claim = ri_ID signed_claim" by (simp add: example_claims)
  have a: "accepts_update (rescue_table list_bolt example_unmarshal (st_db (claim_journal signed_claim)) (ri_ID signed_claim)) broadcast_claim"
    by (simp add: accepts_update_def example_table [OF example_valid(3) example_times_ok(3)] example_transitions)
  show ?thesis
    using Update_exact [OF list_engine_live example_ok [OF example_valid(3) example_times_ok(3) claim_networks(3)]
        example_times_ok(4) example_valid(4) claim_networks(4), of "live_env start"]
    by (auto simp: example_times journal_with_open split_beta i a)
qed

text \<open>C23: Every call of the journal, whatever its argument, its context and the engine do, is one
  step of the journal: each entry stays, is created pending, moves along an accepted transition
  that is a step of the phase machine, or is pruned after it has finished; and the nonce floor does
  not fall.\<close>
theorem rescue_call_refines:
  assumes "bolt_engine B" and "rescues_ok B U S (st_db st)" and "call_times_ok c"
    and "rescue_call_result B U S env c st = (out, st')"
  shows "journal_step B U S (st_db st) (st_db st') \<and>
    (\<forall>iid r r'. rescue_table B U (st_db st) iid = Some r \<longrightarrow> rescue_table B U (st_db st') iid = Some r' \<longrightarrow>
       r' = r \<or> phase_step (phase_of r) (phase_of r'))"
proof -
  have j: "journal_step B U S (st_db st) (st_db st')" by (rule rescue_call_step [OF assms])
  have "r' = r \<or> phase_step (phase_of r) (phase_of r')"
    if "rescue_table B U (st_db st) iid = Some r" "rescue_table B U (st_db st') iid = Some r'" for iid r r'
  proof -
    have "entry_step (Some r) (Some r')" using j that unfolding journal_step_def by metis
    moreover have "validateRescueIncident U r'"
      using j that(2) rescue_table_Some(3) unfolding journal_step_def by blast
    ultimately show ?thesis using transition_phase_step by auto
  qed
  with j show ?thesis by blast
qed

theorem rescue_call_refines_witness:
  "\<exists>out st'. rescue_call_result list_bolt example_unmarshal example_store (live_env start) (CallUpdate broadcast_claim)
      (claim_journal signed_claim) = (out, st') \<and>
    journal_step list_bolt example_unmarshal example_store (st_db (claim_journal signed_claim)) (st_db st')"
proof -
  obtain out st' where c: "rescue_call_result list_bolt example_unmarshal example_store (live_env start)
      (CallUpdate broadcast_claim) (claim_journal signed_claim) = (out, st')" by fastforce
  have "journal_step list_bolt example_unmarshal example_store (st_db (claim_journal signed_claim)) (st_db st')"
    using rescue_call_refines [OF list_engine example_ok [OF example_valid(3) example_times_ok(3) claim_networks(3)] _ c]
      example_times_ok(4) by simp
  with c show ?thesis by blast
qed

section \<open>Sequences of calls\<close>

definition no_prune :: "(store_env \<times> rescue_call) list \<Rightarrow> bool" where
  "no_prune cs = list_all (\<lambda>(env, c). case c of CallPrune _ \<Rightarrow> False | _ \<Rightarrow> True) cs"

text \<open>An entry that cannot be pruned keeps a property that accepted transitions keep.\<close>

lemma entry_kept:
  assumes B: "bolt_engine B" and ok: "rescues_ok B U S (st_db st)" and t: "\<forall>(env, c) \<in> set cs. call_times_ok c"
    and e: "rescue_table B U (st_db st) iid = Some r" "Q r"
    and claim: "no_prune cs \<or> (\<forall>r. Q r \<longrightarrow> ri_Kind r = CandidateClaim)"
    and step: "\<And>r r'. validateRescueIncident U r \<Longrightarrow> validRescueTransition r r' \<Longrightarrow> Q r \<Longrightarrow> Q r'"
  shows "\<exists>r'. rescue_table B U (st_db (rescue_calls B U S cs st)) iid = Some r' \<and> Q r'"
proof -
  have "rescues_ok B U S (st_db (rescue_calls B U S cs st)) \<and>
      (\<exists>r. rescue_table B U (st_db (rescue_calls B U S cs st)) iid = Some r \<and> Q r)"
  proof (rule rescue_calls_induct [OF B ok t, where P = "\<lambda>db. \<exists>r. rescue_table B U db iid = Some r \<and> Q r"])
    show "\<exists>r. rescue_table B U (st_db st) iid = Some r \<and> Q r" using e by blast
  next
    fix st env c out st'
    assume o: "rescues_ok B U S (st_db st)" and c: "(env, c) \<in> set cs"
      and r: "rescue_call_result B U S env c st = (out, st')" and j: "journal_step B U S (st_db st) (st_db st')"
      and p: "\<exists>r. rescue_table B U (st_db st) iid = Some r \<and> Q r"
    from p obtain q where q: "rescue_table B U (st_db st) iid = Some q" "Q q" by blast
    have s: "entry_step (Some q) (rescue_table B U (st_db st') iid)"
      using j q(1) unfolding journal_step_def by metis
    have "rescue_table B U (st_db st') iid \<noteq> None"
    proof (cases "no_prune cs")
      case True
      with c have "c \<noteq> CallPrune k" for k by (auto simp: no_prune_def list_all_iff)
      moreover have "call_times_ok c" using t c by auto
      ultimately show ?thesis using rescue_call_keeps [OF B o _ r] q(1) by blast
    next
      case False
      with claim q(2) s show ?thesis by auto
    qed
    with s q(2) step [OF rescue_table_Some(3) [OF o q(1)]]
    show "\<exists>r. rescue_table B U (st_db st') iid = Some r \<and> Q r" by auto
  qed
  then show ?thesis by blast
qed



text \<open>C25: A finished claim is final: after any sequence of calls the journal still holds exactly that
  record.\<close>
theorem finished_claim_final:
  assumes "bolt_engine B" and "rescues_ok B U S (st_db st)" and "\<forall>(env, c) \<in> set cs. call_times_ok c"
    and "rescue_table B U (st_db st) iid = Some r" and "isTerminalRescueStatus (ri_Status r)"
    and "ri_Kind r = CandidateClaim"
  shows "rescue_table B U (st_db (rescue_calls B U S cs st)) iid = Some r"
proof -
  have "\<exists>r'. rescue_table B U (st_db (rescue_calls B U S cs st)) iid = Some r' \<and> r' = r"
    by (rule entry_kept [OF assms(1-4)]) (use assms(5,6) transition_unfinished in auto)
  then show ?thesis by simp
qed

theorem finished_claim_final_witness:
  "rescue_table list_bolt example_unmarshal (st_db (rescue_calls list_bolt example_unmarshal example_store
      [(live_env start, CallPut pending_claim), (live_env start, CallPrune 0)] (claim_journal lost_claim)))
      (ri_ID lost_claim) = Some lost_claim"
  by (rule finished_claim_final
      [OF list_engine example_ok [OF example_valid(5) example_times_ok(5) claim_networks(5)]])
    (simp_all add: example_times_ok example_table [OF example_valid(5) example_times_ok(5)] claim_facts)

text \<open>C26: After the nonce floor has been raised to a value, no sequence of calls takes it below that
  value again.\<close>
theorem nonce_floor_monotone:
  assumes "bolt_engine B" and "rescues_ok B U S (st_db st0)" and "\<forall>(env, c) \<in> set cs. call_times_ok c"
    and "RaiseNonceFloor B env n st0 = (Inr (), st)"
  shows "\<exists>m \<ge> n. nonce_floor B (st_db (rescue_calls B U S cs st)) = Some m"
proof -
  from assms(4) obtain x where tx: "raise_floor_tx B n (st_db st0) = Inr (x, st_db st)"
    by (cases rule: Raise_cases) auto
  note step = raise_floor_tx_step [OF assms(1,2) tx]
  from step(1) have "rescues_ok B U S (st_db st)" by (simp add: journal_step_def)
  from rescue_calls_induct [OF assms(1) this assms(3), where P = "\<lambda>db. \<exists>m \<ge> n. nonce_floor B db = Some m", OF step(2)]
  show ?thesis unfolding journal_step_def by (meson order_trans)
qed

theorem nonce_floor_monotone_witness:
  "\<exists>m \<ge> 7. nonce_floor list_bolt (st_db (rescue_calls list_bolt example_unmarshal example_store
      [(live_env start, CallRaise 5), (live_env start, CallPut pending_claim)]
      (snd (RaiseNonceFloor list_bolt (live_env start) 7 floor_state)))) = Some m"
  by (rule nonce_floor_monotone [OF list_engine floor_rescues_ok, where env = "live_env start"])
    (simp_all add: example_times_ok prod_eq_iff floor_raised)

section \<open>Termination\<close>

text \<open>C27: A rescue cannot go on for ever: in any sequence of accepted transitions that starts with a
  pending record, the phase of the rescue changes at most twice per attempt its policy allows, and
  twice more.\<close>
theorem rescue_terminates:
  assumes "ri_Status r = RescuePending" and "successively validRescueTransition (r # rs)"
    and "\<forall>r' \<in> set rs. validateRescueIncident U r'"
  shows "length (remdups_adj (map phase_of (r # rs))) \<le> 2 * unat (rp_MaxAttempts (ri_Policy r)) + 3"
  using chain_phases_left [OF assms(2,3)] assms(1) by (simp add: phases_left_def phase_of_def)

theorem rescue_terminates_witness:
  "length (remdups_adj (map phase_of [pending_claim, prepared_claim, signed_claim, broadcast_claim, lost_claim])) \<le>
     2 * unat (rp_MaxAttempts (ri_Policy pending_claim)) + 3"
  by (rule rescue_terminates [of pending_claim "[prepared_claim, signed_claim, broadcast_claim, lost_claim]" example_unmarshal])
    (simp_all add: example_transitions example_valid, simp add: example_claims)

section \<open>Pruning\<close>

text \<open>C28: On a working engine, pruning succeeds; it touches no unfinished record and no claim, keeps
  as many of the other finished records as it is told to retain (all, if there are fewer), and each
  one it removes is older than each one it keeps.\<close>
theorem Prune_exact:
  assumes "bolt_engine_live B" and "rescues_ok B U S (st_db st)" and "\<forall>n. se_ctx env n = CtxLive"
    and "se_commit env" and "0 \<le> retain" and "retain \<le> 1000000" and "\<not> st_closed st"
  shows "(let (out, st') = PruneRescueIncidents B U S env retain st; T = terminals B U (st_db st);
              T' = terminals B U (st_db st')
          in out = Inr () \<and>
             (\<forall>r. \<not> prunable r \<longrightarrow>
                (rescue_table B U (st_db st') (ri_ID r) = Some r \<longleftrightarrow> rescue_table B U (st_db st) (ri_ID r) = Some r)) \<and>
             T' \<subseteq> T \<and> card T' = min (nat retain) (card T) \<and> (\<forall>a \<in> T - T'. \<forall>b \<in> T'. older a b))"
proof -
  have E: "bolt_engine B" using assms(1) by (simp add: bolt_engine_live_def)
  from Prune_live [OF assms] obtain db' where tx: "prune_tx B U S env retain (st_db st) = Inr ((), db')"
    and call: "PruneRescueIncidents B U S env retain st = (Inr (), st\<lparr>st_db := db'\<rparr>)" by blast
  from prune_tx_exact [OF E assms(2) tx assms(5)] show ?thesis
    unfolding call Let_def prod.case by simp
qed

theorem Prune_exact_witness:
  "(let (out, st') = PruneRescueIncidents list_bolt example_unmarshal example_store (live_env start) 0
        (claim_journal reported_token)
    in out = Inr () \<and> reported_token \<in> terminals list_bolt example_unmarshal (st_db (claim_journal reported_token)) \<and>
       card (terminals list_bolt example_unmarshal (st_db st')) = 0)"
proof -
  have "reported_token \<in> terminals list_bolt example_unmarshal (st_db (claim_journal reported_token))"
    by (simp add: terminals_def example_table [OF reported_valid reported_facts(1)] reported_facts)
  then show ?thesis
    using Prune_exact [OF list_engine_live example_ok [OF reported_valid reported_facts(1,2)], of "live_env start" 0]
    by (simp add: example_times journal_with_open split_beta Let_def)
qed

section \<open>Migration\<close>

text \<open>C29: Every rescue bucket that the previous schema accepts is migrated without error on a working
  engine into one that the current schema accepts. Each record stays what it was, except that the
  success of a token rescue becomes a reported one.\<close>
theorem migration_correct:
  assumes "bolt_engine_live (bkv Q)" and "seq_engine Q"
    and "validateRescueStateBucket Q U S schemaVersionV2 db = Inr ()"
  shows "\<exists>db'. migrateV2TokenOutcomes (bkv Q) U db = Inr db' \<and>
    validateRescueStateBucket Q U S schemaVersion db' = Inr () \<and>
    (\<forall>k v. bget (bkv Q) (rescueStateBucket db) k = Some v \<longrightarrow>
       (\<exists>w. bget (bkv Q) (rescueStateBucket db') k = Some w \<and>
          decodeRescueIncident U w = map_option migrated (decodeRescueIncidentV2 U v)))"
proof -
  have E: "bolt_engine (bkv Q)" using assms(1) by (simp add: bolt_engine_live_def)
  from assms(3) have v2: "\<forall>e \<in> set (bentries (bkv Q) (rescueStateBucket db)). \<exists>r. entry_V2 U S e r"
    and z: "bseq Q (rescueStateBucket db) = 0"
    by (simp_all add: validateRescueStateBucket_Inr validateRescueEntry_V2)
  from migration_table [OF assms(1) v2] obtain b where
    m: "migrateV2TokenOutcomes (bkv Q) U db = Inr (db\<lparr>rescueStateBucket := b\<rparr>)"
    and t: "\<And>k. case bget (bkv Q) (rescueStateBucket db) k of None \<Rightarrow> bget (bkv Q) b k = None
      | Some v \<Rightarrow> \<exists>w r. bget (bkv Q) b k = Some w \<and> entry_V2 U S (k, v) r \<and> rescue_entry U S (k, w) = Inr (migrated r)"
    by blast
  have "bseq Q b = 0" using migration_seq [OF assms(2) m] z by simp
  moreover have "\<exists>r. rescue_entry U S (k, w) = Inr r" if "bget (bkv Q) b k = Some w" for k w
    using t [of k] that by (auto split: option.splits)
  ultimately have "validateRescueStateBucket Q U S schemaVersion (db\<lparr>rescueStateBucket := b\<rparr>) = Inr ()"
    unfolding validateRescueStateBucket_Inr validateRescueEntry_current
    by (auto simp: bolt_engine.entry_get [OF E])
  moreover have "\<exists>w. bget (bkv Q) b k = Some w \<and> decodeRescueIncident U w = map_option migrated (decodeRescueIncidentV2 U v)"
    if "bget (bkv Q) (rescueStateBucket db) k = Some v" for k v
    using t [of k] that by (auto simp: rescue_entry_Inr entry_V2_def)
  ultimately show ?thesis using m by simp
qed

theorem migration_correct_witness:
  "\<exists>db'. migrateV2TokenOutcomes (bkv counted_bolt) example_unmarshal legacy_db = Inr db' \<and>
     validateRescueStateBucket counted_bolt example_unmarshal example_store schemaVersion db' = Inr () \<and>
     (\<exists>w. bget (bkv counted_bolt) (rescueStateBucket db') (id_bytes (ri_ID legacy_token)) = Some w \<and>
        decodeRescueIncident example_unmarshal w = Some reported_token)"
proof -
  have "bget (bkv counted_bolt) (rescueStateBucket legacy_db) (id_bytes (ri_ID legacy_token)) = Some legacy_bytes"
    by (simp add: legacy_db_def counted_bolt_def)
  with migration_correct [OF counted_engine.bolt_engine_live_axioms counted_engine_seq.seq_engine_axioms legacy_accepted]
  show ?thesis by (fastforce simp: legacy_decoded reported_facts)
qed

end
