(* ===== verification/Store_Queue.thy ===== *)
theory Store_Queue
  imports Store_Codec
begin

text \<open>
  The durable queue of candidates (\<^verbatim>\<open>internal/store/bolt_candidates.go\<close>), first part: the checks
  and counts the operations share, and the promotion of staged and delayed candidates to the ready
  queue.
\<close>

section \<open>Keys\<close>

definition scanCursorKey :: bytes where "scanCursorKey = ascii ''scan-cursor''"
definition promotionTurnKey :: bytes where "promotionTurnKey = ascii ''promotion-turn''"

text \<open>Writes inside a transaction.\<close>

definition putE :: "'b bolt \<Rightarrow> 'b \<Rightarrow> bytes \<Rightarrow> bytes \<Rightarrow> store_error + 'b" where
  "putE B b k v = optE engineErr (bput B b k v)"

definition delE :: "'b bolt \<Rightarrow> 'b \<Rightarrow> bytes \<Rightarrow> store_error + 'b" where
  "delE B b k = optE engineErr (bdel B b k)"

section \<open>Checks\<close>

definition matchesCandidate :: "BoltStore \<Rightarrow> RescueCandidate \<Rightarrow> bool" where
  "matchesCandidate S candidate \<longleftrightarrow>
     cand_Network candidate = bs_network S \<and> cand_Source candidate = bs_source S"

definition validateInputCandidate :: "BoltStore \<Rightarrow> RescueCandidate \<Rightarrow> bool" where
  "validateInputCandidate S candidate \<longleftrightarrow> validateCandidate candidate \<and> matchesCandidate S candidate"

definition isUnfinished :: "CandidateStatus \<Rightarrow> bool" where
  "isUnfinished status \<longleftrightarrow>
     status = CandidateStaged \<or> status = CandidateReady \<or> status = CandidateDelayed"

definition candidateBlockIndexKey :: "RescueCandidate \<Rightarrow> bytes option" where
  "candidateBlockIndexKey candidate =
     (if cand_BlockHash candidate = 0 \<or> cand_Kind candidate = CandidateFastToken then None
      else
        let key = appendUint64 [] (cand_BlockNumber candidate);
            key = key @ id_bytes (cand_BlockHash candidate)
        in Some (key @ id_bytes (cand_ID candidate)))"

definition indexCandidateBlock ::
  "'b bolt \<Rightarrow> RescueCandidate \<Rightarrow> 'b store_db \<Rightarrow> store_error + 'b store_db" where
  "indexCandidateBlock B candidate db =
     (case candidateBlockIndexKey candidate of
        None \<Rightarrow> Inr db
      | Some key \<Rightarrow>
          bindE (putE B (blockIndexBucket db) key [recordVersion])
            (\<lambda>b. Inr (db\<lparr>blockIndexBucket := b\<rparr>)))"

definition candidateAlreadyScanned :: "'b bolt \<Rightarrow> BoltStore \<Rightarrow> RescueCandidate \<Rightarrow> 'b store_db \<Rightarrow> bool" where
  "candidateAlreadyScanned B S candidate db \<longleftrightarrow>
     cand_BlockHash candidate \<noteq> 0 \<and>
     (case bget B (metaBucket db) scanCursorKey of
        None \<Rightarrow> False
      | Some cursorData \<Rightarrow>
          case decodeCheckpoint cursorData of
            None \<Rightarrow> False
          | Some cursor \<Rightarrow>
              cp_Network cursor = bs_network S \<and> cand_BlockNumber candidate \<le> cp_BlockNumber cursor)"

definition rejectLateCandidate ::
  "'b bolt \<Rightarrow> BoltStore \<Rightarrow> RescueCandidate \<Rightarrow> 'b store_db \<Rightarrow> store_error + unit" where
  "rejectLateCandidate B S candidate db =
     (if cand_BlockHash candidate = 0 then Inr ()
      else case bget B (metaBucket db) scanCursorKey of
        None \<Rightarrow> Inr ()
      | Some cursorData \<Rightarrow>
          case decodeCheckpoint cursorData of
            None \<Rightarrow> Inl errCorrupt
          | Some cursor \<Rightarrow>
              if cp_Network cursor \<noteq> bs_network S then Inl errCorrupt
              else if cand_BlockNumber candidate \<le> cp_BlockNumber cursor then Inl errConflict
              else Inr ())"

section \<open>Counts\<close>

text \<open>The loops over a bucket with their callbacks; the counters are \<^verbatim>\<open>uint32\<close>.\<close>

definition countReady ::
  "'b bolt \<Rightarrow> BoltStore \<Rightarrow> 'b store_db \<Rightarrow> u32 \<Rightarrow> bytes \<times> bytes \<Rightarrow> store_error + u32" where
  "countReady B S db count entry =
     (if length (fst entry) \<noteq> 32 \<or> length (snd entry) \<noteq> 8 \<or>
         slice_of (bget B (readyOrderBucket db) (snd entry)) \<noteq> fst entry \<or> count = bs_maxPending S
      then Inl errCorrupt else Inr (count + 1))"

definition readyCount :: "'b bolt \<Rightarrow> BoltStore \<Rightarrow> 'b store_db \<Rightarrow> store_error + u32" where
  "readyCount B S db = foldE (countReady B S db) 0 (bentries B (pendingBucket db))"

definition countObserved :: "BoltStore \<Rightarrow> u32 \<Rightarrow> bytes \<times> bytes \<Rightarrow> store_error + u32" where
  "countObserved S count entry =
     (case decodeCandidateRecord (snd entry) of
        None \<Rightarrow> Inl errCorrupt
      | Some r \<Rightarrow>
          if cr_Status r = CandidateObserved
          then if count = bs_maxPending S then Inl ErrObservationSaturated else Inr (count + 1)
          else Inr count)"

definition statusCount :: "'b bolt \<Rightarrow> BoltStore \<Rightarrow> 'b store_db \<Rightarrow> store_error + u32" where
  "statusCount B S db = foldE (countObserved S) 0 (bentries B (candidatesBucket db))"

definition countUnfinished :: "BoltStore \<Rightarrow> u32 \<Rightarrow> bytes \<times> bytes \<Rightarrow> store_error + u32" where
  "countUnfinished S count entry =
     (case decodeCandidateRecord (snd entry) of
        None \<Rightarrow> Inl errCorrupt
      | Some r \<Rightarrow>
          if \<not> isUnfinished (cr_Status r) then Inr count
          else if count = bs_journalCapacity S then Inl errJournalFull
          else Inr (count + 1))"

definition journalCount :: "'b bolt \<Rightarrow> BoltStore \<Rightarrow> 'b store_db \<Rightarrow> store_error + u32" where
  "journalCount B S db = foldE (countUnfinished S) 0 (bentries B (candidatesBucket db))"

definition reserveJournal :: "'b bolt \<Rightarrow> BoltStore \<Rightarrow> u32 \<Rightarrow> 'b store_db \<Rightarrow> store_error + unit" where
  "reserveJournal B S additional db =
     bindE (journalCount B S db)
       (\<lambda>count. rejectE (ucast (bs_journalCapacity S) < (ucast count + ucast additional :: u64)) errJournalFull)"

definition countAdditional ::
  "'b bolt \<Rightarrow> BoltStore \<Rightarrow> 'b store_db \<Rightarrow> u32 \<Rightarrow> RescueCandidate \<Rightarrow> store_error + u32" where
  "countAdditional B S db additional candidate =
     (case bget B (candidatesBucket db) (id_bytes (cand_ID candidate)) of
        None \<Rightarrow> Inr (additional + 1)
      | Some data \<Rightarrow>
          case decodeCandidateRecord data of
            None \<Rightarrow> Inl errCorrupt
          | Some r \<Rightarrow>
              if \<not> matchesCandidate S (cr_Candidate r) \<or> \<not> sameCandidateIdentity (cr_Candidate r) candidate
              then Inl errCorrupt
              else if cr_Status r = CandidateObserved \<or> cr_Status r = CandidateRemoved
              then Inr (additional + 1) else Inr additional)"

definition additionalJournalEntries ::
  "'b bolt \<Rightarrow> BoltStore \<Rightarrow> RescueCandidate list \<Rightarrow> 'b store_db \<Rightarrow> store_error + u32" where
  "additionalJournalEntries B S candidates db = foldE (countAdditional B S db) 0 candidates"

section \<open>Promotion\<close>

type_synonym promotion = "bytes \<times> candidateRecord"

definition collectPromotion ::
  "'b bolt \<Rightarrow> time \<Rightarrow> CandidateStatus \<Rightarrow> 'b store_db \<Rightarrow> promotion list \<Rightarrow> bytes \<times> bytes \<Rightarrow>
     store_error + promotion list" where
  "collectPromotion B now status db items entry =
     (case decodeCandidateRecord (snd entry) of
        None \<Rightarrow> Inl errCorrupt
      | Some r \<Rightarrow>
          if cr_Status r \<noteq> status \<or> status = CandidateDelayed \<and> After (cr_RetryAt r) now then Inr items
          else if bget B (pendingBucket db) (fst entry) \<noteq> None then Inl errCorrupt
          else Inr (items @ [(fst entry, r)]))"

definition collectPromotions ::
  "'b bolt \<Rightarrow> time \<Rightarrow> CandidateStatus \<Rightarrow> 'b store_db \<Rightarrow> store_error + promotion list" where
  "collectPromotions B now status db =
     foldE (collectPromotion B now status db) [] (bentries B (candidatesBucket db))"

definition promotionTurn :: "'b bolt \<Rightarrow> 'b store_db \<Rightarrow> store_error + bool" where
  "promotionTurn B db =
     (case bget B (metaBucket db) promotionTurnKey of
        None \<Rightarrow> Inr False
      | Some value \<Rightarrow>
          if length value \<noteq> 2 \<or> value ! 0 \<noteq> recordVersion \<or> 1 < value ! 1 then Inl errCorrupt
          else Inr (value ! 1 = 1))"

text \<open>The two queues take turns for the free places.\<close>

fun takeTurns :: "nat \<Rightarrow> bool \<Rightarrow> 'p list \<Rightarrow> 'p list \<Rightarrow> 'p list \<times> bool" where
  "takeTurns 0 preferDelayed staged delayed = ([], preferDelayed)"
| "takeTurns (Suc n) preferDelayed staged delayed =
     (if staged = [] \<and> delayed = [] then ([], preferDelayed)
      else if preferDelayed \<and> delayed \<noteq> [] \<or> staged = []
      then apfst ((#) (hd delayed)) (takeTurns n (\<not> preferDelayed) staged (tl delayed))
      else apfst ((#) (hd staged)) (takeTurns n (\<not> preferDelayed) (tl staged) delayed))"

definition promoteOne :: "'b seq_bolt \<Rightarrow> 'b store_db \<Rightarrow> promotion \<Rightarrow> store_error + 'b store_db" where
  "promoteOne Q db item =
     bindE (optE errCorrupt (encodeCandidateRecord ((snd item)\<lparr>cr_Status := CandidateReady, cr_RetryAt := zeroTime\<rparr>)))
       (\<lambda>encoded. bindE (putE (bkv Q) (candidatesBucket db) (fst item) encoded)
       (\<lambda>candidates. bindE (optE errCorrupt (bnext Q (readyOrderBucket db)))
       (\<lambda>(sequence, readyOrder). bindE (rejectE (sequence = 0) errCorrupt)
       (\<lambda>_. bindE (rejectE (bget (bkv Q) readyOrder (encodeUint64 sequence) \<noteq> None) errCorrupt)
       (\<lambda>_. bindE (putE (bkv Q) readyOrder (encodeUint64 sequence) (fst item))
       (\<lambda>readyOrder. bindE (putE (bkv Q) (pendingBucket db) (fst item) (encodeUint64 sequence))
       (\<lambda>pending. Inr (db\<lparr>candidatesBucket := candidates, readyOrderBucket := readyOrder, pendingBucket := pending\<rparr>))))))))"

definition promoteCandidates ::
  "'b seq_bolt \<Rightarrow> BoltStore \<Rightarrow> time \<Rightarrow> 'b store_db \<Rightarrow> store_error + 'b store_db" where
  "promoteCandidates Q S now db =
     bindE (readyCount (bkv Q) S db)
       (\<lambda>ready. let available = bs_maxPending S - ready in
        if available = 0 then Inr db
        else bindE (collectPromotions (bkv Q) now CandidateStaged db)
       (\<lambda>staged. bindE (collectPromotions (bkv Q) now CandidateDelayed db)
       (\<lambda>delayed.
          if staged = [] \<and> delayed = [] then Inr db
          else bindE (promotionTurn (bkv Q) db)
       (\<lambda>preferDelayed. let (promotions, preferDelayed) = takeTurns (unat available) preferDelayed staged delayed in
          bindE (foldE (promoteOne Q) db promotions)
       (\<lambda>db. bindE (putE (bkv Q) (metaBucket db) promotionTurnKey [recordVersion, if preferDelayed then 1 else 0])
       (\<lambda>meta. Inr (db\<lparr>metaBucket := meta\<rparr>)))))))"

end
