(* ===== verification/Store_Chain.thy ===== *)
theory Store_Chain
  imports Store_Queue
begin

text \<open>
  What the queue and the canonical chain share (\<^verbatim>\<open>internal/store/bolt_canonical.go\<close>): when a
  block is complete, the checkpoint that follows the complete blocks, the trimming of old blocks
  with their candidates, and the tombstones that bound the acknowledged candidates.

  Two loops of the source walk a bucket with a cursor and delete what lies under it. The model
  walks the entries the bucket had when the loop started, which is what the walk visits, since
  nothing but the deletions changes the bucket meanwhile.
\<close>

section \<open>Keys and limits\<close>

definition baselineKey :: bytes where "baselineKey = ascii ''baseline''"
definition checkpointKey :: bytes where "checkpointKey = ascii ''checkpoint''"
definition discoveryOverflowKey :: bytes where "discoveryOverflowKey = ascii ''discovery-overflow''"

abbreviation tombstoneLimit :: nat where "tombstoneLimit \<equiv> 128"
abbreviation canonicalBlockLimit :: u64 where "canonicalBlockLimit \<equiv> 256"
abbreviation unconfirmedBlockLimit :: u64 where "unconfirmedBlockLimit \<equiv> 256"
abbreviation maxUint64 :: u64 where "maxUint64 \<equiv> 0xffffffffffffffff"

section \<open>Complete blocks\<close>

fun membersComplete ::
  "'b bolt \<Rightarrow> BoltStore \<Rightarrow> 'b store_db \<Rightarrow> Checkpoint \<Rightarrow> CandidateID list \<Rightarrow> store_error + bool" where
  "membersComplete B S db checkpoint [] = Inr True"
| "membersComplete B S db checkpoint (member # members) =
     (case bget B (candidatesBucket db) (id_bytes member) of
        None \<Rightarrow> Inl errCorrupt
      | Some data \<Rightarrow>
          case decodeCandidateRecord data of
            None \<Rightarrow> Inl errCorrupt
          | Some r \<Rightarrow>
              if cand_ID (cr_Candidate r) \<noteq> member \<or> \<not> matchesCandidate S (cr_Candidate r) \<or>
                 cand_BlockNumber (cr_Candidate r) \<noteq> cp_BlockNumber checkpoint \<or>
                 cand_BlockHash (cr_Candidate r) \<noteq> cp_BlockHash checkpoint
              then Inl errCorrupt
              else if cr_Status r = CandidateObserved \<or> cr_Status r = CandidateRemoved then Inl errCorrupt
              else if cr_Status r \<noteq> CandidateAcknowledged then Inr False
              else membersComplete B S db checkpoint members)"

definition blockComplete :: "'b bolt \<Rightarrow> BoltStore \<Rightarrow> 'b store_db \<Rightarrow> blockRecord \<Rightarrow> store_error + bool" where
  "blockComplete B S db block = membersComplete B S db (br_Checkpoint block) (br_Members block)"

section \<open>Tombstones\<close>

definition deleteAcknowledgedCandidate ::
  "'b bolt \<Rightarrow> BoltStore \<Rightarrow> CandidateID \<Rightarrow> 'b store_db \<Rightarrow> store_error + 'b store_db" where
  "deleteAcknowledgedCandidate B S cid db =
     bindE (optE errCorrupt (decodeCandidateRecord (slice_of (bget B (candidatesBucket db) (id_bytes cid)))))
       (\<lambda>r. bindE (rejectE (cr_Status r \<noteq> CandidateAcknowledged \<or> cand_ID (cr_Candidate r) \<noteq> cid) errCorrupt)
       (\<lambda>_. let forget = (\<lambda>db.
              bindE (delE B (incidentsBucket db) (id_bytes cid))
                (\<lambda>incidents. bindE (delE B (candidatesBucket db) (id_bytes cid))
                (\<lambda>candidates. Inr (db\<lparr>incidentsBucket := incidents, candidatesBucket := candidates\<rparr>)))) in
        case candidateBlockIndexKey (cr_Candidate r) of
          None \<Rightarrow> forget db
        | Some key \<Rightarrow>
            case bget B (blocksBucket db) (blockNumberKey (cand_BlockNumber (cr_Candidate r))) of
              Some blockData \<Rightarrow>
                bindE (optE errCorrupt (decodeBlock blockData (bs_journalCapacity S)))
                  (\<lambda>block. bindE (rejectE (cp_BlockHash (br_Checkpoint block) \<noteq> cand_BlockHash (cr_Candidate r)) errCorrupt)
                  (\<lambda>_. bindE (rejectE (cid \<notin> set (br_Members block)) errCorrupt)
                  (\<lambda>_. Inr db)))
            | None \<Rightarrow>
                bindE (delE B (blockIndexBucket db) key)
                  (\<lambda>index. forget (db\<lparr>blockIndexBucket := index\<rparr>))))"

text \<open>The oldest tombstones expire until the limit is met: once per tombstone too many.\<close>

fun expireTombstones :: "'b bolt \<Rightarrow> BoltStore \<Rightarrow> nat \<Rightarrow> 'b store_db \<Rightarrow> store_error + 'b store_db" where
  "expireTombstones B S 0 db = Inr db"
| "expireTombstones B S (Suc excess) db =
     (case bentries B (tombstonesBucket db) of
        [] \<Rightarrow> Inl errCorrupt
      | (key, value) # _ \<Rightarrow>
          bindE (rejectE (length key \<noteq> 8 \<or> length value \<noteq> 32) errCorrupt)
            (\<lambda>_. bindE (deleteAcknowledgedCandidate B S (bytes_word value) db)
            (\<lambda>db. bindE (delE B (tombstonesBucket db) key)
            (\<lambda>tombstones. expireTombstones B S excess (db\<lparr>tombstonesBucket := tombstones\<rparr>)))))"

definition addTombstone ::
  "'b seq_bolt \<Rightarrow> BoltStore \<Rightarrow> CandidateID \<Rightarrow> 'b store_db \<Rightarrow> store_error + 'b store_db" where
  "addTombstone Q S cid db =
     bindE (rejectE (bseq Q (tombstonesBucket db) = maxUint64) errCorrupt)
       (\<lambda>_. bindE (optE errCorrupt (bnext Q (tombstonesBucket db)))
       (\<lambda>(sequence, tombstones). bindE (rejectE (sequence = 0) errCorrupt)
       (\<lambda>_. bindE (rejectE (bget (bkv Q) tombstones (encodeUint64 sequence) \<noteq> None) errCorrupt)
       (\<lambda>_. bindE (putE (bkv Q) tombstones (encodeUint64 sequence) (id_bytes cid))
       (\<lambda>tombstones.
          expireTombstones (bkv Q) S (length (bentries (bkv Q) tombstones) - tombstoneLimit)
            (db\<lparr>tombstonesBucket := tombstones\<rparr>))))))"

definition removeTombstone ::
  "'b bolt \<Rightarrow> CandidateID \<Rightarrow> 'b \<Rightarrow> bytes \<times> bytes \<Rightarrow> store_error + 'b" where
  "removeTombstone B cid bucket entry =
     (if length (fst entry) \<noteq> 8 \<or> length (snd entry) \<noteq> 32 then Inl errCorrupt
      else if snd entry = id_bytes cid then delE B bucket (fst entry)
      else Inr bucket)"

definition removeCandidateTombstones ::
  "'b bolt \<Rightarrow> CandidateID \<Rightarrow> 'b store_db \<Rightarrow> store_error + 'b store_db" where
  "removeCandidateTombstones B cid db =
     bindE (foldE (removeTombstone B cid) (tombstonesBucket db) (bentries B (tombstonesBucket db)))
       (\<lambda>tombstones. Inr (db\<lparr>tombstonesBucket := tombstones\<rparr>))"

section \<open>Trimming\<close>

text \<open>\<^verbatim>\<open>Delete\<close> of the \<^verbatim>\<open>nil\<close> key, which no bucket holds, deletes nothing.\<close>

definition deleteCompleted ::
  "'b bolt \<Rightarrow> 'b store_db \<Rightarrow> CandidateID \<Rightarrow> store_error + 'b store_db" where
  "deleteCompleted B db cid =
     bindE (optE errCorrupt (decodeCandidateRecord (slice_of (bget B (candidatesBucket db) (id_bytes cid)))))
       (\<lambda>r. bindE (rejectE (cand_ID (cr_Candidate r) \<noteq> cid \<or> cr_Status r \<noteq> CandidateAcknowledged) errCorrupt)
       (\<lambda>_. bindE (delE B (blockIndexBucket db) (slice_of (candidateBlockIndexKey (cr_Candidate r))))
       (\<lambda>index. bindE (delE B (incidentsBucket db) (id_bytes cid))
       (\<lambda>incidents. bindE (delE B (candidatesBucket db) (id_bytes cid))
       (\<lambda>candidates. removeCandidateTombstones B cid
          (db\<lparr>blockIndexBucket := index, incidentsBucket := incidents, candidatesBucket := candidates\<rparr>))))))"

definition deleteCompletedBlockCandidates ::
  "'b bolt \<Rightarrow> blockRecord \<Rightarrow> 'b store_db \<Rightarrow> store_error + 'b store_db" where
  "deleteCompletedBlockCandidates B block db = foldE (deleteCompleted B) db (br_Members block)"

definition trimBlock :: "'b bolt \<Rightarrow> BoltStore \<Rightarrow> u64 \<Rightarrow> 'b store_db \<Rightarrow> store_error + 'b store_db" where
  "trimBlock B S number db =
     bindE (optE errCorrupt (decodeBlock (slice_of (bget B (blocksBucket db) (blockNumberKey number))) (bs_journalCapacity S)))
       (\<lambda>block. bindE (rejectE (cp_BlockNumber (br_Checkpoint block) \<noteq> number \<or>
            cp_Network (br_Checkpoint block) \<noteq> bs_network S) errCorrupt)
       (\<lambda>_. bindE (rejectE (blockComplete B S db block \<noteq> Inr True) errCorrupt)
       (\<lambda>_. bindE (deleteCompletedBlockCandidates B block db)
       (\<lambda>db. bindE (delE B (blocksBucket db) (blockNumberKey number))
       (\<lambda>blocks. Inr (db\<lparr>blocksBucket := blocks\<rparr>))))))"

function trimBlocks :: "'b bolt \<Rightarrow> BoltStore \<Rightarrow> u64 \<Rightarrow> u64 \<Rightarrow> 'b store_db \<Rightarrow> store_error + 'b store_db" where
  "trimBlocks B S number retainedFrom db =
     (if number < retainedFrom
      then bindE (trimBlock B S number db) (\<lambda>db. trimBlocks B S (number + 1) retainedFrom db)
      else Inr db)"
  by pat_completeness auto

definition trimCanonicalBlocks ::
  "'b bolt \<Rightarrow> BoltStore \<Rightarrow> u64 \<Rightarrow> 'b store_db \<Rightarrow> store_error + 'b store_db" where
  "trimCanonicalBlocks B S checkpoint db =
     bindE (optE errCorrupt (decodeUint64 (slice_of (bget B (metaBucket db) baselineKey))))
       (\<lambda>baseline. bindE (rejectE (checkpoint < baseline) errCorrupt)
       (\<lambda>_. if checkpoint - baseline + 1 \<le> canonicalBlockLimit then Inr db
          else
            let retainedFrom = checkpoint - canonicalBlockLimit + 1 in
            bindE (trimBlocks B S baseline retainedFrom db)
       (\<lambda>db. bindE (putE B (metaBucket db) baselineKey (encodeUint64 retainedFrom))
       (\<lambda>meta. Inr (db\<lparr>metaBucket := meta\<rparr>)))))"

section \<open>The checkpoint\<close>

text \<open>One round of the loop: \<open>None\<close> when it ends, otherwise the database after this block.\<close>

definition advanceOnce ::
  "'b bolt \<Rightarrow> BoltStore \<Rightarrow> u64 \<Rightarrow> 'b store_db \<Rightarrow> store_error + 'b store_db option" where
  "advanceOnce B S next db =
     (case bget B (blocksBucket db) (blockNumberKey next) of
        None \<Rightarrow> Inr None
      | Some data \<Rightarrow>
          bindE (optE errCorrupt (decodeBlock data (bs_journalCapacity S)))
            (\<lambda>block. bindE (rejectE (cp_Network (br_Checkpoint block) \<noteq> bs_network S \<or>
                 cp_BlockNumber (br_Checkpoint block) \<noteq> next) errCorrupt)
            (\<lambda>_. bindE (blockComplete B S db block)
            (\<lambda>complete. if \<not> complete then Inr None
               else bindE (optE errCorrupt (encodeCheckpoint (br_Checkpoint block)))
            (\<lambda>checkpointData. bindE (putE B (metaBucket db) checkpointKey checkpointData)
            (\<lambda>meta. bindE (trimCanonicalBlocks B S next (db\<lparr>metaBucket := meta\<rparr>))
            (\<lambda>db. Inr (Some db))))))))"

function advanceFrom :: "'b bolt \<Rightarrow> BoltStore \<Rightarrow> u64 \<Rightarrow> 'b store_db \<Rightarrow> store_error + 'b store_db" where
  "advanceFrom B S next db =
     (case advanceOnce B S next db of
        Inl e \<Rightarrow> Inl e
      | Inr None \<Rightarrow> Inr db
      | Inr (Some db') \<Rightarrow> if next = maxUint64 then Inr db' else advanceFrom B S (next + 1) db')"
  by pat_completeness auto

definition advanceCheckpoint :: "'b bolt \<Rightarrow> BoltStore \<Rightarrow> 'b store_db \<Rightarrow> store_error + 'b store_db" where
  "advanceCheckpoint B S db =
     (case bget B (metaBucket db) baselineKey of
        None \<Rightarrow> Inr db
      | Some baselineData \<Rightarrow>
          bindE (optE errCorrupt (decodeUint64 baselineData))
            (\<lambda>baseline.
               case bget B (metaBucket db) checkpointKey of
                 None \<Rightarrow> advanceFrom B S baseline db
               | Some checkpointData \<Rightarrow>
                   bindE (optE errCorrupt (decodeCheckpoint checkpointData))
                     (\<lambda>checkpoint. bindE (rejectE (cp_Network checkpoint \<noteq> bs_network S \<or>
                          cp_BlockNumber checkpoint = maxUint64) errCorrupt)
                     (\<lambda>_. advanceFrom B S (cp_BlockNumber checkpoint + 1) db))))"

section \<open>Termination\<close>

lemma unat_u64: "unat (n :: u64) < 2 ^ 64"
  using unsigned_less [of n] by simp

lemma unat_succ:
  assumes "n \<noteq> (maxUint64 :: u64)"
  shows "unat (n + 1) = unat n + 1"
proof -
  have "unat n \<noteq> unat (maxUint64 :: u64)" using assms by (metis word_unat_eq_iff)
  then have "unat n < 2 ^ 64 - 1" using unat_u64 [of n] by simp
  then show ?thesis by (simp add: unat_word_ariths)
qed

lemma unat_succ_less: "n < m \<Longrightarrow> unat (n + 1) = unat (n :: u64) + 1"
  using unat_u64 [of m] by (intro unat_succ) (auto simp: word_less_nat_alt)

termination trimBlocks
  by (relation "measure (\<lambda>(B, S, number, retainedFrom, db). unat retainedFrom - unat number)")
    (auto simp: unat_succ_less word_less_nat_alt)

termination advanceFrom
proof (relation "measure (\<lambda>(B, S, next, db). 2 ^ 64 - unat next)")
  fix B :: "'b bolt" and S :: BoltStore and "next" :: u64 and db db' :: "'b store_db" and r
  assume "next \<noteq> maxUint64"
  then show "((B, S, next + 1, db'), (B, S, next, db)) \<in> measure (\<lambda>(B, S, next, db). 2 ^ 64 - unat next)"
    using unat_u64 [of "next"] by (simp add: unat_succ)
qed simp

declare trimBlocks.simps [simp del] and advanceFrom.simps [simp del]

end
