(* ===== verification/Store_Candidates.thy ===== *)
theory Store_Candidates
  imports Store_Chain
begin

text \<open>
  The durable queue of candidates (\<^verbatim>\<open>internal/store/bolt_candidates.go\<close>), second part: the
  operations. A candidate is observed, staged, ready, possibly delayed, and acknowledged; or it is
  removed while it is only observed.

  \<open>Put\<close>, \<open>Next\<close> and the commit of a block may have to wait. One pass through the body of such a
  loop is a \<open>round\<close>; what happens around the rounds is given by the list of \<open>turns\<close>: the
  environment of the round, what other calls do while the call waits, and how the waiting ends.
\<close>

section \<open>Waiting\<close>

datatype 'r round = Answer "store_error + 'r" | Await int

record 'b turn =
  tn_env :: store_env
  tn_others :: "'b store_state \<Rightarrow> 'b store_state"
  tn_failed :: "store_error option"

text \<open>\<open>None\<close> means that the call is still waiting when the turns are used up.\<close>

fun await_loop ::
  "(store_env \<Rightarrow> 'b store_state \<Rightarrow> 'r round \<times> 'b store_state) \<Rightarrow> 'b turn list \<Rightarrow> 'b store_state \<Rightarrow>
     (store_error + 'r) option \<times> 'b store_state" where
  "await_loop body [] st = (None, st)"
| "await_loop body (t # ts) st =
     (case body (tn_env t) st of
        (Answer r, st') \<Rightarrow> (Some r, st')
      | (Await duration, st') \<Rightarrow>
          case tn_failed t of
            Some e \<Rightarrow> (Some (Inl e), tn_others t st')
          | None \<Rightarrow> await_loop body ts (tn_others t st'))"

definition notify_if :: "bool \<Rightarrow> 'b store_state \<Rightarrow> 'b store_state" where
  "notify_if changed st = (if changed then notify st else st)"

section \<open>Put\<close>

text \<open>The record found under the candidate's identifier, if there is one.\<close>

definition stored_same ::
  "BoltStore \<Rightarrow> RescueCandidate \<Rightarrow> bytes \<Rightarrow> store_error + candidateRecord" where
  "stored_same S candidate persisted =
     (case decodeCandidateRecord persisted of
        None \<Rightarrow> Inl errCorrupt
      | Some r \<Rightarrow>
          if \<not> sameCandidateIdentity (cr_Candidate r) candidate \<or> \<not> matchesCandidate S (cr_Candidate r)
          then Inl errCorrupt else Inr r)"

text \<open>The results of the callbacks are the value returned and whether to notify.\<close>

definition put_existing ::
  "'b seq_bolt \<Rightarrow> BoltStore \<Rightarrow> time \<Rightarrow> RescueCandidate \<Rightarrow> bytes \<Rightarrow> 'b store_db \<Rightarrow>
     store_error + (PutResult \<times> bool) \<times> 'b store_db" where
  "put_existing Q S now candidate persisted db =
     bindE (stored_same S candidate persisted)
       (\<lambda>r. if cr_Status r = CandidateAcknowledged then Inr ((PutAlreadyAcknowledged, False), db)
          else if cr_Status r \<noteq> CandidateObserved \<and> cr_Status r \<noteq> CandidateRemoved
          then Inr ((PutAlreadyPending, False), db)
          else bindE (reserveJournal (bkv Q) S 1 db)
       (\<lambda>_. bindE (optE errCorrupt (encodeCandidateRecord
              (r\<lparr>cr_Status := CandidateStaged, cr_Candidate := updateCandidateMetadata (cr_Candidate r) candidate\<rparr>)))
       (\<lambda>encoded. bindE (putE (bkv Q) (candidatesBucket db) (id_bytes (cand_ID candidate)) encoded)
       (\<lambda>b. bindE (promoteCandidates Q S now (db\<lparr>candidatesBucket := b\<rparr>))
       (\<lambda>db. Inr ((PutAlreadyPending, True), db))))))"

text \<open>A candidate that is not stored yet is written with its block index entry.\<close>

definition insertCandidate ::
  "'b bolt \<Rightarrow> CandidateStatus \<Rightarrow> RescueCandidate \<Rightarrow> 'b store_db \<Rightarrow> store_error + 'b store_db" where
  "insertCandidate B status candidate db =
     bindE (optE errInvalidInput (encodeCandidateRecord
         \<lparr>cr_Status = status, cr_RetryAt = zeroTime, cr_Candidate = candidate\<rparr>))
       (\<lambda>encoded. bindE (putE B (candidatesBucket db) (id_bytes (cand_ID candidate)) encoded)
       (\<lambda>b. indexCandidateBlock B candidate (db\<lparr>candidatesBucket := b\<rparr>)))"

definition put_tx ::
  "'b seq_bolt \<Rightarrow> BoltStore \<Rightarrow> time \<Rightarrow> RescueCandidate \<Rightarrow> 'b store_db \<Rightarrow>
     store_error + (PutResult \<times> bool) \<times> 'b store_db" where
  "put_tx Q S now candidate db =
     (case bget (bkv Q) (candidatesBucket db) (id_bytes (cand_ID candidate)) of
        Some persisted \<Rightarrow> put_existing Q S now candidate persisted db
      | None \<Rightarrow>
          if candidateAlreadyScanned (bkv Q) S candidate db then Inr ((PutAlreadyAcknowledged, False), db)
          else bindE (rejectLateCandidate (bkv Q) S candidate db)
            (\<lambda>_. bindE (reserveJournal (bkv Q) S 1 db)
            (\<lambda>_. bindE (insertCandidate (bkv Q) CandidateStaged candidate db)
            (\<lambda>db. bindE (promoteCandidates Q S now db)
            (\<lambda>db. Inr ((PutInserted, True), db))))))"

definition put_round ::
  "'b seq_bolt \<Rightarrow> BoltStore \<Rightarrow> RescueCandidate \<Rightarrow> store_env \<Rightarrow> 'b store_state \<Rightarrow>
     PutResult round \<times> 'b store_state" where
  "put_round Q S candidate env st =
     (let (out, db') = store_update env (put_tx Q S (se_now env) candidate) (st_db st);
          st' = st\<lparr>st_db := db'\<rparr>
      in case out of
           Inl errJournalFull \<Rightarrow> (Await 0, st')
         | Inl e \<Rightarrow> (Answer (Inl (store_publicError e)), st')
         | Inr (result, changed) \<Rightarrow> (Answer (Inr result), notify_if changed st'))"

definition Put ::
  "'b seq_bolt \<Rightarrow> BoltStore \<Rightarrow> store_env \<Rightarrow> 'b turn list \<Rightarrow> RescueCandidate \<Rightarrow> 'b store_state \<Rightarrow>
     (store_error + PutResult) option \<times> 'b store_state" where
  "Put Q S env turns candidate st =
     (if \<not> validateInputCandidate S candidate then (Some (Inl errInvalidInput), st)
      else case store_begin env st of
        Some e \<Rightarrow> (Some (Inl e), st)
      | None \<Rightarrow> await_loop (put_round Q S candidate) turns st)"

section \<open>Observations\<close>

definition put_observed_tx ::
  "'b bolt \<Rightarrow> BoltStore \<Rightarrow> RescueCandidate \<Rightarrow> 'b store_db \<Rightarrow>
     store_error + (PutResult \<times> bool) \<times> 'b store_db" where
  "put_observed_tx B S candidate db =
     (case bget B (candidatesBucket db) (id_bytes (cand_ID candidate)) of
        Some persisted \<Rightarrow>
          bindE (stored_same S candidate persisted)
            (\<lambda>r. Inr ((if cr_Status r = CandidateAcknowledged then PutAlreadyAcknowledged else PutAlreadyPending, False), db))
      | None \<Rightarrow>
          if candidateAlreadyScanned B S candidate db then Inr ((PutAlreadyAcknowledged, False), db)
          else bindE (rejectLateCandidate B S candidate db)
            (\<lambda>_. bindE (statusCount B S db)
            (\<lambda>count. bindE (rejectE (bs_maxPending S \<le> count) ErrObservationSaturated)
            (\<lambda>_. bindE (insertCandidate B CandidateObserved candidate db)
            (\<lambda>db. Inr ((PutInserted, True), db))))))"

definition PutObserved ::
  "'b bolt \<Rightarrow> BoltStore \<Rightarrow> store_env \<Rightarrow> RescueCandidate \<Rightarrow> 'b store_state \<Rightarrow>
     (store_error + PutResult) \<times> 'b store_state" where
  "PutObserved B S env candidate st =
     (if \<not> validateInputCandidate S candidate then (Inl errInvalidInput, st)
      else case store_begin env st of
        Some e \<Rightarrow> (Inl e, st)
      | None \<Rightarrow>
          (let (out, db') = store_update env (put_observed_tx B S candidate) (st_db st)
           in case public_result out of
                Inl e \<Rightarrow> (Inl e, st\<lparr>st_db := db'\<rparr>)
              | Inr (result, changed) \<Rightarrow> (Inr result, notify_if changed (st\<lparr>st_db := db'\<rparr>))))"

text \<open>The record of a candidate named by its identifier.\<close>

definition stored_candidate ::
  "BoltStore \<Rightarrow> CandidateID \<Rightarrow> bytes \<Rightarrow> store_error + candidateRecord" where
  "stored_candidate S cid data =
     (case decodeCandidateRecord data of
        None \<Rightarrow> Inl errCorrupt
      | Some r \<Rightarrow>
          if cand_ID (cr_Candidate r) \<noteq> cid \<or> \<not> matchesCandidate S (cr_Candidate r)
          then Inl errCorrupt else Inr r)"

definition deleteObserved ::
  "'b bolt \<Rightarrow> BoltStore \<Rightarrow> candidateRecord \<Rightarrow> CandidateID \<Rightarrow> 'b store_db \<Rightarrow> store_error + 'b store_db" where
  "deleteObserved B S r cid db =
     bindE (delE B (candidatesBucket db) (id_bytes cid))
       (\<lambda>candidates. bindE
          (case candidateBlockIndexKey (cr_Candidate r) of
             None \<Rightarrow> Inr (blockIndexBucket db)
           | Some key \<Rightarrow> delE B (blockIndexBucket db) key)
       (\<lambda>index. bindE (delE B (pendingBucket db) (id_bytes cid))
       (\<lambda>pending. advanceCheckpoint B S
          (db\<lparr>candidatesBucket := candidates, blockIndexBucket := index, pendingBucket := pending\<rparr>))))"

definition mark_removed_tx ::
  "'b bolt \<Rightarrow> BoltStore \<Rightarrow> CandidateID \<Rightarrow> 'b store_db \<Rightarrow> store_error + bool \<times> 'b store_db" where
  "mark_removed_tx B S cid db =
     (case bget B (candidatesBucket db) (id_bytes cid) of
        None \<Rightarrow> Inl errConflict
      | Some data \<Rightarrow>
          bindE (stored_candidate S cid data)
            (\<lambda>r. if cr_Status r = CandidateRemoved then Inr (False, db)
               else if cr_Status r = CandidateObserved
               then bindE (deleteObserved B S r cid db) (\<lambda>db. Inr (True, db))
               else if cr_Status r \<in> {CandidateStaged, CandidateReady, CandidateDelayed, CandidateAcknowledged}
               then Inl errConflict
               else Inl errCorrupt))"

text \<open>A transaction that reports whether it changed something.\<close>

definition changing_call ::
  "store_env \<Rightarrow> ('b store_db \<Rightarrow> store_error + bool \<times> 'b store_db) \<Rightarrow> 'b store_state \<Rightarrow>
     (store_error + unit) \<times> 'b store_state" where
  "changing_call env body st =
     (case store_begin env st of
        Some e \<Rightarrow> (Inl e, st)
      | None \<Rightarrow>
          (let (out, db') = store_update env body (st_db st)
           in case public_result out of
                Inl e \<Rightarrow> (Inl e, st\<lparr>st_db := db'\<rparr>)
              | Inr changed \<Rightarrow> (Inr (), notify_if changed (st\<lparr>st_db := db'\<rparr>))))"

definition MarkRemoved ::
  "'b bolt \<Rightarrow> BoltStore \<Rightarrow> store_env \<Rightarrow> CandidateID \<Rightarrow> 'b store_state \<Rightarrow>
     (store_error + unit) \<times> 'b store_state" where
  "MarkRemoved B S env cid st = changing_call env (mark_removed_tx B S cid) st"

section \<open>Reading the queue\<close>

definition replayEntry ::
  "BoltStore \<Rightarrow> RescueCandidate list \<Rightarrow> bytes \<times> bytes \<Rightarrow> store_error + RescueCandidate list" where
  "replayEntry S result entry =
     (case decodeCandidateRecord (snd entry) of
        None \<Rightarrow> Inl errCorrupt
      | Some r \<Rightarrow>
          if fst entry \<noteq> id_bytes (cand_ID (cr_Candidate r)) \<or> \<not> matchesCandidate S (cr_Candidate r)
          then Inl errCorrupt
          else Inr (if isUnfinished (cr_Status r) then result @ [cr_Candidate r] else result))"

definition Replay ::
  "'b bolt \<Rightarrow> BoltStore \<Rightarrow> store_env \<Rightarrow> NetworkID \<Rightarrow> 'b store_state \<Rightarrow> store_error + RescueCandidate list" where
  "Replay B S env network st =
     (if network \<noteq> bs_network S then Inl errInvalidInput
      else case store_begin env st of
        Some e \<Rightarrow> Inl e
      | None \<Rightarrow>
          public_result (store_view env
            (\<lambda>db. foldE (replayEntry S) [] (bentries B (candidatesBucket db))) (st_db st)))"

definition nextReady ::
  "'b bolt \<Rightarrow> BoltStore \<Rightarrow> 'b store_db \<Rightarrow> RescueCandidate option \<Rightarrow> bytes \<times> bytes \<Rightarrow>
     store_error + RescueCandidate option" where
  "nextReady B S db found entry =
     (if length (fst entry) \<noteq> 8 \<or> length (snd entry) \<noteq> 32 \<or>
         slice_of (bget B (pendingBucket db) (snd entry)) \<noteq> fst entry then Inl errCorrupt
      else case decodeCandidateRecord (slice_of (bget B (candidatesBucket db) (snd entry))) of
        None \<Rightarrow> Inl errCorrupt
      | Some r \<Rightarrow>
          if snd entry \<noteq> id_bytes (cand_ID (cr_Candidate r)) \<or> \<not> matchesCandidate S (cr_Candidate r) \<or>
             cr_Status r \<noteq> CandidateReady then Inl errCorrupt
          else Inr (if found = None then Some (cr_Candidate r) else found))"

definition earliestRetry :: "time \<Rightarrow> time \<Rightarrow> bytes \<times> bytes \<Rightarrow> store_error + time" where
  "earliestRetry now nextRetry entry =
     (case decodeCandidateRecord (snd entry) of
        None \<Rightarrow> Inl errCorrupt
      | Some r \<Rightarrow>
          if cr_Status r = CandidateDelayed \<and> After (cr_RetryAt r) now \<and>
             (IsZero nextRetry \<or> Before (cr_RetryAt r) nextRetry)
          then Inr (cr_RetryAt r) else Inr nextRetry)"

definition next_tx ::
  "'b seq_bolt \<Rightarrow> BoltStore \<Rightarrow> time \<Rightarrow> 'b store_db \<Rightarrow>
     store_error + (RescueCandidate option \<times> time \<times> bool) \<times> 'b store_db" where
  "next_tx Q S now db =
     bindE (readyCount (bkv Q) S db)
       (\<lambda>before. bindE (promoteCandidates Q S now db)
       (\<lambda>db. bindE (readyCount (bkv Q) S db)
       (\<lambda>after. bindE (foldE (nextReady (bkv Q) S db) None (bentries (bkv Q) (readyOrderBucket db)))
       (\<lambda>found. bindE (foldE (earliestRetry now) zeroTime (bentries (bkv Q) (candidatesBucket db)))
       (\<lambda>nextRetry. Inr ((found, nextRetry, before < after), db))))))"

abbreviation maxDelayedWaitSlice :: int where "maxDelayedWaitSlice \<equiv> second"

definition next_round ::
  "'b seq_bolt \<Rightarrow> BoltStore \<Rightarrow> store_env \<Rightarrow> 'b store_state \<Rightarrow> RescueCandidate round \<times> 'b store_state" where
  "next_round Q S env st =
     (let now = se_now env; (out, db') = store_update env (next_tx Q S now) (st_db st); st' = st\<lparr>st_db := db'\<rparr>
      in case out of
           Inl e \<Rightarrow> (Answer (Inl (store_publicError e)), st')
         | Inr (Some candidate, nextRetry, promoted) \<Rightarrow> (Answer (Inr candidate), notify_if promoted st')
         | Inr (None, nextRetry, promoted) \<Rightarrow>
             (Await (if IsZero nextRetry then 0
                     else if maxDelayedWaitSlice < time_Sub nextRetry now then maxDelayedWaitSlice
                     else time_Sub nextRetry now),
              notify_if promoted st'))"

definition Next ::
  "'b seq_bolt \<Rightarrow> BoltStore \<Rightarrow> store_env \<Rightarrow> 'b turn list \<Rightarrow> NetworkID \<Rightarrow> 'b store_state \<Rightarrow>
     (store_error + RescueCandidate) option \<times> 'b store_state" where
  "Next Q S env turns network st =
     (if network \<noteq> bs_network S then (Some (Inl errInvalidInput), st)
      else case store_begin env st of
        Some e \<Rightarrow> (Some (Inl e), st)
      | None \<Rightarrow> await_loop (next_round Q S) turns st)"

section \<open>Incidents\<close>

definition put_inc_tx ::
  "'b bolt \<Rightarrow> BoltStore \<Rightarrow> Incident \<Rightarrow> bytes \<Rightarrow> 'b store_db \<Rightarrow> store_error + unit \<times> 'b store_db" where
  "put_inc_tx B S incident encoded db =
     (case bget B (candidatesBucket db) (id_bytes (inc_Candidate incident)) of
        None \<Rightarrow> Inl errConflict
      | Some candidateData \<Rightarrow>
          bindE (stored_candidate S (inc_Candidate incident) candidateData)
            (\<lambda>r. bindE (rejectE (cr_Status r \<noteq> CandidateReady \<and> cr_Status r \<noteq> CandidateDelayed \<and>
                 cr_Status r \<noteq> CandidateAcknowledged) errConflict)
            (\<lambda>_. case bget B (incidentsBucket db) (id_bytes (inc_Candidate incident)) of
               None \<Rightarrow>
                 bindE (putE B (incidentsBucket db) (id_bytes (inc_Candidate incident)) encoded)
                   (\<lambda>b. Inr ((), db\<lparr>incidentsBucket := b\<rparr>))
             | Some persisted \<Rightarrow>
                 bindE (optE errCorrupt (decodeIncident persisted))
                   (\<lambda>stored. bindE (rejectE (inc_Candidate stored \<noteq> inc_Candidate incident \<or>
                        inc_Network stored \<noteq> bs_network S) errCorrupt)
                   (\<lambda>_. bindE (rejectE (inc_ID stored \<noteq> inc_ID incident) errConflict)
                   (\<lambda>_. Inr ((), db)))))))"

definition PutIncident ::
  "'b bolt \<Rightarrow> BoltStore \<Rightarrow> store_env \<Rightarrow> Incident \<Rightarrow> 'b store_state \<Rightarrow> (store_error + unit) \<times> 'b store_state" where
  "PutIncident B S env incident st =
     (case encodeIncident incident of
        None \<Rightarrow> (Inl errInvalidInput, st)
      | Some encoded \<Rightarrow>
          if inc_Network incident \<noteq> bs_network S then (Inl errInvalidInput, st)
          else case store_begin env st of
            Some e \<Rightarrow> (Inl e, st)
          | None \<Rightarrow>
              (let (out, db') = store_update env (put_inc_tx B S incident encoded) (st_db st)
               in (public_result out, st\<lparr>st_db := db'\<rparr>)))"

definition stored_incident :: "BoltStore \<Rightarrow> CandidateID \<Rightarrow> bytes \<Rightarrow> store_error + Incident" where
  "stored_incident S cid data =
     (case decodeIncident data of
        None \<Rightarrow> Inl errCorrupt
      | Some incident \<Rightarrow>
          if inc_Candidate incident \<noteq> cid \<or> inc_Network incident \<noteq> bs_network S then Inl errCorrupt
          else Inr incident)"

definition IncidentByCandidate ::
  "'b bolt \<Rightarrow> BoltStore \<Rightarrow> store_env \<Rightarrow> CandidateID \<Rightarrow> 'b store_state \<Rightarrow> store_error + Incident option" where
  "IncidentByCandidate B S env cid st =
     (case store_begin env st of
        Some e \<Rightarrow> Inl e
      | None \<Rightarrow>
          public_result (store_view env
            (\<lambda>db. case bget B (incidentsBucket db) (id_bytes cid) of
                    None \<Rightarrow> Inr None
                  | Some data \<Rightarrow> bindE (stored_incident S cid data) (\<lambda>incident. Inr (Some incident))) (st_db st)))"

section \<open>Resolution\<close>

text \<open>The candidate leaves the ready queue with a new status.\<close>

definition leaveReady ::
  "'b bolt \<Rightarrow> candidateRecord \<Rightarrow> CandidateID \<Rightarrow> 'b store_db \<Rightarrow> store_error + 'b store_db" where
  "leaveReady B r cid db =
     bindE (optE errInvalidInput (encodeCandidateRecord r))
       (\<lambda>encoded. bindE (putE B (candidatesBucket db) (id_bytes cid) encoded)
       (\<lambda>candidates. let orderKey = slice_of (bget B (pendingBucket db) (id_bytes cid)) in
        bindE (rejectE (length orderKey \<noteq> 8 \<or> slice_of (bget B (readyOrderBucket db) orderKey) \<noteq> id_bytes cid) errCorrupt)
       (\<lambda>_. bindE (delE B (readyOrderBucket db) orderKey)
       (\<lambda>readyOrder. bindE (delE B (pendingBucket db) (id_bytes cid))
       (\<lambda>pending. Inr (db\<lparr>candidatesBucket := candidates, readyOrderBucket := readyOrder, pendingBucket := pending\<rparr>))))))"

definition resolve_ready ::
  "'b seq_bolt \<Rightarrow> BoltStore \<Rightarrow> time \<Rightarrow> candidateRecord \<Rightarrow> CandidateID \<Rightarrow> CandidateStatus \<Rightarrow> time \<Rightarrow> 'b store_db \<Rightarrow>
     store_error + bool \<times> 'b store_db" where
  "resolve_ready Q S now r cid status retryAt db =
     bindE (leaveReady (bkv Q) (r\<lparr>cr_Status := status, cr_RetryAt := retryAt\<rparr>) cid db)
       (\<lambda>db. bindE (if status = CandidateAcknowledged
                    then bindE (addTombstone Q S cid db) (advanceCheckpoint (bkv Q) S)
                    else Inr db)
       (\<lambda>db. bindE (promoteCandidates Q S now db)
       (\<lambda>db. Inr (True, db))))"

definition resolve_tx ::
  "'b seq_bolt \<Rightarrow> BoltStore \<Rightarrow> time \<Rightarrow> CandidateID \<Rightarrow> IncidentID \<Rightarrow> CandidateStatus \<Rightarrow> time \<Rightarrow> 'b store_db \<Rightarrow>
     store_error + bool \<times> 'b store_db" where
  "resolve_tx Q S now cid incidentID status retryAt db =
     (case bget (bkv Q) (incidentsBucket db) (id_bytes cid) of
        None \<Rightarrow> Inl errConflict
      | Some incidentData \<Rightarrow>
          bindE (stored_incident S cid incidentData)
            (\<lambda>incident. bindE (rejectE (inc_ID incident \<noteq> incidentID) errConflict)
            (\<lambda>_. case bget (bkv Q) (candidatesBucket db) (id_bytes cid) of
               None \<Rightarrow> Inl errCorrupt
             | Some data \<Rightarrow>
                 bindE (stored_candidate S cid data)
                   (\<lambda>r. if cr_Status r = CandidateAcknowledged
                      then if status = CandidateAcknowledged then Inr (False, db) else Inl errConflict
                      else if cr_Status r \<noteq> CandidateReady then Inl errConflict
                      else resolve_ready Q S now r cid status retryAt db))))"

definition resolve ::
  "'b seq_bolt \<Rightarrow> BoltStore \<Rightarrow> store_env \<Rightarrow> CandidateID \<Rightarrow> IncidentID \<Rightarrow> CandidateStatus \<Rightarrow> time \<Rightarrow> 'b store_state \<Rightarrow>
     (store_error + unit) \<times> 'b store_state" where
  "resolve Q S env cid incidentID status retryAt st =
     changing_call env (resolve_tx Q S (se_now env) cid incidentID status retryAt) st"

definition Nack ::
  "'b seq_bolt \<Rightarrow> BoltStore \<Rightarrow> store_env \<Rightarrow> CandidateID \<Rightarrow> IncidentID \<Rightarrow> time \<Rightarrow> 'b store_state \<Rightarrow>
     (store_error + unit) \<times> 'b store_state" where
  "Nack Q S env cid incidentID retryAt st =
     (if IsZero retryAt then (Inl errInvalidInput, st)
      else resolve Q S env cid incidentID CandidateDelayed retryAt st)"

definition Ack ::
  "'b seq_bolt \<Rightarrow> BoltStore \<Rightarrow> store_env \<Rightarrow> CandidateID \<Rightarrow> IncidentID \<Rightarrow> 'b store_state \<Rightarrow>
     (store_error + unit) \<times> 'b store_state" where
  "Ack Q S env cid incidentID st = resolve Q S env cid incidentID CandidateAcknowledged zeroTime st"

end
