(* ===== verification/Store_Canonical.thy ===== *)
theory Store_Canonical
  imports Store_Candidates
begin

text \<open>
  The canonical chain (\<^verbatim>\<open>internal/store/bolt_canonical.go\<close>): a block is committed on top of the
  scan cursor together with all candidates it contains. Observations of the same height that are
  not in the block are dropped, tokens seen in it are remembered, and the checkpoint follows the
  complete blocks.
\<close>

section \<open>Checks of a block\<close>

definition validateCanonicalBlock :: "BoltStore \<Rightarrow> CanonicalBlock \<Rightarrow> bool" where
  "validateCanonicalBlock S block \<longleftrightarrow>
     \<not> (cp_Network (cb_Checkpoint block) \<noteq> bs_network S \<or> cp_BlockHash (cb_Checkpoint block) = 0 \<or>
        uint (bs_journalCapacity S) < int (length (cb_Candidates block))) \<and>
     list_all (\<lambda>candidate. validateInputCandidate S candidate \<and>
        cand_BlockNumber candidate = cp_BlockNumber (cb_Checkpoint block) \<and>
        cand_BlockHash candidate = cp_BlockHash (cb_Checkpoint block)) (cb_Candidates block)"

definition committedCandidate ::
  "'b bolt \<Rightarrow> BoltStore \<Rightarrow> 'b store_db \<Rightarrow> unit \<Rightarrow> RescueCandidate \<Rightarrow> store_error + unit" where
  "committedCandidate B S db u candidate =
     (case bget B (candidatesBucket db) (id_bytes (cand_ID candidate)) of
        None \<Rightarrow> Inl errCorrupt
      | Some data \<Rightarrow>
          case decodeCandidateRecord data of
            None \<Rightarrow> Inl errCorrupt
          | Some r \<Rightarrow>
              if \<not> matchesCandidate S (cr_Candidate r) \<or> \<not> sameCandidateIdentity (cr_Candidate r) candidate \<or>
                 cr_Status r = CandidateObserved \<or> cr_Status r = CandidateRemoved
              then Inl errCorrupt else Inr ())"

definition validateCommittedCandidates ::
  "'b bolt \<Rightarrow> BoltStore \<Rightarrow> RescueCandidate list \<Rightarrow> 'b store_db \<Rightarrow> store_error + unit" where
  "validateCommittedCandidates B S candidates db = foldE (committedCandidate B S db) () candidates"

text \<open>The position in the chain: nothing is committed yet, or the block follows the scan cursor.\<close>

definition follows_cursor ::
  "'b bolt \<Rightarrow> BoltStore \<Rightarrow> CanonicalBlock \<Rightarrow> 'b store_db \<Rightarrow> store_error + unit" where
  "follows_cursor B S block db =
     (case bget B (metaBucket db) scanCursorKey of
        None \<Rightarrow> rejectE (bget B (metaBucket db) baselineKey \<noteq> None) errCorrupt
      | Some cursorData \<Rightarrow>
          bindE (optE errCorrupt (decodeCheckpoint cursorData))
            (\<lambda>cursor. bindE (rejectE (cp_Network cursor \<noteq> bs_network S \<or> cp_BlockNumber cursor = maxUint64) errCorrupt)
            (\<lambda>_. rejectE (cp_BlockNumber (cb_Checkpoint block) \<noteq> cp_BlockNumber cursor + 1 \<or>
                 cb_ParentHash block \<noteq> cp_BlockHash cursor) errConflict)))"

definition reserveUnconfirmedBlock ::
  "'b bolt \<Rightarrow> BoltStore \<Rightarrow> u64 \<Rightarrow> 'b store_db \<Rightarrow> store_error + unit" where
  "reserveUnconfirmedBlock B S number db =
     (case bget B (metaBucket db) scanCursorKey of
        None \<Rightarrow> Inr ()
      | Some _ \<Rightarrow>
          case bget B (metaBucket db) checkpointKey of
            Some checkpointData \<Rightarrow>
              bindE (optE errCorrupt (decodeCheckpoint checkpointData))
                (\<lambda>checkpoint. bindE (rejectE (cp_Network checkpoint \<noteq> bs_network S \<or>
                     number \<le> cp_BlockNumber checkpoint) errCorrupt)
                (\<lambda>_. rejectE (unconfirmedBlockLimit < number - cp_BlockNumber checkpoint) errJournalFull))
          | None \<Rightarrow>
              bindE (optE errCorrupt (decodeUint64 (slice_of (bget B (metaBucket db) baselineKey))))
                (\<lambda>baseline. bindE (rejectE (number < baseline) errCorrupt)
                (\<lambda>_. rejectE (unconfirmedBlockLimit < number - baseline + 1) errJournalFull)))"

section \<open>Observations outside the block\<close>

text \<open>\<^verbatim>\<open>Seek\<close> and \<^verbatim>\<open>Next\<close> while the key has the prefix.\<close>

definition withPrefix :: "bytes \<Rightarrow> (bytes \<times> bytes) list \<Rightarrow> (bytes \<times> bytes) list" where
  "withPrefix prefix entries =
     takeWhile (\<lambda>e. take (length prefix) (fst e) = prefix) (dropWhile (\<lambda>e. fst e < prefix) entries)"

definition reconcileEntry ::
  "'b bolt \<Rightarrow> u64 \<Rightarrow> CandidateID list \<Rightarrow> 'b store_db \<Rightarrow> bytes \<times> bytes \<Rightarrow> store_error + 'b store_db" where
  "reconcileEntry B number wanted db entry =
     (if length (fst entry) \<noteq> 72 \<or> snd entry \<noteq> [recordVersion] then Inl errCorrupt
      else
        let cid = bytes_word (drop 40 (fst entry)) in
        bindE (optE errCorrupt (decodeCandidateRecord (slice_of (bget B (candidatesBucket db) (id_bytes cid)))))
          (\<lambda>r. bindE (rejectE (cand_ID (cr_Candidate r) \<noteq> cid \<or> cand_BlockNumber (cr_Candidate r) \<noteq> number) errCorrupt)
          (\<lambda>_. if cid \<in> set wanted then Inr db
             else if cr_Status r = CandidateObserved \<or> cr_Status r = CandidateRemoved
             then bindE (delE B (candidatesBucket db) (id_bytes cid))
          (\<lambda>candidates. bindE (delE B (pendingBucket db) (id_bytes cid))
          (\<lambda>pending. bindE (delE B (blockIndexBucket db) (fst entry))
          (\<lambda>index. Inr (db\<lparr>candidatesBucket := candidates, pendingBucket := pending, blockIndexBucket := index\<rparr>))))
             else if cr_Status r \<in> {CandidateStaged, CandidateReady, CandidateDelayed, CandidateAcknowledged}
             then Inl errConflict
             else Inl errCorrupt)))"

definition reconcileBlockObservations ::
  "'b bolt \<Rightarrow> u64 \<Rightarrow> CandidateID list \<Rightarrow> 'b store_db \<Rightarrow> store_error + 'b store_db" where
  "reconcileBlockObservations B number wanted db =
     foldE (reconcileEntry B number wanted) db (withPrefix (encodeUint64 number) (bentries B (blockIndexBucket db)))"

section \<open>Discovered tokens\<close>

definition countDiscovered :: "BoltStore \<Rightarrow> u32 \<Rightarrow> bytes \<times> bytes \<Rightarrow> store_error + u32" where
  "countDiscovered S count entry =
     (if length (fst entry) \<noteq> 20 \<or> snd entry \<noteq> [recordVersion] \<or> count = bs_maxDiscoveredTokens S
      then Inl errCorrupt else Inr (count + 1))"

definition confirmToken ::
  "'b bolt \<Rightarrow> BoltStore \<Rightarrow> u32 \<times> 'b store_db \<Rightarrow> address \<Rightarrow> store_error + u32 \<times> 'b store_db" where
  "confirmToken B S acc address =
     (let (count, db) = acc; key = word_bytes 20 address
      in if bget B (discoveredBucket db) key \<noteq> None then Inr (count, db)
         else if count = bs_maxDiscoveredTokens S
         then bindE (putE B (metaBucket db) discoveryOverflowKey [recordVersion])
                (\<lambda>meta. Inr (count, db\<lparr>metaBucket := meta\<rparr>))
         else bindE (putE B (discoveredBucket db) key [recordVersion])
                (\<lambda>discovered. Inr (count + 1, db\<lparr>discoveredBucket := discovered\<rparr>)))"

text \<open>The new tokens of the block in the order of their addresses, each once.\<close>

definition newTokens :: "'b bolt \<Rightarrow> 'b store_db \<Rightarrow> RescueCandidate list \<Rightarrow> address list" where
  "newTokens B db candidates =
     sort (remdups (map (tok_Address \<circ> cand_Token)
       (filter (\<lambda>c. cand_Kind c = CandidateToken \<and>
          bget B (discoveredBucket db) (word_bytes 20 (tok_Address (cand_Token c))) = None) candidates)))"

definition confirmDiscoveredTokens ::
  "'b bolt \<Rightarrow> BoltStore \<Rightarrow> RescueCandidate list \<Rightarrow> 'b store_db \<Rightarrow> store_error + 'b store_db" where
  "confirmDiscoveredTokens B S candidates db =
     bindE (foldE (countDiscovered S) 0 (bentries B (discoveredBucket db)))
       (\<lambda>count. bindE (foldE (confirmToken B S) (count, db) (newTokens B db candidates))
       (\<lambda>(count, db). Inr db))"

section \<open>Commit\<close>

definition stageCandidate ::
  "'b bolt \<Rightarrow> BoltStore \<Rightarrow> 'b store_db \<Rightarrow> RescueCandidate \<Rightarrow> store_error + 'b store_db" where
  "stageCandidate B S db candidate =
     (case bget B (candidatesBucket db) (id_bytes (cand_ID candidate)) of
        None \<Rightarrow> insertCandidate B CandidateStaged candidate db
      | Some data \<Rightarrow>
          bindE (stored_same S candidate data)
            (\<lambda>r. if cr_Status r = CandidateObserved \<or> cr_Status r = CandidateRemoved
               then bindE (optE errInvalidInput (encodeCandidateRecord
                   (r\<lparr>cr_Status := CandidateStaged, cr_Candidate := updateCandidateMetadata (cr_Candidate r) candidate\<rparr>)))
                 (\<lambda>encoded. bindE (putE B (candidatesBucket db) (id_bytes (cand_ID candidate)) encoded)
                 (\<lambda>b. Inr (db\<lparr>candidatesBucket := b\<rparr>)))
               else Inr db))"

text \<open>The block, the baseline with the first block, and the cursor.\<close>

definition recordBlock ::
  "'b bolt \<Rightarrow> CanonicalBlock \<Rightarrow> bytes \<Rightarrow> bool \<Rightarrow> 'b store_db \<Rightarrow> store_error + 'b store_db" where
  "recordBlock B block encodedBlock first db =
     (let key = blockNumberKey (cp_BlockNumber (cb_Checkpoint block)) in
      bindE (putE B (blocksBucket db) key encodedBlock)
        (\<lambda>blocks. bindE (optE errInvalidInput (encodeCheckpoint (cb_Checkpoint block)))
        (\<lambda>checkpointData. bindE (if first then putE B (metaBucket db) baselineKey key else Inr (metaBucket db))
        (\<lambda>meta. bindE (putE B meta scanCursorKey checkpointData)
        (\<lambda>meta. Inr (db\<lparr>blocksBucket := blocks, metaBucket := meta\<rparr>))))))"

definition commit_new ::
  "'b seq_bolt \<Rightarrow> BoltStore \<Rightarrow> time \<Rightarrow> CanonicalBlock \<Rightarrow> CandidateID list \<Rightarrow> bytes \<Rightarrow> 'b store_db \<Rightarrow>
     store_error + bool \<times> 'b store_db" where
  "commit_new Q S now block members encodedBlock db =
     (let B = bkv Q; number = cp_BlockNumber (cb_Checkpoint block); first = (bget B (metaBucket db) scanCursorKey = None) in
      bindE (follows_cursor B S block db)
        (\<lambda>_. bindE (reconcileBlockObservations B number members db)
        (\<lambda>db. bindE (reserveUnconfirmedBlock B S number db)
        (\<lambda>_. bindE (additionalJournalEntries B S (cb_Candidates block) db)
        (\<lambda>additional. bindE (reserveJournal B S additional db)
        (\<lambda>_. bindE (confirmDiscoveredTokens B S (cb_Candidates block) db)
        (\<lambda>db. bindE (foldE (stageCandidate B S) db (cb_Candidates block))
        (\<lambda>db. bindE (recordBlock B block encodedBlock first db)
        (\<lambda>db. bindE (promoteCandidates Q S now db)
        (\<lambda>db. bindE (advanceCheckpoint B S db)
        (\<lambda>db. Inr (True, db))))))))))))"

definition commit_block_tx ::
  "'b seq_bolt \<Rightarrow> BoltStore \<Rightarrow> time \<Rightarrow> CanonicalBlock \<Rightarrow> CandidateID list \<Rightarrow> bytes \<Rightarrow> 'b store_db \<Rightarrow>
     store_error + bool \<times> 'b store_db" where
  "commit_block_tx Q S now block members encodedBlock db =
     (case bget (bkv Q) (blocksBucket db) (blockNumberKey (cp_BlockNumber (cb_Checkpoint block))) of
        Some persisted \<Rightarrow>
          bindE (rejectE (persisted \<noteq> encodedBlock) errConflict)
            (\<lambda>_. bindE (validateCommittedCandidates (bkv Q) S (cb_Candidates block) db)
            (\<lambda>_. Inr (False, db)))
      | None \<Rightarrow> commit_new Q S now block members encodedBlock db)"

definition commit_round ::
  "'b seq_bolt \<Rightarrow> BoltStore \<Rightarrow> CanonicalBlock \<Rightarrow> CandidateID list \<Rightarrow> bytes \<Rightarrow> store_env \<Rightarrow> 'b store_state \<Rightarrow>
     unit round \<times> 'b store_state" where
  "commit_round Q S block members encodedBlock env st =
     (let (out, db') = store_update env (commit_block_tx Q S (se_now env) block members encodedBlock) (st_db st);
          st' = st\<lparr>st_db := db'\<rparr>
      in case out of
           Inl errJournalFull \<Rightarrow> (Await 0, st')
         | Inl e \<Rightarrow> (Answer (Inl (store_publicError e)), st')
         | Inr changed \<Rightarrow> (Answer (Inr ()), notify_if changed st'))"

definition CommitCanonicalBlock ::
  "'b seq_bolt \<Rightarrow> BoltStore \<Rightarrow> store_env \<Rightarrow> 'b turn list \<Rightarrow> CanonicalBlock \<Rightarrow> 'b store_state \<Rightarrow>
     (store_error + unit) option \<times> 'b store_state" where
  "CommitCanonicalBlock Q S env turns block st =
     (if \<not> validateCanonicalBlock S block then (Some (Inl errInvalidInput), st)
      else case store_begin env st of
        Some e \<Rightarrow> (Some (Inl e), st)
      | None \<Rightarrow>
          case sortedMemberIDs (cb_Candidates block) of
            None \<Rightarrow> (Some (Inl errInvalidInput), st)
          | Some members \<Rightarrow>
              case encodeBlock \<lparr>br_Checkpoint = cb_Checkpoint block, br_ParentHash = cb_ParentHash block,
                     br_Members = members\<rparr> (bs_journalCapacity S) of
                None \<Rightarrow> (Some (Inl errInvalidInput), st)
              | Some encodedBlock \<Rightarrow> await_loop (commit_round Q S block members encodedBlock) turns st)"

section \<open>Reading the chain\<close>

definition loadCheckpoint ::
  "'b bolt \<Rightarrow> BoltStore \<Rightarrow> store_env \<Rightarrow> NetworkID \<Rightarrow> bytes \<Rightarrow> 'b store_state \<Rightarrow> store_error + Checkpoint option" where
  "loadCheckpoint B S env network key st =
     (if network \<noteq> bs_network S then Inl errInvalidInput
      else case store_begin env st of
        Some e \<Rightarrow> Inl e
      | None \<Rightarrow>
          public_result (store_view env
            (\<lambda>db. case bget B (metaBucket db) key of
                    None \<Rightarrow> Inr None
                  | Some data \<Rightarrow>
                      bindE (optE errCorrupt (decodeCheckpoint data))
                        (\<lambda>checkpoint. bindE (rejectE (cp_Network checkpoint \<noteq> bs_network S) errCorrupt)
                        (\<lambda>_. Inr (Some checkpoint)))) (st_db st)))"

definition LoadScanCursor ::
  "'b bolt \<Rightarrow> BoltStore \<Rightarrow> store_env \<Rightarrow> NetworkID \<Rightarrow> 'b store_state \<Rightarrow> store_error + Checkpoint option" where
  "LoadScanCursor B S env network st = loadCheckpoint B S env network scanCursorKey st"

definition LoadCheckpoint ::
  "'b bolt \<Rightarrow> BoltStore \<Rightarrow> store_env \<Rightarrow> NetworkID \<Rightarrow> 'b store_state \<Rightarrow> store_error + Checkpoint option" where
  "LoadCheckpoint B S env network st = loadCheckpoint B S env network checkpointKey st"

definition discoveredToken ::
  "BoltStore \<Rightarrow> address list \<Rightarrow> bytes \<times> bytes \<Rightarrow> store_error + address list" where
  "discoveredToken S tokens entry =
     (if length (fst entry) \<noteq> 20 \<or> snd entry \<noteq> [recordVersion] \<or>
         (word_of_nat (length tokens) :: u32) = bs_maxDiscoveredTokens S then Inl errCorrupt
      else if (bytes_word (fst entry) :: address) = 0 then Inl errCorrupt
      else Inr (tokens @ [bytes_word (fst entry)]))"

definition DiscoveredTokens ::
  "'b bolt \<Rightarrow> BoltStore \<Rightarrow> store_env \<Rightarrow> NetworkID \<Rightarrow> 'b store_state \<Rightarrow> store_error + address list" where
  "DiscoveredTokens B S env network st =
     (if network \<noteq> bs_network S then Inl errInvalidInput
      else case store_begin env st of
        Some e \<Rightarrow> Inl e
      | None \<Rightarrow>
          (case public_result (store_view env
              (\<lambda>db. foldE (discoveredToken S) [] (bentries B (discoveredBucket db))) (st_db st)) of
             Inl e \<Rightarrow> Inl e
           | Inr tokens \<Rightarrow> Inr (sort tokens)))"

definition DiscoveryOverflowed ::
  "'b bolt \<Rightarrow> BoltStore \<Rightarrow> store_env \<Rightarrow> NetworkID \<Rightarrow> 'b store_state \<Rightarrow> store_error + bool" where
  "DiscoveryOverflowed B S env network st =
     (if network \<noteq> bs_network S then Inl errInvalidInput
      else case store_begin env st of
        Some e \<Rightarrow> Inl e
      | None \<Rightarrow>
          public_result (store_view env
            (\<lambda>db. case bget B (metaBucket db) discoveryOverflowKey of
                    None \<Rightarrow> Inr False
                  | Some value \<Rightarrow> bindE (rejectE (value \<noteq> [recordVersion]) errCorrupt) (\<lambda>_. Inr True)) (st_db st)))"

end
