(* ===== verification/Store_Validation.thy ===== *)
theory Store_Validation
  imports Store_Canonical Store_Lease Store_Rescue
begin

text \<open>
  The validation of a whole database (\<^verbatim>\<open>internal/store/bolt_validation.go\<close>), done whenever the
  store is opened: the bindings, the queue with its three indexes, the incidents, the tokens, the
  rescue records, the leases, and the chain of blocks with its checkpoint.
\<close>

section \<open>Metadata\<close>

definition schemaKey :: bytes where "schemaKey = ascii ''schema''"
definition networkKey :: bytes where "networkKey = ascii ''network''"
definition sourceKey :: bytes where "sourceKey = ascii ''source''"
definition sponsorKey :: bytes where "sponsorKey = ascii ''sponsor''"
definition destinationKey :: bytes where "destinationKey = ascii ''destination''"
definition rescuerKey :: bytes where "rescuerKey = ascii ''rescuer''"
definition policyKey :: bytes where "policyKey = ascii ''policy''"
definition maxPendingKey :: bytes where "maxPendingKey = ascii ''max-pending''"
definition maxDiscoveredKey :: bytes where "maxDiscoveredKey = ascii ''max-discovered''"

definition commonBindings :: "BoltStore \<Rightarrow> (bytes \<times> bytes) list" where
  "commonBindings S =
     [(networkKey, encodeUint64 (bs_network S)), (sourceKey, word_bytes 20 (bs_source S)),
      (policyKey, id_bytes (bs_policyFingerprint S)), (maxPendingKey, encodeUint32 (bs_maxPending S)),
      (maxDiscoveredKey, encodeUint32 (bs_maxDiscoveredTokens S))]"

definition roleBindings :: "BoltStore \<Rightarrow> (bytes \<times> bytes) list" where
  "roleBindings S =
     [(sponsorKey, word_bytes 20 (bs_sponsor S)), (destinationKey, word_bytes 20 (bs_destination S)),
      (rescuerKey, word_bytes 20 (bs_rescuer S))]"

definition bound :: "'b bolt \<Rightarrow> 'b \<Rightarrow> bytes \<times> bytes \<Rightarrow> bool" where
  "bound B meta binding \<longleftrightarrow> slice_of (bget B meta (fst binding)) = snd binding"

definition allowedMeta :: "u32 \<Rightarrow> bytes list" where
  "allowedMeta version =
     [schemaKey, networkKey, sourceKey, policyKey, maxPendingKey, maxDiscoveredKey, baselineKey,
      scanCursorKey, checkpointKey, discoveryOverflowKey, promotionTurnKey] @
     (if schemaVersionV2 \<le> version then [sponsorKey, destinationKey, rescuerKey, nonceFloorKey] else [])"

definition validateMetaEntry :: "u32 \<Rightarrow> unit \<Rightarrow> bytes \<times> bytes \<Rightarrow> store_error + unit" where
  "validateMetaEntry version u entry =
     (let (key, value) = entry
      in if key \<notin> set (allowedMeta version) then Inl errCorrupt
         else if key = discoveryOverflowKey \<and> value \<noteq> [recordVersion] then Inl errCorrupt
         else if key = promotionTurnKey \<and> (length value \<noteq> 2 \<or> value ! 0 \<noteq> recordVersion \<or> 1 < value ! 1)
         then Inl errCorrupt
         else Inr ())"

definition validateMeta :: "'b bolt \<Rightarrow> BoltStore \<Rightarrow> u32 \<Rightarrow> 'b store_db \<Rightarrow> store_error + unit" where
  "validateMeta B S version db =
     bindE (rejectE (\<not> list_all (bound B (metaBucket db)) ((schemaKey, encodeUint32 version) # commonBindings S)) errCorrupt)
       (\<lambda>_. bindE (rejectE (schemaVersionV2 \<le> version \<and> \<not> list_all (bound B (metaBucket db)) (roleBindings S)) errCorrupt)
       (\<lambda>_. bindE (rejectE (schemaVersionV2 \<le> version \<and>
            decodeUint64 (slice_of (bget B (metaBucket db) nonceFloorKey)) = None) errCorrupt)
       (\<lambda>_. foldE (validateMetaEntry version) () (bentries B (metaBucket db)))))"

section \<open>The queue\<close>

definition validateCandidateEntry ::
  "'b bolt \<Rightarrow> BoltStore \<Rightarrow> 'b store_db \<Rightarrow> unit \<Rightarrow> bytes \<times> bytes \<Rightarrow> store_error + unit" where
  "validateCandidateEntry B S db u entry =
     bindE (optE errCorrupt (decodeCandidateRecord (snd entry)))
       (\<lambda>r. bindE (rejectE (length (fst entry) \<noteq> 32 \<or> fst entry \<noteq> id_bytes (cand_ID (cr_Candidate r)) \<or>
            \<not> matchesCandidate S (cr_Candidate r)) errCorrupt)
       (\<lambda>_. let pendingValue = bget B (pendingBucket db) (fst entry) in
        bindE (if cr_Status r = CandidateReady
               then rejectE (length (slice_of pendingValue) \<noteq> 8 \<or>
                 slice_of (bget B (readyOrderBucket db) (slice_of pendingValue)) \<noteq> fst entry) errCorrupt
               else rejectE (pendingValue \<noteq> None) errCorrupt)
       (\<lambda>_. case candidateBlockIndexKey (cr_Candidate r) of
          None \<Rightarrow> Inr ()
        | Some blockKey \<Rightarrow> rejectE (slice_of (bget B (blockIndexBucket db) blockKey) \<noteq> [recordVersion]) errCorrupt)))"

text \<open>A ready candidate behind a key of the indexes.\<close>

definition readyRecord :: "'b bolt \<Rightarrow> 'b store_db \<Rightarrow> bytes \<Rightarrow> bool" where
  "readyRecord B db key =
     (case decodeCandidateRecord (slice_of (bget B (candidatesBucket db) key)) of
        None \<Rightarrow> False
      | Some r \<Rightarrow> cr_Status r = CandidateReady \<and> key = id_bytes (cand_ID (cr_Candidate r)))"

definition validatePendingEntry ::
  "'b bolt \<Rightarrow> 'b store_db \<Rightarrow> unit \<Rightarrow> bytes \<times> bytes \<Rightarrow> store_error + unit" where
  "validatePendingEntry B db u entry =
     bindE (rejectE (length (fst entry) \<noteq> 32 \<or> length (snd entry) \<noteq> 8 \<or>
         slice_of (bget B (readyOrderBucket db) (snd entry)) \<noteq> fst entry) errCorrupt)
       (\<lambda>_. rejectE (\<not> readyRecord B db (fst entry)) errCorrupt)"

definition validateOrderEntry ::
  "'b bolt \<Rightarrow> 'b store_db \<Rightarrow> u64 \<Rightarrow> bytes \<times> bytes \<Rightarrow> store_error + u64" where
  "validateOrderEntry B db maximumOrder entry =
     bindE (rejectE (length (fst entry) \<noteq> 8 \<or> length (snd entry) \<noteq> 32 \<or>
         slice_of (bget B (pendingBucket db) (snd entry)) \<noteq> fst entry) errCorrupt)
       (\<lambda>_. bindE (optE errCorrupt (decodeUint64 (fst entry)))
       (\<lambda>sequence. bindE (rejectE (sequence = 0 \<or> sequence \<le> maximumOrder) errCorrupt)
       (\<lambda>_. bindE (rejectE (\<not> readyRecord B db (snd entry)) errCorrupt)
       (\<lambda>_. Inr sequence))))"

definition validateIndexEntry ::
  "'b bolt \<Rightarrow> 'b store_db \<Rightarrow> unit \<Rightarrow> bytes \<times> bytes \<Rightarrow> store_error + unit" where
  "validateIndexEntry B db u entry =
     bindE (rejectE (length (fst entry) \<noteq> 72 \<or> snd entry \<noteq> [recordVersion]) errCorrupt)
       (\<lambda>_. bindE (optE errCorrupt (decodeCandidateRecord
             (slice_of (bget B (candidatesBucket db) (drop 40 (fst entry))))))
       (\<lambda>r. rejectE (fst entry \<noteq> slice_of (candidateBlockIndexKey (cr_Candidate r))) errCorrupt))"

definition validateTombstone ::
  "'b bolt \<Rightarrow> 'b store_db \<Rightarrow> u64 \<times> CandidateID list \<Rightarrow> bytes \<times> bytes \<Rightarrow> store_error + u64 \<times> CandidateID list" where
  "validateTombstone B db acc entry =
     (let (maximumSequence, seen) = acc in
      bindE (rejectE (length (fst entry) \<noteq> 8 \<or> length (snd entry) \<noteq> 32) errCorrupt)
        (\<lambda>_. bindE (optE errCorrupt (decodeUint64 (fst entry)))
        (\<lambda>sequence. bindE (rejectE (sequence = 0 \<or> sequence \<le> maximumSequence) errCorrupt)
        (\<lambda>_. let cid = bytes_word (snd entry) in
         bindE (rejectE (cid \<in> set seen) errCorrupt)
        (\<lambda>_. bindE (optE errCorrupt (decodeCandidateRecord (slice_of (bget B (candidatesBucket db) (id_bytes cid)))))
        (\<lambda>r. bindE (rejectE (cr_Status r \<noteq> CandidateAcknowledged \<or> cand_ID (cr_Candidate r) \<noteq> cid) errCorrupt)
        (\<lambda>_. Inr (sequence, cid # seen))))))))"

definition retainedCanonicalMember ::
  "'b bolt \<Rightarrow> BoltStore \<Rightarrow> 'b store_db \<Rightarrow> RescueCandidate \<Rightarrow> store_error + bool" where
  "retainedCanonicalMember B S db candidate =
     (if candidateBlockIndexKey candidate = None then Inr False
      else case bget B (blocksBucket db) (blockNumberKey (cand_BlockNumber candidate)) of
        None \<Rightarrow> Inr False
      | Some data \<Rightarrow>
          bindE (optE errCorrupt (decodeBlock data (bs_journalCapacity S)))
            (\<lambda>block. bindE (rejectE (cp_Network (br_Checkpoint block) \<noteq> bs_network S \<or>
                 cp_BlockNumber (br_Checkpoint block) \<noteq> cand_BlockNumber candidate \<or>
                 cp_BlockHash (br_Checkpoint block) \<noteq> cand_BlockHash candidate) errCorrupt)
            (\<lambda>_. Inr (cand_ID candidate \<in> set (br_Members block)))))"

definition validateAcknowledged ::
  "'b bolt \<Rightarrow> BoltStore \<Rightarrow> 'b store_db \<Rightarrow> CandidateID list \<Rightarrow> unit \<Rightarrow> bytes \<times> bytes \<Rightarrow> store_error + unit" where
  "validateAcknowledged B S db seen u entry =
     bindE (optE errCorrupt (decodeCandidateRecord (snd entry)))
       (\<lambda>r. if cr_Status r \<noteq> CandidateAcknowledged \<or> cand_ID (cr_Candidate r) \<in> set seen then Inr ()
          else rejectE (retainedCanonicalMember B S db (cr_Candidate r) \<noteq> Inr True) errCorrupt)"

definition validateTombstones :: "'b seq_bolt \<Rightarrow> BoltStore \<Rightarrow> 'b store_db \<Rightarrow> store_error + unit" where
  "validateTombstones Q S db =
     (let B = bkv Q; entries = bentries B (tombstonesBucket db) in
      bindE (rejectE (tombstoneLimit < length entries) errCorrupt)
        (\<lambda>_. bindE (foldE (validateTombstone B db) (0, []) entries)
        (\<lambda>(maximumSequence, seen). bindE (rejectE (bseq Q (tombstonesBucket db) < maximumSequence \<or>
             bseq Q (tombstonesBucket db) = maxUint64) errCorrupt)
        (\<lambda>_. foldE (validateAcknowledged B S db seen) () (bentries B (candidatesBucket db))))))"

text \<open>The counts come first; one more observation than allowed would end the validation early.\<close>

definition validateCandidateIndexes :: "'b seq_bolt \<Rightarrow> BoltStore \<Rightarrow> 'b store_db \<Rightarrow> store_error + unit" where
  "validateCandidateIndexes Q S db =
     (let B = bkv Q in
      bindE (readyCount B S db)
        (\<lambda>_. bindE (journalCount B S db)
        (\<lambda>_. bindE (statusCount B S db)
        (\<lambda>observed. if bs_maxPending S < observed then Inr ()
         else bindE (foldE (validateCandidateEntry B S db) () (bentries B (candidatesBucket db)))
        (\<lambda>_. bindE (foldE (validatePendingEntry B db) () (bentries B (pendingBucket db)))
        (\<lambda>_. bindE (foldE (validateOrderEntry B db) 0 (bentries B (readyOrderBucket db)))
        (\<lambda>maximumOrder. bindE (rejectE (bseq Q (readyOrderBucket db) < maximumOrder \<or>
             bseq Q (readyOrderBucket db) = maxUint64) errCorrupt)
        (\<lambda>_. bindE (foldE (validateIndexEntry B db) () (bentries B (blockIndexBucket db)))
        (\<lambda>_. validateTombstones Q S db)))))))))"

section \<open>Incidents and tokens\<close>

definition validateIncidentEntry ::
  "'b bolt \<Rightarrow> BoltStore \<Rightarrow> 'b store_db \<Rightarrow> unit \<Rightarrow> bytes \<times> bytes \<Rightarrow> store_error + unit" where
  "validateIncidentEntry B S db u entry =
     bindE (optE errCorrupt (decodeIncident (snd entry)))
       (\<lambda>incident. bindE (rejectE (length (fst entry) \<noteq> 32 \<or> fst entry \<noteq> id_bytes (inc_Candidate incident) \<or>
            inc_Network incident \<noteq> bs_network S) errCorrupt)
       (\<lambda>_. bindE (optE errCorrupt (bget B (candidatesBucket db) (id_bytes (inc_Candidate incident))))
       (\<lambda>candidateData. bindE (optE errCorrupt (decodeCandidateRecord candidateData))
       (\<lambda>r. rejectE (cand_ID (cr_Candidate r) \<noteq> inc_Candidate incident) errCorrupt))))"

definition validateIncidentState ::
  "'b bolt \<Rightarrow> BoltStore \<Rightarrow> 'b store_db \<Rightarrow> unit \<Rightarrow> bytes \<times> bytes \<Rightarrow> store_error + unit" where
  "validateIncidentState B S db u entry =
     bindE (optE errCorrupt (decodeCandidateRecord (snd entry)))
       (\<lambda>r. if cr_Status r \<noteq> CandidateAcknowledged \<and> cr_Status r \<noteq> CandidateDelayed then Inr ()
          else bindE (optE errCorrupt (decodeIncident
              (slice_of (bget B (incidentsBucket db) (id_bytes (cand_ID (cr_Candidate r)))))))
       (\<lambda>incident. rejectE (inc_Candidate incident \<noteq> cand_ID (cr_Candidate r) \<or>
            inc_Network incident \<noteq> bs_network S) errCorrupt))"

definition validateCandidateIncidentStates :: "'b bolt \<Rightarrow> BoltStore \<Rightarrow> 'b store_db \<Rightarrow> store_error + unit" where
  "validateCandidateIncidentStates B S db =
     foldE (validateIncidentState B S db) () (bentries B (candidatesBucket db))"

definition validateDiscovered :: "BoltStore \<Rightarrow> u32 \<Rightarrow> bytes \<times> bytes \<Rightarrow> store_error + u32" where
  "validateDiscovered S count entry =
     (if length (fst entry) \<noteq> 20 \<or> snd entry \<noteq> [recordVersion] \<or> (bytes_word (fst entry) :: address) = 0 \<or>
         count = bs_maxDiscoveredTokens S
      then Inl errCorrupt else Inr (count + 1))"

section \<open>The chain\<close>

definition validateMembershipEntry ::
  "Checkpoint \<Rightarrow> CandidateID list \<Rightarrow> unit \<Rightarrow> bytes \<times> bytes \<Rightarrow> store_error + unit" where
  "validateMembershipEntry checkpoint wanted u entry =
     (if length (fst entry) \<noteq> 72 \<or> snd entry \<noteq> [recordVersion] then Inl errCorrupt
      else if take 32 (drop 8 (fst entry)) \<noteq> id_bytes (cp_BlockHash checkpoint) then Inl errConflict
      else if bytes_word (drop 40 (fst entry)) \<notin> set wanted then Inl errConflict
      else Inr ())"

definition validateFullMembership ::
  "'b bolt \<Rightarrow> Checkpoint \<Rightarrow> CandidateID list \<Rightarrow> 'b store_db \<Rightarrow> store_error + unit" where
  "validateFullMembership B checkpoint members db =
     foldE (validateMembershipEntry checkpoint members) ()
       (withPrefix (encodeUint64 (cp_BlockNumber checkpoint)) (bentries B (blockIndexBucket db)))"

text \<open>The state of the walk: the previous hash, the expected checkpoint, and whether it is blocked.\<close>

record chain_walk =
  cw_previous :: hash
  cw_expected :: "Checkpoint option"
  cw_blocked :: bool

definition validateChainBlock ::
  "'b bolt \<Rightarrow> BoltStore \<Rightarrow> 'b store_db \<Rightarrow> u64 \<Rightarrow> u64 \<Rightarrow> chain_walk \<Rightarrow> store_error + chain_walk" where
  "validateChainBlock B S db baseline number walk =
     bindE (optE errCorrupt (bget B (blocksBucket db) (blockNumberKey number)))
       (\<lambda>data. bindE (optE errCorrupt (decodeBlock data (bs_journalCapacity S)))
       (\<lambda>block. bindE (rejectE (cp_Network (br_Checkpoint block) \<noteq> bs_network S \<or>
            cp_BlockNumber (br_Checkpoint block) \<noteq> number) errCorrupt)
       (\<lambda>_. bindE (rejectE (number \<noteq> baseline \<and> br_ParentHash block \<noteq> cw_previous walk) errCorrupt)
       (\<lambda>_. bindE (rejectE (validateFullMembership B (br_Checkpoint block) (br_Members block) db \<noteq> Inr ()) errCorrupt)
       (\<lambda>_. bindE (blockComplete B S db block)
       (\<lambda>complete. Inr
          (\<lparr>cw_previous = cp_BlockHash (br_Checkpoint block),
            cw_expected = (if \<not> cw_blocked walk \<and> complete then Some (br_Checkpoint block) else cw_expected walk),
            cw_blocked = (if \<not> cw_blocked walk \<and> complete then False
              else if \<not> complete then True else cw_blocked walk)\<rparr>)))))))"

function validateChain ::
  "'b bolt \<Rightarrow> BoltStore \<Rightarrow> 'b store_db \<Rightarrow> u64 \<Rightarrow> Checkpoint \<Rightarrow> u64 \<Rightarrow> chain_walk \<Rightarrow>
     store_error + Checkpoint option" where
  "validateChain B S db baseline cursor number walk =
     (case validateChainBlock B S db baseline number walk of
        Inl e \<Rightarrow> Inl e
      | Inr walk' \<Rightarrow>
          if number = cp_BlockNumber cursor
          then if cw_previous walk' \<noteq> cp_BlockHash cursor then Inl errCorrupt else Inr (cw_expected walk')
          else if number = maxUint64 then Inl errCorrupt
          else validateChain B S db baseline cursor (number + 1) walk')"
  by pat_completeness auto

termination validateChain
proof (relation "measure (\<lambda>(B, S, db, baseline, cursor, number, walk). 2 ^ 64 - unat number)")
  fix B :: "'b bolt" and S :: BoltStore and db :: "'b store_db" and baseline number :: u64
    and cursor :: Checkpoint and walk walk' :: chain_walk
  assume "number \<noteq> maxUint64"
  then show "((B, S, db, baseline, cursor, number + 1, walk'), (B, S, db, baseline, cursor, number, walk)) \<in>
      measure (\<lambda>(B, S, db, baseline, cursor, number, walk). 2 ^ 64 - unat number)"
    using unat_u64 [of number] by (simp add: unat_succ)
qed simp

declare validateChain.simps [simp del]

definition validateExpected ::
  "u64 \<Rightarrow> Checkpoint \<Rightarrow> bytes option \<Rightarrow> Checkpoint option \<Rightarrow> store_error + unit" where
  "validateExpected baseline cursor checkpointData expected =
     (case expected of
        None \<Rightarrow>
          bindE (rejectE (checkpointData \<noteq> None) errCorrupt)
            (\<lambda>_. rejectE (unconfirmedBlockLimit < cp_BlockNumber cursor - baseline + 1) errCorrupt)
      | Some expectedCheckpoint \<Rightarrow>
          bindE (optE errCorrupt checkpointData)
            (\<lambda>data. bindE (optE errCorrupt (decodeCheckpoint data))
            (\<lambda>checkpoint. bindE (rejectE (checkpoint \<noteq> expectedCheckpoint) errCorrupt)
            (\<lambda>_. bindE (rejectE (cp_BlockNumber checkpoint < baseline \<or>
                 canonicalBlockLimit < cp_BlockNumber checkpoint - baseline + 1) errCorrupt)
            (\<lambda>_. rejectE (unconfirmedBlockLimit < cp_BlockNumber cursor - cp_BlockNumber checkpoint) errCorrupt)))))"

definition validateBlocks :: "'b bolt \<Rightarrow> BoltStore \<Rightarrow> 'b store_db \<Rightarrow> store_error + unit" where
  "validateBlocks B S db =
     (let meta = metaBucket db; baselineData = bget B meta baselineKey; cursorData = bget B meta scanCursorKey;
          checkpointData = bget B meta checkpointKey; blockCount = length (bentries B (blocksBucket db))
      in case (baselineData, cursorData) of
           (Some baselineData, Some cursorData) \<Rightarrow>
             bindE (optE errCorrupt (decodeUint64 baselineData))
               (\<lambda>baseline. bindE (optE errCorrupt (decodeCheckpoint cursorData))
               (\<lambda>cursor. bindE (rejectE (cp_Network cursor \<noteq> bs_network S \<or> cp_BlockNumber cursor < baseline) errCorrupt)
               (\<lambda>_. bindE (validateChain B S db baseline cursor baseline
                     \<lparr>cw_previous = 0, cw_expected = None, cw_blocked = False\<rparr>)
               (\<lambda>expected. let span = cp_BlockNumber cursor - baseline in
                bindE (rejectE (span = maxUint64 \<or> word_of_nat blockCount \<noteq> span + 1) errCorrupt)
               (\<lambda>_. validateExpected baseline cursor checkpointData expected)))))
         | _ \<Rightarrow> rejectE (baselineData \<noteq> None \<or> cursorData \<noteq> None \<or> checkpointData \<noteq> None \<or> blockCount \<noteq> 0) errCorrupt)"

section \<open>The database\<close>

text \<open>What is checked once the set of buckets is known to be the expected one.\<close>

definition validateContents ::
  "'b seq_bolt \<Rightarrow> tx_decoder \<Rightarrow> BoltStore \<Rightarrow> u32 \<Rightarrow> 'b store_db \<Rightarrow> store_error + unit" where
  "validateContents Q unmarshal S version db =
     (let B = bkv Q in
      bindE (validateMeta B S version db)
        (\<lambda>_. bindE (rejectE (validateCandidateIndexes Q S db \<noteq> Inr ()) errCorrupt)
        (\<lambda>_. bindE (foldE (validateIncidentEntry B S db) () (bentries B (incidentsBucket db)))
        (\<lambda>_. bindE (foldE (validateDiscovered S) 0 (bentries B (discoveredBucket db)))
        (\<lambda>discoveredCount. bindE (rejectE (bget B (metaBucket db) discoveryOverflowKey \<noteq> None \<and>
             discoveredCount \<noteq> bs_maxDiscoveredTokens S) errCorrupt)
        (\<lambda>_. bindE (rejectE (schemaVersionV2 \<le> version \<and>
             validateRescueStateBucket Q unmarshal S version db \<noteq> Inr ()) errCorrupt)
        (\<lambda>_. bindE (rejectE (schemaVersionV2 \<le> version \<and> validateLeasesBucket Q S db \<noteq> Inr ()) errCorrupt)
        (\<lambda>_. bindE (validateBlocks B S db)
        (\<lambda>_. validateCandidateIncidentStates B S db)))))))))"

text \<open>The buckets of a database file, by name.\<close>

type_synonym 'b database = "(bytes \<times> 'b) list"

abbreviation metaName :: bytes where "metaName \<equiv> ascii ''meta''"
abbreviation candidatesName :: bytes where "candidatesName \<equiv> ascii ''candidates''"
abbreviation pendingName :: bytes where "pendingName \<equiv> ascii ''pending''"
abbreviation readyOrderName :: bytes where "readyOrderName \<equiv> ascii ''ready-order''"
abbreviation blockIndexName :: bytes where "blockIndexName \<equiv> ascii ''candidate-blocks''"
abbreviation incidentsName :: bytes where "incidentsName \<equiv> ascii ''incidents''"
abbreviation blocksName :: bytes where "blocksName \<equiv> ascii ''blocks''"
abbreviation discoveredName :: bytes where "discoveredName \<equiv> ascii ''discovered''"
abbreviation tombstonesName :: bytes where "tombstonesName \<equiv> ascii ''tombstones''"
abbreviation rescueStateName :: bytes where "rescueStateName \<equiv> ascii ''rescue-incidents''"
abbreviation leasesName :: bytes where "leasesName \<equiv> ascii ''leases''"

definition queueBuckets :: "bytes list" where
  "queueBuckets = [candidatesName, pendingName, readyOrderName, blockIndexName, incidentsName, blocksName,
     discoveredName, tombstonesName]"

definition expectedBuckets :: "u32 \<Rightarrow> bytes list" where
  "expectedBuckets version =
     metaName # queueBuckets @ (if schemaVersionV2 \<le> version then [rescueStateName, leasesName] else [])"

text \<open>A bucket that the schema does not have yet is never read; the model lets it be empty.\<close>

definition open_db :: "'b bolt \<Rightarrow> 'b database \<Rightarrow> 'b store_db" where
  "open_db B root =
     (let bucket = (\<lambda>name. case map_of root name of None \<Rightarrow> bempty B | Some b \<Rightarrow> b)
      in \<lparr>metaBucket = bucket metaName, candidatesBucket = bucket candidatesName, pendingBucket = bucket pendingName,
          readyOrderBucket = bucket readyOrderName, blockIndexBucket = bucket blockIndexName,
          incidentsBucket = bucket incidentsName, blocksBucket = bucket blocksName,
          discoveredBucket = bucket discoveredName, tombstonesBucket = bucket tombstonesName,
          rescueStateBucket = bucket rescueStateName, leasesBucket = bucket leasesName\<rparr>)"

definition validateDatabaseVersion ::
  "'b seq_bolt \<Rightarrow> tx_decoder \<Rightarrow> BoltStore \<Rightarrow> u32 \<Rightarrow> 'b database \<Rightarrow> store_error + unit" where
  "validateDatabaseVersion Q unmarshal S version root =
     (if version \<noteq> schemaVersionV1 \<and> version \<noteq> schemaVersionV2 \<and> version \<noteq> schemaVersion then Inl errCorrupt
      else if map_of root metaName = None then Inl errCorrupt
      else if \<not> list_all (\<lambda>entry. fst entry \<in> set (expectedBuckets version)) root \<or>
              length root \<noteq> length (expectedBuckets version)
      then Inl errCorrupt
      else validateContents Q unmarshal S version (open_db (bkv Q) root))"

definition validateDatabase ::
  "'b seq_bolt \<Rightarrow> tx_decoder \<Rightarrow> BoltStore \<Rightarrow> 'b database \<Rightarrow> store_error + unit" where
  "validateDatabase Q unmarshal S root = validateDatabaseVersion Q unmarshal S schemaVersion root"

end
