(* ===== verification/Store_Open.thy ===== *)
theory Store_Open
  imports Store_Validation Budget_Operations
begin

text \<open>
  Opening the store (\<^verbatim>\<open>Open\<close> and \<^verbatim>\<open>initializeOrMigrate\<close> of \<^verbatim>\<open>internal/store/bolt_store.go\<close>):
  a new file is initialised, an existing one must carry the same bindings and is migrated from the
  two earlier schemas, and the result is validated. What the operating system answers is the
  \<open>open_env\<close> that the budget ledger's \<^verbatim>\<open>Open\<close> uses too.
\<close>

record store_options =
  so_Network :: NetworkID
  so_Source :: address
  so_Sponsor :: address
  so_Destination :: address
  so_Rescuer :: address
  so_MaxPending :: u32
  so_MaxDiscoveredTokens :: u32
  so_PolicyFingerprint :: hash

definition validOptions :: "string \<Rightarrow> store_options \<Rightarrow> bool" where
  "validOptions path options \<longleftrightarrow>
     \<not> (path = '''' \<or> sint (so_Network options) \<le> 0 \<or> so_Source options = 0 \<or> so_Sponsor options = 0 \<or>
        so_Destination options = 0 \<or> so_Rescuer options = 0 \<or> so_Source options = so_Sponsor options \<or>
        so_Source options = so_Destination options \<or> so_Sponsor options = so_Destination options \<or>
        so_MaxPending options = 0 \<or> maxConfiguredBound < so_MaxPending options \<or>
        so_MaxDiscoveredTokens options = 0 \<or> maxConfiguredBound < so_MaxDiscoveredTokens options)"

definition store_of :: "store_options \<Rightarrow> BoltStore" where
  "store_of options = \<lparr>bs_network = so_Network options, bs_source = so_Source options, bs_sponsor = so_Sponsor options,
     bs_destination = so_Destination options, bs_rescuer = so_Rescuer options, bs_maxPending = so_MaxPending options,
     bs_journalCapacity = deriveJournalCapacity (so_MaxPending options),
     bs_maxDiscoveredTokens = so_MaxDiscoveredTokens options, bs_policyFingerprint = so_PolicyFingerprint options\<rparr>"

section \<open>Buckets of a file\<close>

text \<open>\<^verbatim>\<open>CreateBucket\<close> refuses a name that is taken.\<close>

definition createBucket :: "'b bolt \<Rightarrow> 'b database \<Rightarrow> bytes \<Rightarrow> store_error + 'b database" where
  "createBucket B root name =
     (if map_of root name \<noteq> None then Inl engineErr else Inr (kv_put name (bempty B) root))"

definition putBinding :: "'b bolt \<Rightarrow> 'b \<Rightarrow> bytes \<times> bytes \<Rightarrow> store_error + 'b" where
  "putBinding B meta binding = putE B meta (fst binding) (snd binding)"

definition withMeta :: "'b database \<Rightarrow> 'b \<Rightarrow> 'b database" where
  "withMeta root meta = kv_put metaName meta root"

section \<open>Initialisation\<close>

definition initializeDatabase :: "'b bolt \<Rightarrow> BoltStore \<Rightarrow> 'b database \<Rightarrow> store_error + 'b database" where
  "initializeDatabase B S root =
     bindE (foldE (createBucket B) root (metaName # queueBuckets @ [rescueStateName, leasesName]))
       (\<lambda>root. bindE (foldE (putBinding B) (bempty B)
            [(schemaKey, encodeUint32 schemaVersion), (networkKey, encodeUint64 (bs_network S)),
             (sourceKey, word_bytes 20 (bs_source S)), (sponsorKey, word_bytes 20 (bs_sponsor S)),
             (destinationKey, word_bytes 20 (bs_destination S)), (rescuerKey, word_bytes 20 (bs_rescuer S)),
             (policyKey, id_bytes (bs_policyFingerprint S)), (maxPendingKey, encodeUint32 (bs_maxPending S)),
             (maxDiscoveredKey, encodeUint32 (bs_maxDiscoveredTokens S)), (nonceFloorKey, encodeUint64 0)])
       (\<lambda>meta. Inr (withMeta root meta)))"

section \<open>Migration\<close>

definition migrateV1 ::
  "'b seq_bolt \<Rightarrow> tx_decoder \<Rightarrow> BoltStore \<Rightarrow> 'b \<Rightarrow> 'b database \<Rightarrow> store_error + 'b database" where
  "migrateV1 Q unmarshal S meta root =
     bindE (validateDatabaseVersion Q unmarshal S schemaVersionV1 root)
       (\<lambda>_. bindE (foldE (createBucket (bkv Q)) root [rescueStateName, leasesName])
       (\<lambda>root. bindE (foldE (putBinding (bkv Q)) meta (roleBindings S @ [(nonceFloorKey, encodeUint64 0)]))
       (\<lambda>meta. bindE (putE (bkv Q) meta schemaKey (encodeUint32 schemaVersion))
       (\<lambda>meta. Inr (withMeta root meta)))))"

definition migrateV2 ::
  "'b seq_bolt \<Rightarrow> tx_decoder \<Rightarrow> BoltStore \<Rightarrow> 'b \<Rightarrow> 'b database \<Rightarrow> store_error + 'b database" where
  "migrateV2 Q unmarshal S meta root =
     bindE (validateDatabaseVersion Q unmarshal S schemaVersionV2 root)
       (\<lambda>_. bindE (migrateV2TokenOutcomes (bkv Q) unmarshal (open_db (bkv Q) root))
       (\<lambda>db. bindE (putE (bkv Q) meta schemaKey (encodeUint32 schemaVersion))
       (\<lambda>meta. Inr (withMeta (kv_put rescueStateName (rescueStateBucket db) root) meta))))"

definition currentBindings ::
  "'b bolt \<Rightarrow> BoltStore \<Rightarrow> 'b database \<Rightarrow> store_error + bool \<times> 'b database" where
  "currentBindings B S root =
     bindE (rejectE (map_of root rescueStateName = None \<or> map_of root leasesName = None) errCorrupt)
       (\<lambda>_. bindE (rejectE (\<not> list_all (bound B (metaBucket (open_db B root))) (roleBindings S)) errBinding)
       (\<lambda>_. Inr (False, root)))"

definition initializeOrMigrate ::
  "'b seq_bolt \<Rightarrow> tx_decoder \<Rightarrow> BoltStore \<Rightarrow> bool \<Rightarrow> 'b database \<Rightarrow> store_error + bool \<times> 'b database" where
  "initializeOrMigrate Q unmarshal S allowInitialize root =
     (let B = bkv Q in
      case map_of root metaName of
        None \<Rightarrow>
          if \<not> allowInitialize then Inl errCorrupt
          else if root \<noteq> [] then Inl errCorrupt
          else bindE (initializeDatabase B S root) (\<lambda>root. Inr (True, root))
      | Some meta \<Rightarrow>
          let schema = slice_of (bget B meta schemaKey) in
          if schema \<noteq> encodeUint32 schemaVersionV1 \<and> schema \<noteq> encodeUint32 schemaVersionV2 \<and>
             schema \<noteq> encodeUint32 schemaVersion then Inl errBinding
          else if \<not> list_all (bound B meta) (commonBindings S) then Inl errBinding
          else if \<not> list_all (\<lambda>name. map_of root name \<noteq> None) queueBuckets then Inl errCorrupt
          else if schema = encodeUint32 schemaVersionV1
          then bindE (migrateV1 Q unmarshal S meta root) (\<lambda>root. Inr (False, root))
          else if schema = encodeUint32 schemaVersionV2
          then bindE (migrateV2 Q unmarshal S meta root) (currentBindings B S)
          else currentBindings B S root)"

section \<open>Open\<close>

definition open_store_database ::
  "'b seq_bolt \<Rightarrow> tx_decoder \<Rightarrow> BoltStore \<Rightarrow> open_env \<Rightarrow> bool \<Rightarrow> 'b database \<Rightarrow>
     (store_error + BoltStore) \<times> 'b database option" where
  "open_store_database Q unmarshal S os created root =
     (let fail = (\<lambda>root e. (Inl e, if created then None else Some root)) in
      if \<not> os_bolt_open os then fail root errOpenFailed
      else if \<not> os_chmod os then fail root errOpenFailed
      else case db_Update (os_commit os) engineErr root (initializeOrMigrate Q unmarshal S created) of
        (Inl errBinding, root') \<Rightarrow> fail root' errBinding
      | (Inl _, root') \<Rightarrow> fail root' errCorrupt
      | (Inr initialized, root') \<Rightarrow>
          if initialized \<noteq> created then fail root' errCorrupt
          else if validateDatabase Q unmarshal S root' \<noteq> Inr () then fail root' errCorrupt
          else (Inr S, Some root'))"

definition store_Open ::
  "'b seq_bolt \<Rightarrow> tx_decoder \<Rightarrow> string \<Rightarrow> store_options \<Rightarrow> open_env \<Rightarrow> 'b database option \<Rightarrow>
     (store_error + BoltStore) \<times> 'b database option" where
  "store_Open Q unmarshal path options os file =
     (if \<not> validOptions path options then (Inl errInvalidOptions, file)
      else if \<not> os_parent_ok os then (Inl errOpenFailed, file)
      else case os_create os of
        FileCreated closed \<Rightarrow>
          if \<not> closed then (Inl errOpenFailed, None)
          else open_store_database Q unmarshal (store_of options) os True []
      | FileExists regular nonempty \<Rightarrow>
          (if \<not> regular then (Inl errOpenFailed, file)
           else if \<not> nonempty then (Inl errCorrupt, file)
           else case file of
             None \<Rightarrow> (Inl errOpenFailed, file)
           | Some root \<Rightarrow> open_store_database Q unmarshal (store_of options) os False root)
      | CreateFailed \<Rightarrow> (Inl errOpenFailed, file))"

end
