(* ===== verification/Typed_Buckets.thy ===== *)
theory Typed_Buckets
  imports Store_Model
begin

text \<open>
  Buckets seen as tables. A bucket whose keys are encoded identifiers and whose values all decode
  is the table of the decoded entries; writes of encoded entries are updates of the table, and a
  loop over the entries is a loop over its rows.
\<close>

definition bucket_table ::
  "('k \<Rightarrow> bytes) \<Rightarrow> (bytes \<Rightarrow> 'v option) \<Rightarrow> 'b bolt \<Rightarrow> 'b \<Rightarrow> 'k \<Rightarrow> 'v option" where
  "bucket_table kenc vdec B b i = Option.bind (bget B b (kenc i)) vdec"

definition shaped :: "('k \<Rightarrow> bytes) \<Rightarrow> (bytes \<Rightarrow> 'v option) \<Rightarrow> 'b bolt \<Rightarrow> 'b \<Rightarrow> bool" where
  "shaped kenc vdec B b \<longleftrightarrow> (\<forall>k v. bget B b k = Some v \<longrightarrow> (\<exists>i x. k = kenc i \<and> vdec v = Some x))"

definition row_of :: "('k \<Rightarrow> bytes) \<Rightarrow> (bytes \<Rightarrow> 'v option) \<Rightarrow> bytes \<times> bytes \<Rightarrow> 'k \<times> 'v \<Rightarrow> bool" where
  "row_of kenc vdec e p \<longleftrightarrow> fst e = kenc (fst p) \<and> vdec (snd e) = Some (snd p)"

lemma list_all2_choice: "\<forall>x \<in> set xs. \<exists>y. P x y \<Longrightarrow> \<exists>ys. list_all2 P xs ys"
proof (induction xs)
  case (Cons x xs)
  then obtain y ys where "P x y" "list_all2 P xs ys" by auto
  then show ?case by (intro exI [of _ "y # ys"]) simp
qed (auto intro: exI [of _ "[]"])

locale typed_bucket =
  fixes kenc :: "'k \<Rightarrow> bytes" and vdec :: "bytes \<Rightarrow> 'v option"
  assumes kenc_inject: "kenc i = kenc j \<longleftrightarrow> i = j"
begin

lemma tab_put:
  assumes "bolt_engine B" and "bput B b (kenc i) v = Some b'" and "vdec v = Some x"
  shows "bucket_table kenc vdec B b' = (bucket_table kenc vdec B b)(i \<mapsto> x)"
  using assms by (auto simp: bucket_table_def bolt_engine.get_put fun_eq_iff kenc_inject)

lemma shaped_put:
  assumes "bolt_engine B" and "bput B b (kenc i) v = Some b'" and "vdec v = Some x" and "shaped kenc vdec B b"
  shows "shaped kenc vdec B b'"
  using assms unfolding shaped_def by (auto simp: bolt_engine.get_put)

lemma tab_del:
  assumes "bolt_engine B" and "bdel B b (kenc i) = Some b'"
  shows "bucket_table kenc vdec B b' = (bucket_table kenc vdec B b)(i := None)"
  using assms by (auto simp: bucket_table_def bolt_engine.get_del fun_eq_iff kenc_inject)

lemma shaped_del:
  assumes "bolt_engine B" and "bdel B b k = Some b'" and "shaped kenc vdec B b"
  shows "shaped kenc vdec B b'"
  using assms unfolding shaped_def by (auto simp: bolt_engine.get_del)

lemma tab_None:
  assumes "shaped kenc vdec B b"
  shows "bget B b (kenc i) = None \<longleftrightarrow> bucket_table kenc vdec B b i = None"
proof (cases "bget B b (kenc i)")
  case (Some v)
  with assms obtain x where "vdec v = Some x" unfolding shaped_def by blast
  with Some show ?thesis by (simp add: bucket_table_def)
qed (simp add: bucket_table_def)

lemma tab_Some: "bucket_table kenc vdec B b i = Some x \<longleftrightarrow> (\<exists>v. bget B b (kenc i) = Some v \<and> vdec v = Some x)"
  by (auto simp: bucket_table_def bind_eq_Some_conv)

lemma shaped_empty: "bolt_engine B \<Longrightarrow> shaped kenc vdec B (bempty B)"
  by (simp add: shaped_def bolt_engine.get_empty)

lemma row_in_table:
  assumes B: "bolt_engine B" and rows: "list_all2 (row_of kenc vdec) (bentries B b) ps"
  shows "(i, x) \<in> set ps \<longleftrightarrow> bucket_table kenc vdec B b i = Some x"
proof
  assume "(i, x) \<in> set ps"
  then obtain n where n: "n < length ps" "ps ! n = (i, x)" by (auto simp: in_set_conv_nth)
  define e where "e = bentries B b ! n"
  have "e \<in> set (bentries B b)" "row_of kenc vdec e (i, x)"
    using n rows by (auto simp: list_all2_conv_all_nth e_def)
  moreover from this(1) have "bget B b (fst e) = Some (snd e)" by (simp add: bolt_engine.entry_get [OF B, symmetric])
  ultimately show "bucket_table kenc vdec B b i = Some x" by (auto simp: row_of_def tab_Some)
next
  assume "bucket_table kenc vdec B b i = Some x"
  then obtain v where v: "(kenc i, v) \<in> set (bentries B b)" "vdec v = Some x"
    by (auto simp: tab_Some bolt_engine.entry_get [OF B])
  then obtain n where n: "n < length (bentries B b)" "bentries B b ! n = (kenc i, v)" by (auto simp: in_set_conv_nth)
  then have "row_of kenc vdec (kenc i, v) (ps ! n)" "ps ! n \<in> set ps"
    using rows by (auto simp: list_all2_conv_all_nth)
  then show "(i, x) \<in> set ps" using v(2) by (cases "ps ! n") (simp add: row_of_def kenc_inject)
qed

lemma rows_distinct:
  assumes B: "bolt_engine B" and rows: "list_all2 (row_of kenc vdec) (bentries B b) ps"
  shows "distinct (map fst ps)"
proof -
  have "map fst (bentries B b) = map kenc (map fst ps)"
    using rows by (induction rule: list_all2_induct) (auto simp: row_of_def)
  then have "distinct (map kenc (map fst ps))"
    using bolt_engine.entries_distinct [OF B, of b] by (simp only:)
  then show ?thesis by (simp only: distinct_map)
qed

lemma rows_exist:
  assumes B: "bolt_engine B" and sh: "shaped kenc vdec B b"
  obtains ps where "list_all2 (row_of kenc vdec) (bentries B b) ps" "distinct (map fst ps)"
    "map_of ps = bucket_table kenc vdec B b"
proof -
  have "\<exists>p. row_of kenc vdec e p" if "e \<in> set (bentries B b)" for e
  proof -
    from that have "bget B b (fst e) = Some (snd e)" by (simp add: bolt_engine.entry_get [OF B, symmetric])
    with sh obtain i x where "fst e = kenc i" "vdec (snd e) = Some x" unfolding shaped_def by blast
    then show ?thesis by (intro exI [of _ "(i, x)"]) (simp add: row_of_def)
  qed
  then have "\<forall>e \<in> set (bentries B b). \<exists>p. row_of kenc vdec e p" by (rule ballI)
  from list_all2_choice [OF this] obtain ps where ps: "list_all2 (row_of kenc vdec) (bentries B b) ps" ..
  note d = rows_distinct [OF B ps]
  have "map_of ps i = bucket_table kenc vdec B b i" for i
  proof (cases "bucket_table kenc vdec B b i")
    case None
    have "map_of ps i = None"
    proof (rule ccontr)
      assume "map_of ps i \<noteq> None"
      then obtain x where "(i, x) \<in> set ps" using map_of_SomeD by fastforce
      then show False using row_in_table [OF B ps, of i x] None by simp
    qed
    then show ?thesis using None by simp
  next
    case (Some x)
    then have "(i, x) \<in> set ps" using row_in_table [OF B ps, of i x] by simp
    then have "map_of ps i = Some x" by (rule map_of_is_SomeI [OF d])
    then show ?thesis using Some by simp
  qed
  then have "map_of ps = bucket_table kenc vdec B b" by (rule ext)
  with ps d show thesis by (rule that)
qed

lemma shaped_rows:
  assumes B: "bolt_engine B" and rows: "list_all2 (row_of kenc vdec) (bentries B b) ps"
  shows "shaped kenc vdec B b"
  unfolding shaped_def
proof (intro allI impI)
  fix k v
  assume "bget B b k = Some v"
  then have "(k, v) \<in> set (bentries B b)" by (simp add: bolt_engine.entry_get [OF B])
  then obtain n where "n < length (bentries B b)" "bentries B b ! n = (k, v)" by (auto simp: in_set_conv_nth)
  then have "row_of kenc vdec (k, v) (ps ! n)" using rows by (auto simp: list_all2_conv_all_nth)
  then show "\<exists>i x. k = kenc i \<and> vdec v = Some x" by (auto simp: row_of_def)
qed

lemma tab_finite:
  assumes "bolt_engine B" and "shaped kenc vdec B b"
  shows "finite (dom (bucket_table kenc vdec B b))" and "card (dom (bucket_table kenc vdec B b)) = length (bentries B b)"
proof -
  from rows_exist [OF assms] obtain ps where ps: "list_all2 (row_of kenc vdec) (bentries B b) ps"
    "distinct (map fst ps)" "map_of ps = bucket_table kenc vdec B b" by blast
  show "finite (dom (bucket_table kenc vdec B b))" unfolding ps(3) [symmetric] by (rule finite_dom_map_of)
  have "card (dom (map_of ps)) = length (map fst ps)"
    unfolding dom_map_of_conv_image_fst set_map [symmetric] by (rule distinct_card [OF ps(2)])
  then show "card (dom (bucket_table kenc vdec B b)) = length (bentries B b)"
    unfolding ps(3) list_all2_lengthD [OF ps(1)] by simp
qed

text \<open>The entries a loop selects are the rows whose value is selected.\<close>

lemma count_rows:
  assumes B: "bolt_engine B" and sh: "shaped kenc vdec B b"
    and sel: "\<And>e x. e \<in> set (bentries B b) \<Longrightarrow> vdec (snd e) = Some x \<Longrightarrow> sel e \<longleftrightarrow> P x"
  shows "length (filter sel (bentries B b)) = card {i. \<exists>x. bucket_table kenc vdec B b i = Some x \<and> P x}"
proof -
  from rows_exist [OF B sh] obtain ps where ps: "list_all2 (row_of kenc vdec) (bentries B b) ps"
    "distinct (map fst ps)" "map_of ps = bucket_table kenc vdec B b" by blast
  from ps(1) have "list_all2 (row_of kenc vdec) (bentries B b) ps \<Longrightarrow>
      (\<And>e x. e \<in> set (bentries B b) \<Longrightarrow> vdec (snd e) = Some x \<Longrightarrow> sel e \<longleftrightarrow> P x) \<Longrightarrow>
      length (filter sel (bentries B b)) = length (filter (P \<circ> snd) ps)"
    by (induction rule: list_all2_induct) (auto simp: row_of_def)
  then have "length (filter sel (bentries B b)) = length (map fst (filter (P \<circ> snd) ps))" using ps(1) sel by simp
  also have "\<dots> = card (set (map fst (filter (P \<circ> snd) ps)))"
    by (rule distinct_card [symmetric], rule distinct_map_filter [OF ps(2)])
  also have "set (map fst (filter (P \<circ> snd) ps)) = {i. \<exists>x. bucket_table kenc vdec B b i = Some x \<and> P x}"
    unfolding ps(3) [symmetric] using ps(2) by (force simp: map_of_eq_Some_iff)
  finally show ?thesis .
qed

end

section \<open>Counting\<close>

text \<open>
  A counter that stops with an error beyond its bound counts the selected rows exactly.
\<close>

lemma foldE_count:
  assumes step: "\<And>c e. e \<in> set es \<Longrightarrow> f c e = (if sel e then if c = M then Inl err else Inr (c + 1) else Inr c)"
    and c: "unat c \<le> unat (M :: 'w::len word)"
  shows "foldE f c es =
    (if unat c + length (filter sel es) \<le> unat M then Inr (c + word_of_nat (length (filter sel es))) else Inl err)"
  using step c
proof (induction es arbitrary: c)
  case (Cons e es)
  have IH: "unat d \<le> unat M \<Longrightarrow> foldE f d es =
      (if unat d + length (filter sel es) \<le> unat M then Inr (d + word_of_nat (length (filter sel es))) else Inl err)" for d
    using Cons.IH Cons.prems(1) by simp
  show ?case
  proof (cases "sel e \<and> c \<noteq> M")
    case True
    then have "unat c < unat M" using Cons.prems(2) by (metis le_neq_implies_less word_unat_eq_iff)
    moreover have "unat M < 2 ^ LENGTH('w)" by (rule unsigned_less)
    ultimately have "Suc (unat c) < 2 ^ LENGTH('w)" by linarith
    then have "unat (c + 1) = unat c + 1" by (simp add: unat_word_ariths)
    with True IH [of "c + 1"] \<open>unat c < unat M\<close> Cons.prems(1) [of e c] show ?thesis by (simp add: ac_simps)
  next
    case False
    with IH [OF Cons.prems(2)] Cons.prems show ?thesis by auto
  qed
qed simp

lemma unat_count: "unat (c :: 'w word) + n \<le> unat (M :: 'w::len word) \<Longrightarrow> unat (c + word_of_nat n) = unat c + n"
proof -
  assume "unat c + n \<le> unat M"
  moreover have "unat M < 2 ^ LENGTH('w)" by (rule unsigned_less)
  ultimately have "n < 2 ^ LENGTH('w)" "unat c + n < 2 ^ LENGTH('w)" by linarith+
  then show ?thesis by (simp add: unat_word_ariths unsigned_of_nat take_bit_nat_eq_self)
qed

section \<open>Ordered keys\<close>

text \<open>The byte order of big-endian keys is the order of the numbers.\<close>

lemma snoc_less:
  assumes "length xs = length ys"
  shows "xs @ [a] < ys @ [b :: 'a::linorder] \<longleftrightarrow> xs < ys \<or> xs = ys \<and> a < b"
  using assms by (induction rule: list_induct2) auto

lemma be_bytes_less: "x < 256 ^ n \<Longrightarrow> y < 256 ^ n \<Longrightarrow> be_bytes n x < be_bytes n y \<longleftrightarrow> x < y"
proof (induction n arbitrary: x y)
  case (Suc n)
  have d: "x div 256 < 256 ^ n" "y div 256 < 256 ^ n" using Suc.prems by (auto simp: less_mult_imp_div_less)
  have e: "be_bytes n (x div 256) = be_bytes n (y div 256) \<longleftrightarrow> x div 256 = y div 256"
    using be_value_be_bytes [of n "x div 256"] be_value_be_bytes [of n "y div 256"] d by (metis mod_less)
  have w: "(word_of_nat x :: byte) < word_of_nat y \<longleftrightarrow> x mod 256 < y mod 256"
    by (simp add: word_less_nat_alt unat_of_nat)
  have "be_bytes (Suc n) x < be_bytes (Suc n) y \<longleftrightarrow>
      x div 256 < y div 256 \<or> x div 256 = y div 256 \<and> x mod 256 < y mod 256"
    using Suc.IH [OF d] e w by (simp add: snoc_less)
  also have "\<dots> \<longleftrightarrow> x < y"
    using div_mult_mod_eq [of x 256] div_mult_mod_eq [of y 256] mod_less_divisor [of 256 x] mod_less_divisor [of 256 y]
    by linarith
  finally show ?case .
qed simp

lemma encodeUint64_less [simp]: "encodeUint64 m < encodeUint64 n \<longleftrightarrow> m < n"
proof -
  have "unat m < 256 ^ 8" "unat n < 256 ^ 8" using unat_bound [of m] unat_bound [of n] by simp_all
  then show ?thesis by (simp add: encodeUint64_def word_bytes_def be_bytes_less word_less_nat_alt)
qed

end
