(* ===== verification/Queue_View.thy ===== *)
theory Queue_View
  imports Store_Canonical Typed_Buckets
begin

text \<open>
  The queue and the chain as tables: candidates, the ready queue in both directions, the block
  index, incidents, tombstones and blocks. Every elementary write of the operations is an update
  of these tables.
\<close>

section \<open>Tables\<close>

definition indexed :: "RescueCandidate \<Rightarrow> bool" where
  "indexed c \<longleftrightarrow> cand_BlockHash c \<noteq> 0 \<and> cand_Kind c \<noteq> CandidateFastToken"

definition position :: "RescueCandidate \<Rightarrow> u64 \<times> hash \<times> CandidateID" where
  "position c = (cand_BlockNumber c, cand_BlockHash c, cand_ID c)"

definition index_key :: "u64 \<times> hash \<times> CandidateID \<Rightarrow> bytes" where
  "index_key p = word_bytes 8 (fst p) @ id_bytes (fst (snd p)) @ id_bytes (snd (snd p))"

definition id_value :: "bytes \<Rightarrow> CandidateID option" where
  "id_value v = (if length v = 32 then Some (bytes_word v) else None)"

definition mark_value :: "bytes \<Rightarrow> unit option" where
  "mark_value v = (if v = [recordVersion] then Some () else None)"

definition block_value :: "BoltStore \<Rightarrow> bytes \<Rightarrow> blockRecord option" where
  "block_value S v = decodeBlock v (bs_journalCapacity S)"

record view =
  vc :: "CandidateID \<Rightarrow> candidateRecord option"
  vp :: "CandidateID \<Rightarrow> u64 option"
  vo :: "u64 \<Rightarrow> CandidateID option"
  vx :: "u64 \<times> hash \<times> CandidateID \<Rightarrow> unit option"
  vi :: "CandidateID \<Rightarrow> Incident option"
  vt :: "u64 \<Rightarrow> CandidateID option"
  vb :: "u64 \<Rightarrow> blockRecord option"
  vs :: u64
  vts :: u64

definition view_of :: "'b seq_bolt \<Rightarrow> BoltStore \<Rightarrow> 'b store_db \<Rightarrow> view" where
  "view_of Q S db = \<lparr>
     vc = bucket_table id_bytes decodeCandidateRecord (bkv Q) (candidatesBucket db),
     vp = bucket_table id_bytes decodeUint64 (bkv Q) (pendingBucket db),
     vo = bucket_table encodeUint64 id_value (bkv Q) (readyOrderBucket db),
     vx = bucket_table index_key mark_value (bkv Q) (blockIndexBucket db),
     vi = bucket_table id_bytes decodeIncident (bkv Q) (incidentsBucket db),
     vt = bucket_table encodeUint64 id_value (bkv Q) (tombstonesBucket db),
     vb = bucket_table encodeUint64 (block_value S) (bkv Q) (blocksBucket db),
     vs = bseq Q (readyOrderBucket db),
     vts = bseq Q (tombstonesBucket db)\<rparr>"

definition queue_shaped :: "'b seq_bolt \<Rightarrow> BoltStore \<Rightarrow> 'b store_db \<Rightarrow> bool" where
  "queue_shaped Q S db \<longleftrightarrow>
     shaped id_bytes decodeCandidateRecord (bkv Q) (candidatesBucket db) \<and>
     shaped id_bytes decodeUint64 (bkv Q) (pendingBucket db) \<and>
     shaped encodeUint64 id_value (bkv Q) (readyOrderBucket db) \<and>
     shaped index_key mark_value (bkv Q) (blockIndexBucket db) \<and>
     shaped id_bytes decodeIncident (bkv Q) (incidentsBucket db) \<and>
     shaped encodeUint64 id_value (bkv Q) (tombstonesBucket db) \<and>
     shaped encodeUint64 (block_value S) (bkv Q) (blocksBucket db)"

text \<open>The buckets outside the tables.\<close>

definition rest_of :: "'b store_db \<Rightarrow> 'b \<times> 'b \<times> 'b" where
  "rest_of db = (discoveredBucket db, rescueStateBucket db, leasesBucket db)"

lemma index_key_inject: "index_key p = index_key q \<longleftrightarrow> p = q"
  by (cases p; cases q) (auto simp: index_key_def fixed_fields_inject)

interpretation cand_rows: typed_bucket id_bytes decodeCandidateRecord
  by unfold_locales simp

interpretation pend_rows: typed_bucket id_bytes decodeUint64
  by unfold_locales simp

interpretation order_rows: typed_bucket encodeUint64 id_value
  by unfold_locales simp

interpretation index_rows: typed_bucket index_key mark_value
  by unfold_locales (rule index_key_inject)

interpretation inc_rows: typed_bucket id_bytes decodeIncident
  by unfold_locales simp

interpretation block_rows: typed_bucket encodeUint64 "block_value S" for S
  by unfold_locales simp

lemma candidateBlockIndexKey_eq:
  "candidateBlockIndexKey c = (if indexed c then Some (index_key (position c)) else None)"
  by (simp add: candidateBlockIndexKey_def indexed_def index_key_def position_def append_defs Let_def)

lemma id_value_id_bytes [simp]: "id_value (id_bytes i) = Some i"
  by (simp add: id_value_def bytes_word_word_bytes)

lemma id_value_Some: "id_value v = Some i \<longleftrightarrow> v = id_bytes i"
  by (auto simp: id_value_def bytes_word_word_bytes word_bytes_bytes_word split: if_splits)

lemma mark_value_simps [simp]: "mark_value [recordVersion] = Some ()" "mark_value v = Some u \<longleftrightarrow> v = [recordVersion]"
  by (simp_all add: mark_value_def)

section \<open>Lookups\<close>

lemma view_sel [simp]:
  "vc (view_of Q S db) = bucket_table id_bytes decodeCandidateRecord (bkv Q) (candidatesBucket db)"
  "vp (view_of Q S db) = bucket_table id_bytes decodeUint64 (bkv Q) (pendingBucket db)"
  "vo (view_of Q S db) = bucket_table encodeUint64 id_value (bkv Q) (readyOrderBucket db)"
  "vx (view_of Q S db) = bucket_table index_key mark_value (bkv Q) (blockIndexBucket db)"
  "vi (view_of Q S db) = bucket_table id_bytes decodeIncident (bkv Q) (incidentsBucket db)"
  "vt (view_of Q S db) = bucket_table encodeUint64 id_value (bkv Q) (tombstonesBucket db)"
  "vb (view_of Q S db) = bucket_table encodeUint64 (block_value S) (bkv Q) (blocksBucket db)"
  "vs (view_of Q S db) = bseq Q (readyOrderBucket db)"
  "vts (view_of Q S db) = bseq Q (tombstonesBucket db)"
  by (simp_all add: view_of_def)

lemma engine_of: "seq_engine Q \<Longrightarrow> bolt_engine (bkv Q)"
  by (simp add: seq_engine_def)

lemma decode_empty [simp]: "decodeCandidateRecord [] = None" "decodeIncident [] = None" "decodeBlock [] n = None"
  by (simp_all add: decodeCandidateRecord_def decodeIncident_def decodeBlock_def)

lemma decode_stored:
  "decodeCandidateRecord (slice_of (bget B b (id_bytes i))) = bucket_table id_bytes decodeCandidateRecord B b i"
  "decodeIncident (slice_of (bget B b (id_bytes i))) = bucket_table id_bytes decodeIncident B b i"
  "decodeBlock (slice_of (bget B b (blockNumberKey n))) (bs_journalCapacity S) = bucket_table encodeUint64 (block_value S) B b n"
  "decodeUint64 (slice_of (bget B b (id_bytes i))) = bucket_table id_bytes decodeUint64 B b i"
  by (simp_all add: slice_of_def bucket_table_def block_value_def blockNumberKey_def decodeUint64_def split: option.split)

section \<open>Elementary writes\<close>

lemma putE_Inr: "putE B b k v = Inr b' \<longleftrightarrow> bput B b k v = Some b'"
  by (simp add: putE_def flow_simps)

lemma delE_Inr: "delE B b k = Inr b' \<longleftrightarrow> bdel B b k = Some b'"
  by (simp add: delE_def flow_simps)

lemmas step_simps = bindE_Inr rejectE_Inr optE_Inr putE_Inr delE_Inr

lemma zeroTime_ok: "time_ok zeroTime"
  by code_simp

lemma decode_encode_zero:
  "encodeCandidateRecord r = Some bs \<Longrightarrow> cr_RetryAt r = zeroTime \<Longrightarrow> decodeCandidateRecord bs = Some r"
  by (rule decode_encode_candidate) (simp_all add: zeroTime_ok)

lemma bnext_get:
  assumes "seq_engine Q" and "bnext Q b = Some (n, b')"
  shows "bget (bkv Q) b' = bget (bkv Q) b" "n = bseq Q b + 1" "bseq Q b' = n"
proof -
  show "bget (bkv Q) b' = bget (bkv Q) b"
    using seq_engine.next_entries [OF assms] bolt_engine.get_entries [OF engine_of [OF assms(1)]]
    by (simp add: fun_eq_iff)
  show "n = bseq Q b + 1" "bseq Q b' = n" using seq_engine.next_seq [OF assms] by simp_all
qed

lemma bnext_table:
  assumes "seq_engine Q" and "bnext Q b = Some (n, b')"
  shows "bucket_table ke vd (bkv Q) b' = bucket_table ke vd (bkv Q) b" "shaped ke vd (bkv Q) b' = shaped ke vd (bkv Q) b"
  by (simp_all add: bucket_table_def shaped_def fun_eq_iff bnext_get(1) [OF assms])

text \<open>What a step leaves: well-shaped buckets with the given tables, and nothing else changed.\<close>

definition becomes :: "'b seq_bolt \<Rightarrow> BoltStore \<Rightarrow> 'b store_db \<Rightarrow> 'b store_db \<Rightarrow> view \<Rightarrow> bool" where
  "becomes Q S db db' v \<longleftrightarrow>
     queue_shaped Q S db' \<and> rest_of db' = rest_of db \<and> metaBucket db' = metaBucket db \<and> view_of Q S db' = v"

lemma becomes_refl: "queue_shaped Q S db \<Longrightarrow> becomes Q S db db (view_of Q S db)"
  by (simp add: becomes_def)

lemma becomes_trans: "becomes Q S db db1 v1 \<Longrightarrow> becomes Q S db1 db2 v2 \<Longrightarrow> becomes Q S db db2 v2"
  by (simp add: becomes_def)

lemma promoteOne_view:
  assumes Q: "seq_engine Q" and ok: "queue_shaped Q S db" and p: "promoteOne Q db (id_bytes i, r) = Inr db'"
  defines "v \<equiv> view_of Q S db"
  shows "\<exists>n. n = vs v + 1 \<and> n \<noteq> 0 \<and> vo v n = None \<and>
    becomes Q S db db' (v\<lparr>vc := (vc v)(i \<mapsto> r\<lparr>cr_Status := CandidateReady, cr_RetryAt := zeroTime\<rparr>),
      vp := (vp v)(i \<mapsto> n), vo := (vo v)(n \<mapsto> i), vs := n\<rparr>)"
proof -
  note B = engine_of [OF Q]
  from p obtain e c n o1 o2 pd where e: "encodeCandidateRecord (r\<lparr>cr_Status := CandidateReady, cr_RetryAt := zeroTime\<rparr>) = Some e"
    and c: "bput (bkv Q) (candidatesBucket db) (id_bytes i) e = Some c"
    and n: "bnext Q (readyOrderBucket db) = Some (n, o1)" "n \<noteq> 0" "bget (bkv Q) o1 (encodeUint64 n) = None"
    and o2: "bput (bkv Q) o1 (encodeUint64 n) (id_bytes i) = Some o2"
    and pd: "bput (bkv Q) (pendingBucket db) (id_bytes i) (encodeUint64 n) = Some pd"
    and db': "db' = db\<lparr>candidatesBucket := c, readyOrderBucket := o2, pendingBucket := pd\<rparr>"
    by (auto simp: promoteOne_def step_simps)
  note d = decode_encode_zero [OF e]
  have sh: "queue_shaped Q S db'"
    using ok cand_rows.shaped_put [OF B c d] order_rows.shaped_put [OF B o2] pend_rows.shaped_put [OF B pd]
    by (simp add: queue_shaped_def db' bnext_table(2) [OF Q n(1)])
  have "bseq Q o2 = n" using seq_engine.seq_put [OF Q o2] bnext_get(3) [OF Q n(1)] by simp
  then have "view_of Q S db' = v\<lparr>vc := (vc v)(i \<mapsto> r\<lparr>cr_Status := CandidateReady, cr_RetryAt := zeroTime\<rparr>),
      vp := (vp v)(i \<mapsto> n), vo := (vo v)(n \<mapsto> i), vs := n\<rparr>"
    using cand_rows.tab_put [OF B c d] order_rows.tab_put [OF B o2] pend_rows.tab_put [OF B pd]
    by (simp add: view_of_def v_def db' bnext_table(1) [OF Q n(1)])
  moreover have "vo v n = None" using n(3) by (simp add: v_def bucket_table_def bnext_get(1) [OF Q n(1)])
  ultimately show ?thesis
    using n(2) bnext_get(2) [OF Q n(1)] sh
    by (intro exI [of _ n]) (simp add: becomes_def rest_of_def db' v_def)
qed

lemma put_record_view:
  assumes Q: "seq_engine Q" and ok: "queue_shaped Q S db"
    and e: "encodeCandidateRecord r = Some e" and t: "time_ok (cr_RetryAt r)"
    and b: "bput (bkv Q) (candidatesBucket db) (id_bytes i) e = Some b"
  shows "becomes Q S db (db\<lparr>candidatesBucket := b\<rparr>) ((view_of Q S db)\<lparr>vc := (vc (view_of Q S db))(i \<mapsto> r)\<rparr>)"
proof -
  note B = engine_of [OF Q] and d = decode_encode_candidate [OF e t]
  show ?thesis
    using ok cand_rows.shaped_put [OF B b d] cand_rows.tab_put [OF B b d]
    by (simp add: becomes_def queue_shaped_def rest_of_def view_of_def)
qed

lemma insertCandidate_view:
  assumes Q: "seq_engine Q" and ok: "queue_shaped Q S db" and p: "insertCandidate (bkv Q) st c db = Inr db'"
  defines "v \<equiv> view_of Q S db"
  shows "becomes Q S db db' (v\<lparr>vc := (vc v)(cand_ID c \<mapsto> \<lparr>cr_Status = st, cr_RetryAt = zeroTime, cr_Candidate = c\<rparr>),
      vx := (if indexed c then (vx v)(position c \<mapsto> ()) else vx v)\<rparr>)"
proof -
  note B = engine_of [OF Q]
  from p obtain e b where e: "encodeCandidateRecord \<lparr>cr_Status = st, cr_RetryAt = zeroTime, cr_Candidate = c\<rparr> = Some e"
    and b: "bput (bkv Q) (candidatesBucket db) (id_bytes (cand_ID c)) e = Some b"
    and x: "indexCandidateBlock (bkv Q) c (db\<lparr>candidatesBucket := b\<rparr>) = Inr db'"
    by (auto simp: insertCandidate_def step_simps)
  have 1: "becomes Q S db (db\<lparr>candidatesBucket := b\<rparr>)
      (v\<lparr>vc := (vc v)(cand_ID c \<mapsto> \<lparr>cr_Status = st, cr_RetryAt = zeroTime, cr_Candidate = c\<rparr>)\<rparr>)"
    unfolding v_def by (rule put_record_view [OF Q ok e _ b]) (simp add: zeroTime_ok)
  show ?thesis
  proof (cases "indexed c")
    case False
    with x 1 show ?thesis by (simp add: indexCandidateBlock_def candidateBlockIndexKey_eq)
  next
    case True
    with x obtain bx where bx: "bput (bkv Q) (blockIndexBucket db) (index_key (position c)) [recordVersion] = Some bx"
      and db': "db' = db\<lparr>candidatesBucket := b, blockIndexBucket := bx\<rparr>"
      by (auto simp: indexCandidateBlock_def candidateBlockIndexKey_eq step_simps)
    show ?thesis
      using 1 True ok index_rows.shaped_put [OF B bx] index_rows.tab_put [OF B bx]
      by (simp add: becomes_def queue_shaped_def rest_of_def view_of_def v_def db')
  qed
qed

lemma leaveReady_view:
  assumes Q: "seq_engine Q" and ok: "queue_shaped Q S db" and p: "leaveReady (bkv Q) r i db = Inr db'"
    and t: "time_ok (cr_RetryAt r)"
  defines "v \<equiv> view_of Q S db"
  shows "validateCandidateRecord r \<and> (\<exists>n. vp v i = Some n \<and> vo v n = Some i \<and>
    becomes Q S db db' (v\<lparr>vc := (vc v)(i \<mapsto> r), vo := (vo v)(n := None), vp := (vp v)(i := None)\<rparr>))"
proof -
  note B = engine_of [OF Q]
  from p obtain e c o1 pd k where e: "encodeCandidateRecord r = Some e"
    and c: "bput (bkv Q) (candidatesBucket db) (id_bytes i) e = Some c"
    and k: "k = slice_of (bget (bkv Q) (pendingBucket db) (id_bytes i))" "length k = 8"
      "slice_of (bget (bkv Q) (readyOrderBucket db) k) = id_bytes i"
    and o1: "bdel (bkv Q) (readyOrderBucket db) k = Some o1"
    and pd: "bdel (bkv Q) (pendingBucket db) (id_bytes i) = Some pd"
    and db': "db' = db\<lparr>candidatesBucket := c, readyOrderBucket := o1, pendingBucket := pd\<rparr>"
    by (auto simp: leaveReady_def step_simps Let_def)
  from k(2) obtain n where n: "k = encodeUint64 n" using decodeUint64_Some [of k] by (auto simp: decodeUint64_def)
  have "length (id_bytes i) = 32" by simp
  then have "id_bytes i \<noteq> []" by force
  with k(3) have "bget (bkv Q) (readyOrderBucket db) k = Some (id_bytes i)"
    by (simp add: slice_of_def split: option.splits)
  then have o: "vo v n = Some i" by (simp add: v_def bucket_table_def n)
  have "bget (bkv Q) (pendingBucket db) (id_bytes i) = Some k" using k(1,2) by (simp add: slice_of_def split: option.splits)
  then have pn: "vp v i = Some n" by (simp add: v_def bucket_table_def n)
  note d = decode_encode_candidate [OF e t]
  have "becomes Q S db db' (v\<lparr>vc := (vc v)(i \<mapsto> r), vo := (vo v)(n := None), vp := (vp v)(i := None)\<rparr>)"
    using ok cand_rows.shaped_put [OF B c d] cand_rows.tab_put [OF B c d]
      order_rows.shaped_del [OF B o1] order_rows.tab_del [OF B o1 [unfolded n]]
      pend_rows.shaped_del [OF B pd] pend_rows.tab_del [OF B pd] seq_engine.seq_del [OF Q o1]
    by (simp add: becomes_def queue_shaped_def rest_of_def view_of_def v_def db')
  moreover have "validateCandidateRecord r" using e by (simp add: encodeCandidateRecord_def split: if_splits)
  ultimately show ?thesis using o pn by blast
qed

section \<open>Deletions\<close>

text \<open>Each bucket deletion is an update of its table.\<close>

lemma del_candidate_view:
  assumes "seq_engine Q" and "queue_shaped Q S db" and "bdel (bkv Q) (candidatesBucket db) (id_bytes i) = Some b"
  shows "becomes Q S db (db\<lparr>candidatesBucket := b\<rparr>) ((view_of Q S db)\<lparr>vc := (vc (view_of Q S db))(i := None)\<rparr>)"
  using assms cand_rows.shaped_del [OF engine_of [OF assms(1)] assms(3)] cand_rows.tab_del [OF engine_of [OF assms(1)] assms(3)]
  by (simp add: becomes_def queue_shaped_def rest_of_def view_of_def)

lemma del_pending_view:
  assumes "seq_engine Q" and "queue_shaped Q S db" and "bdel (bkv Q) (pendingBucket db) (id_bytes i) = Some b"
  shows "becomes Q S db (db\<lparr>pendingBucket := b\<rparr>) ((view_of Q S db)\<lparr>vp := (vp (view_of Q S db))(i := None)\<rparr>)"
  using assms pend_rows.shaped_del [OF engine_of [OF assms(1)] assms(3)] pend_rows.tab_del [OF engine_of [OF assms(1)] assms(3)]
  by (simp add: becomes_def queue_shaped_def rest_of_def view_of_def)

lemma del_index_view:
  assumes "seq_engine Q" and "queue_shaped Q S db" and "bdel (bkv Q) (blockIndexBucket db) (index_key p) = Some b"
  shows "becomes Q S db (db\<lparr>blockIndexBucket := b\<rparr>) ((view_of Q S db)\<lparr>vx := (vx (view_of Q S db))(p := None)\<rparr>)"
  using assms index_rows.shaped_del [OF engine_of [OF assms(1)] assms(3)] index_rows.tab_del [OF engine_of [OF assms(1)] assms(3)]
  by (simp add: becomes_def queue_shaped_def rest_of_def view_of_def)

lemma del_incident_view:
  assumes "seq_engine Q" and "queue_shaped Q S db" and "bdel (bkv Q) (incidentsBucket db) (id_bytes i) = Some b"
  shows "becomes Q S db (db\<lparr>incidentsBucket := b\<rparr>) ((view_of Q S db)\<lparr>vi := (vi (view_of Q S db))(i := None)\<rparr>)"
  using assms inc_rows.shaped_del [OF engine_of [OF assms(1)] assms(3)] inc_rows.tab_del [OF engine_of [OF assms(1)] assms(3)]
  by (simp add: becomes_def queue_shaped_def rest_of_def view_of_def)

lemma del_tombstone_view:
  assumes "seq_engine Q" and "queue_shaped Q S db" and "bdel (bkv Q) (tombstonesBucket db) (encodeUint64 n) = Some b"
  shows "becomes Q S db (db\<lparr>tombstonesBucket := b\<rparr>) ((view_of Q S db)\<lparr>vt := (vt (view_of Q S db))(n := None)\<rparr>)"
  using assms order_rows.shaped_del [OF engine_of [OF assms(1)] assms(3)] order_rows.tab_del [OF engine_of [OF assms(1)] assms(3)]
    seq_engine.seq_del [OF assms(1,3)]
  by (simp add: becomes_def queue_shaped_def rest_of_def view_of_def)

lemma del_block_view:
  assumes "seq_engine Q" and "queue_shaped Q S db" and "bdel (bkv Q) (blocksBucket db) (blockNumberKey n) = Some b"
  shows "becomes Q S db (db\<lparr>blocksBucket := b\<rparr>) ((view_of Q S db)\<lparr>vb := (vb (view_of Q S db))(n := None)\<rparr>)"
  using assms block_rows.shaped_del [OF engine_of [OF assms(1)] assms(3), of S]
    block_rows.tab_del [OF engine_of [OF assms(1)] assms(3) [unfolded blockNumberKey_def], of S]
  by (simp add: becomes_def queue_shaped_def rest_of_def view_of_def)

lemma becomes_shaped: "becomes Q S db db' v \<Longrightarrow> queue_shaped Q S db'"
  by (simp add: becomes_def)

lemma becomes_view: "becomes Q S db db' v \<Longrightarrow> view_of Q S db' = v"
  by (simp add: becomes_def)

text \<open>Forgetting a candidate together with its incident.\<close>

lemma forget_view:
  assumes Q: "seq_engine Q" and ok: "queue_shaped Q S db"
    and i: "bdel (bkv Q) (incidentsBucket db) (id_bytes i) = Some bi"
    and c: "bdel (bkv Q) (candidatesBucket db) (id_bytes i) = Some bc"
  defines "v \<equiv> view_of Q S db"
  shows "becomes Q S db (db\<lparr>incidentsBucket := bi, candidatesBucket := bc\<rparr>)
    (v\<lparr>vi := (vi v)(i := None), vc := (vc v)(i := None)\<rparr>)"
proof -
  note 1 = del_incident_view [OF Q ok i]
  have c': "bdel (bkv Q) (candidatesBucket (db\<lparr>incidentsBucket := bi\<rparr>)) (id_bytes i) = Some bc" using c by simp
  note 2 = del_candidate_view [OF Q becomes_shaped [OF 1] c']
  from becomes_trans [OF 1 2] show ?thesis
    using becomes_view [OF 1] by (simp add: v_def view_of_def)
qed

lemma deleteAcknowledged_view:
  assumes Q: "seq_engine Q" and ok: "queue_shaped Q S db"
    and p: "deleteAcknowledgedCandidate (bkv Q) S i db = Inr db'"
  defines "v \<equiv> view_of Q S db"
  obtains r where "vc v i = Some r" "cr_Status r = CandidateAcknowledged" "cand_ID (cr_Candidate r) = i"
    "if indexed (cr_Candidate r) \<and> vb v (cand_BlockNumber (cr_Candidate r)) \<noteq> None
     then db' = db \<and> (\<exists>b. vb v (cand_BlockNumber (cr_Candidate r)) = Some b \<and>
        cp_BlockHash (br_Checkpoint b) = cand_BlockHash (cr_Candidate r) \<and> i \<in> set (br_Members b))
     else becomes Q S db db' (v\<lparr>vx := (if indexed (cr_Candidate r) then (vx v)(position (cr_Candidate r) := None) else vx v),
        vi := (vi v)(i := None), vc := (vc v)(i := None)\<rparr>)"
proof -
  from p obtain r where r: "vc v i = Some r" "cr_Status r = CandidateAcknowledged" "cand_ID (cr_Candidate r) = i"
    by (auto simp: deleteAcknowledgedCandidate_def step_simps decode_stored v_def)
  define n where "n = cand_BlockNumber (cr_Candidate r)"
  have blk: "bget (bkv Q) (blocksBucket db) (blockNumberKey n) = None \<longleftrightarrow> vb v n = None"
    using ok block_rows.tab_None [of S "bkv Q" "blocksBucket db" n]
    by (simp add: queue_shaped_def v_def blockNumberKey_def)
  show thesis
  proof (cases "indexed (cr_Candidate r) \<and> vb v n \<noteq> None")
    case True
    then obtain d where d: "bget (bkv Q) (blocksBucket db) (blockNumberKey n) = Some d" using blk by auto
    with p r True have "db' = db \<and> (\<exists>b. decodeBlock d (bs_journalCapacity S) = Some b \<and>
        cp_BlockHash (br_Checkpoint b) = cand_BlockHash (cr_Candidate r) \<and> i \<in> set (br_Members b))"
      by (auto simp: deleteAcknowledgedCandidate_def step_simps decode_stored v_def candidateBlockIndexKey_eq n_def Let_def)
    then have "db' = db \<and> (\<exists>b. vb v n = Some b \<and>
        cp_BlockHash (br_Checkpoint b) = cand_BlockHash (cr_Candidate r) \<and> i \<in> set (br_Members b))"
      using d by (auto simp: v_def bucket_table_def block_value_def blockNumberKey_def)
    with True r show ?thesis by (intro that [OF r]) (simp add: n_def)
  next
    case False
    show ?thesis
    proof (cases "indexed (cr_Candidate r)")
      case True
      with False have "bget (bkv Q) (blocksBucket db) (blockNumberKey n) = None" using blk by simp
      with p r True obtain bx bi bc where x: "bdel (bkv Q) (blockIndexBucket db) (index_key (position (cr_Candidate r))) = Some bx"
        and bi: "bdel (bkv Q) (incidentsBucket db) (id_bytes i) = Some bi"
        and bc: "bdel (bkv Q) (candidatesBucket db) (id_bytes i) = Some bc"
        and db': "db' = db\<lparr>blockIndexBucket := bx, incidentsBucket := bi, candidatesBucket := bc\<rparr>"
        by (auto simp: deleteAcknowledgedCandidate_def step_simps decode_stored v_def candidateBlockIndexKey_eq n_def Let_def)
      note 1 = del_index_view [OF Q ok x]
      have "bdel (bkv Q) (incidentsBucket (db\<lparr>blockIndexBucket := bx\<rparr>)) (id_bytes i) = Some bi"
        "bdel (bkv Q) (candidatesBucket (db\<lparr>blockIndexBucket := bx\<rparr>)) (id_bytes i) = Some bc" using bi bc by simp_all
      note 2 = forget_view [OF Q becomes_shaped [OF 1] this]
      have "becomes Q S db db' (v\<lparr>vx := (vx v)(position (cr_Candidate r) := None),
          vi := (vi v)(i := None), vc := (vc v)(i := None)\<rparr>)"
        using becomes_trans [OF 1 2] becomes_view [OF 1] by (simp add: v_def view_of_def db')
      with True False r show ?thesis by (intro that [OF r]) (simp add: n_def)
    next
      case no: False
      with p r obtain bi bc where bi: "bdel (bkv Q) (incidentsBucket db) (id_bytes i) = Some bi"
        and bc: "bdel (bkv Q) (candidatesBucket db) (id_bytes i) = Some bc"
        and db': "db' = db\<lparr>incidentsBucket := bi, candidatesBucket := bc\<rparr>"
        by (auto simp: deleteAcknowledgedCandidate_def step_simps decode_stored v_def candidateBlockIndexKey_eq Let_def)
      from forget_view [OF Q ok bi bc] no r show ?thesis by (intro that [OF r]) (simp add: db' v_def view_of_def)
    qed
  qed
qed

section \<open>Trimming\<close>

lemma removeTombstone_Inr:
  "removeTombstone B i b e = Inr b' \<longleftrightarrow> length (fst e) = 8 \<and> length (snd e) = 32 \<and>
     (if snd e = id_bytes i then bdel B b (fst e) = Some b' else b' = b)"
  by (auto simp: removeTombstone_def delE_Inr)

lemma removeTombstones_fold:
  assumes Q: "seq_engine Q" and "foldE (removeTombstone (bkv Q) i) b es = Inr b'"
  shows "bget (bkv Q) b' k = (if (k, id_bytes i) \<in> set es then None else bget (bkv Q) b k) \<and> bseq Q b' = bseq Q b"
  using assms(2)
proof (induction es arbitrary: b)
  case (Cons e es)
  from Cons.prems obtain b1 where b1: "if snd e = id_bytes i then bdel (bkv Q) b (fst e) = Some b1 else b1 = b"
    and f: "foldE (removeTombstone (bkv Q) i) b1 es = Inr b'"
    unfolding foldE_Cons_Inr removeTombstone_Inr by blast
  show ?case
  proof (cases "snd e = id_bytes i")
    case True
    with b1 have d: "bdel (bkv Q) b (fst e) = Some b1" by simp
    show ?thesis
      using Cons.IH [OF f] bolt_engine.get_del [OF engine_of [OF Q] d] seq_engine.seq_del [OF Q d] True
      by (cases e) auto
  next
    case False
    with b1 Cons.IH [OF f] show ?thesis by (cases e) auto
  qed
qed simp

lemma removeCandidateTombstones_view:
  assumes Q: "seq_engine Q" and ok: "queue_shaped Q S db" and p: "removeCandidateTombstones (bkv Q) i db = Inr db'"
  defines "v \<equiv> view_of Q S db"
  shows "becomes Q S db db' (v\<lparr>vt := (\<lambda>n. if vt v n = Some i then None else vt v n)\<rparr>)"
proof -
  note B = engine_of [OF Q]
  from p obtain b where f: "foldE (removeTombstone (bkv Q) i) (tombstonesBucket db) (bentries (bkv Q) (tombstonesBucket db)) = Inr b"
    and db': "db' = db\<lparr>tombstonesBucket := b\<rparr>"
    by (auto simp: removeCandidateTombstones_def step_simps)
  have g: "bget (bkv Q) b k = (if bget (bkv Q) (tombstonesBucket db) k = Some (id_bytes i) then None
      else bget (bkv Q) (tombstonesBucket db) k)" for k
    using removeTombstones_fold [OF Q f, of k] by (simp add: bolt_engine.entry_get [OF B])
  have "shaped encodeUint64 id_value (bkv Q) b" using ok by (auto simp: queue_shaped_def shaped_def g)
  moreover have "bucket_table encodeUint64 id_value (bkv Q) b n =
      (if vt v n = Some i then None else vt v n)" for n
    by (auto simp: bucket_table_def g v_def id_value_Some bind_eq_Some_conv split: option.splits)
  moreover have "bseq Q b = bseq Q (tombstonesBucket db)" using removeTombstones_fold [OF Q f] by blast
  ultimately show ?thesis
    using ok by (simp add: becomes_def queue_shaped_def rest_of_def view_of_def v_def db' fun_eq_iff)
qed

definition trimmed :: "CandidateID \<Rightarrow> RescueCandidate \<Rightarrow> view \<Rightarrow> view" where
  "trimmed i c v = v\<lparr>vx := (if indexed c then (vx v)(position c := None) else vx v), vi := (vi v)(i := None),
     vc := (vc v)(i := None), vt := (\<lambda>n. if vt v n = Some i then None else vt v n)\<rparr>"

lemma index_key_nonempty: "index_key p \<noteq> []"
proof -
  have "length (index_key p) = 72" by (simp add: index_key_def)
  then show ?thesis by force
qed

lemma del_no_index_view:
  assumes "seq_engine Q" and "queue_shaped Q S db" and "bdel (bkv Q) (blockIndexBucket db) [] = Some b"
  shows "becomes Q S db (db\<lparr>blockIndexBucket := b\<rparr>) (view_of Q S db)"
proof -
  note B = engine_of [OF assms(1)]
  have sh: "shaped index_key mark_value (bkv Q) (blockIndexBucket db)" using assms(2) by (simp add: queue_shaped_def)
  then have "\<not> (\<exists>v. bget (bkv Q) (blockIndexBucket db) [] = Some v)"
    unfolding shaped_def using index_key_nonempty by (metis (no_types))
  then have "bget (bkv Q) b k = bget (bkv Q) (blockIndexBucket db) k" for k
    using bolt_engine.get_del [OF B assms(3), of k] by (cases "k = []") simp_all
  then have "bget (bkv Q) b = bget (bkv Q) (blockIndexBucket db)" by (rule ext)
  then have "bucket_table index_key mark_value (bkv Q) b = bucket_table index_key mark_value (bkv Q) (blockIndexBucket db)"
    "shaped index_key mark_value (bkv Q) b"
    using sh by (simp_all add: bucket_table_def [abs_def] shaped_def)
  then show ?thesis
    using assms(2) by (simp add: becomes_def queue_shaped_def rest_of_def view_of_def)
qed

lemma deleteCompleted_view:
  assumes Q: "seq_engine Q" and ok: "queue_shaped Q S db" and p: "deleteCompleted (bkv Q) db i = Inr db'"
  defines "v \<equiv> view_of Q S db"
  shows "\<exists>r. vc v i = Some r \<and> cand_ID (cr_Candidate r) = i \<and> cr_Status r = CandidateAcknowledged \<and>
    becomes Q S db db' (trimmed i (cr_Candidate r) v)"
proof -
  from p obtain r bx bi bc where r: "vc v i = Some r" "cand_ID (cr_Candidate r) = i" "cr_Status r = CandidateAcknowledged"
    and x: "bdel (bkv Q) (blockIndexBucket db) (slice_of (candidateBlockIndexKey (cr_Candidate r))) = Some bx"
    and bi: "bdel (bkv Q) (incidentsBucket db) (id_bytes i) = Some bi"
    and bc: "bdel (bkv Q) (candidatesBucket db) (id_bytes i) = Some bc"
    and t: "removeCandidateTombstones (bkv Q) i
        (db\<lparr>blockIndexBucket := bx, incidentsBucket := bi, candidatesBucket := bc\<rparr>) = Inr db'"
    by (auto simp: deleteCompleted_def step_simps decode_stored v_def)
  have 1: "becomes Q S db (db\<lparr>blockIndexBucket := bx\<rparr>)
      (v\<lparr>vx := (if indexed (cr_Candidate r) then (vx v)(position (cr_Candidate r) := None) else vx v)\<rparr>)"
    using del_index_view [OF Q ok] del_no_index_view [OF Q ok] x
    by (auto simp: candidateBlockIndexKey_eq slice_of_def v_def view_of_def split: if_splits)
  have "bdel (bkv Q) (incidentsBucket (db\<lparr>blockIndexBucket := bx\<rparr>)) (id_bytes i) = Some bi"
    "bdel (bkv Q) (candidatesBucket (db\<lparr>blockIndexBucket := bx\<rparr>)) (id_bytes i) = Some bc" using bi bc by simp_all
  note 2 = forget_view [OF Q becomes_shaped [OF 1] this, unfolded becomes_view [OF 1]]
  note 3 = removeCandidateTombstones_view [OF Q becomes_shaped [OF 2] t, unfolded becomes_view [OF 2]]
  have "becomes Q S db db' (trimmed i (cr_Candidate r) v)"
    using becomes_trans [OF becomes_trans [OF 1 2] 3] by (simp add: trimmed_def cong: if_cong)
  with r show ?thesis by blast
qed

end
