(* ===== verification/Queue_Invariant.thy ===== *)
theory Queue_Invariant
  imports Queue_View
begin

text \<open>
  What always holds of the tables of the queue: every record is stored under its own identifier and
  belongs to the store, the ready queue lists exactly the ready candidates (once, under a positive
  sequence number that was handed out), and the limits of the queue are kept. Changes of the tables
  that keep it: a new record, a promotion, leaving the ready queue, and shedding candidates that are
  not ready.
\<close>

section \<open>The invariant\<close>

definition inv_ids :: "BoltStore \<Rightarrow> view \<Rightarrow> bool" where
  "inv_ids S v \<longleftrightarrow> (\<forall>i r. vc v i = Some r \<longrightarrow>
     cand_ID (cr_Candidate r) = i \<and> matchesCandidate S (cr_Candidate r) \<and> validateCandidateRecord r)"

definition inv_ready :: "view \<Rightarrow> bool" where
  "inv_ready v \<longleftrightarrow>
     (\<forall>i n. vp v i = Some n \<longleftrightarrow> vo v n = Some i) \<and>
     (\<forall>i. vp v i \<noteq> None \<longleftrightarrow> (\<exists>r. vc v i = Some r \<and> cr_Status r = CandidateReady)) \<and>
     (\<forall>n. vo v n \<noteq> None \<longrightarrow> n \<noteq> 0 \<and> n \<le> vs v)"

definition with_status :: "view \<Rightarrow> CandidateStatus set \<Rightarrow> CandidateID set" where
  "with_status v A = {i. \<exists>r. vc v i = Some r \<and> cr_Status r \<in> A}"

abbreviation unfinished :: "CandidateStatus set" where
  "unfinished \<equiv> {CandidateStaged, CandidateReady, CandidateDelayed}"

definition inv_counts :: "BoltStore \<Rightarrow> view \<Rightarrow> bool" where
  "inv_counts S v \<longleftrightarrow>
     card (with_status v {CandidateReady}) \<le> unat (bs_maxPending S) \<and>
     card (with_status v unfinished) \<le> unat (bs_journalCapacity S) \<and>
     card (with_status v {CandidateObserved}) \<le> unat (bs_maxPending S)"

definition queue_ok :: "BoltStore \<Rightarrow> view \<Rightarrow> bool" where
  "queue_ok S v \<longleftrightarrow> finite (dom (vc v)) \<and> inv_ids S v \<and> inv_ready v \<and> inv_counts S v"

lemma queue_okD:
  assumes "queue_ok S v"
  shows "finite (dom (vc v))" "inv_ids S v" "inv_ready v" "inv_counts S v"
  using assms by (simp_all add: queue_ok_def)

lemma inv_idsD:
  assumes "inv_ids S v" and "vc v i = Some r"
  shows "cand_ID (cr_Candidate r) = i" "matchesCandidate S (cr_Candidate r)" "validateCandidateRecord r"
  using assms unfolding inv_ids_def by blast+

lemma ready_iff:
  assumes "inv_ready v"
  shows "vp v i = None \<longleftrightarrow> \<not> (\<exists>r. vc v i = Some r \<and> cr_Status r = CandidateReady)"
  using assms unfolding inv_ready_def by metis

lemma ready_order:
  assumes "inv_ready v"
  shows "vp v i = Some n \<longleftrightarrow> vo v n = Some i"
  using assms unfolding inv_ready_def by blast

lemma order_bounds:
  assumes "inv_ready v" and "vo v n = Some i"
  shows "n \<noteq> 0" "n \<le> vs v"
  using assms unfolding inv_ready_def by blast+

section \<open>Counting by status\<close>

lemma with_status_iff: "i \<in> with_status v A \<longleftrightarrow> (\<exists>r. vc v i = Some r \<and> cr_Status r \<in> A)"
  by (simp add: with_status_def)

lemma with_status_cong: "vc w = vc v \<Longrightarrow> with_status w A = with_status v A"
  by (simp add: with_status_def)

lemma with_status_upd:
  "vc w = (vc v)(i \<mapsto> r) \<Longrightarrow>
     with_status w A = (if cr_Status r \<in> A then insert i (with_status v A) else with_status v A - {i})"
  by (auto simp: with_status_def)

lemma finite_with_status: "finite (dom (vc v)) \<Longrightarrow> finite (with_status v A)"
  by (rule finite_subset [of _ "dom (vc v)"]) (auto simp: with_status_def)

text \<open>A record changes its status: how each count moves.\<close>

lemma card_upd:
  assumes "finite (dom (vc v))" and "vc w = (vc v)(i \<mapsto> r)"
  shows "card (with_status w A) \<le> card (with_status v A) + (if cr_Status r \<in> A \<and> i \<notin> with_status v A then 1 else 0)"
proof -
  note f = finite_with_status [OF assms(1), of A]
  show ?thesis
    unfolding with_status_upd [OF assms(2)] using f card_mono [OF f, of "with_status v A - {i}"]
    by (auto simp: card_insert_if)
qed

lemma card_leave:
  assumes "finite (dom (vc v))" and "vc w = (vc v)(i \<mapsto> r)" and "cr_Status r \<notin> A"
  shows "card (with_status w A) \<le> card (with_status v A)"
  using card_upd [OF assms(1,2), of A] assms(3) by simp

section \<open>New records and changed records\<close>

text \<open>The parts of a candidate that its records never change.\<close>

lemma update_metadata_same:
  "cand_ID (updateCandidateMetadata c d) = cand_ID c"
  "matchesCandidate S (updateCandidateMetadata c d) = matchesCandidate S c"
  by (simp_all add: updateCandidateMetadata_def matchesCandidate_def)

text \<open>A record that is not ready is written over one that is not ready, or over none.\<close>

lemma write_ok:
  assumes ok: "queue_ok S v" and old: "i \<notin> with_status v {CandidateReady}" and st: "cr_Status r \<noteq> CandidateReady"
    and r: "cand_ID (cr_Candidate r) = i" "matchesCandidate S (cr_Candidate r)" "validateCandidateRecord r"
    and w: "vc w = (vc v)(i \<mapsto> r)" "vp w = vp v" "vo w = vo v" "vs w = vs v"
    and room: "cr_Status r \<in> unfinished \<Longrightarrow> i \<notin> with_status v unfinished \<Longrightarrow>
        card (with_status v unfinished) < unat (bs_journalCapacity S)"
      "cr_Status r = CandidateObserved \<Longrightarrow> card (with_status v {CandidateObserved}) < unat (bs_maxPending S)"
  shows "queue_ok S w"
proof -
  note d = queue_okD [OF ok]
  note c = d(4) [unfolded inv_counts_def]
  have "finite (dom (vc w))" using d(1) w(1) by simp
  moreover have "inv_ids S w" using d(2) r unfolding inv_ids_def w(1) by simp
  moreover have "inv_ready w"
  proof -
    have "(\<exists>q. vc w j = Some q \<and> cr_Status q = CandidateReady) \<longleftrightarrow>
        (\<exists>q. vc v j = Some q \<and> cr_Status q = CandidateReady)" for j
      using old st by (auto simp: w(1) with_status_def)
    then show ?thesis using d(3) unfolding inv_ready_def w(2,3,4) by blast
  qed
  moreover have "inv_counts S w"
    using c card_upd [OF d(1) w(1), of "{CandidateReady}"] card_upd [OF d(1) w(1), of unfinished]
      card_upd [OF d(1) w(1), of "{CandidateObserved}"] room st
    unfolding inv_counts_def by (auto split: if_splits)
  ultimately show ?thesis by (simp add: queue_ok_def)
qed

section \<open>Promotion\<close>

definition readied :: "CandidateID \<Rightarrow> candidateRecord \<Rightarrow> u64 \<Rightarrow> view \<Rightarrow> view" where
  "readied i r n v = v\<lparr>vc := (vc v)(i \<mapsto> r\<lparr>cr_Status := CandidateReady, cr_RetryAt := zeroTime\<rparr>),
     vp := (vp v)(i \<mapsto> n), vo := (vo v)(n \<mapsto> i), vs := n\<rparr>"

lemma next_greater: "n = (m :: u64) + 1 \<Longrightarrow> n \<noteq> 0 \<Longrightarrow> m < n"
proof -
  assume n: "n = m + 1" "n \<noteq> 0"
  then have "m \<noteq> maxUint64" by auto
  then show "m < n" using n unat_succ [of m] by (simp add: word_less_nat_alt)
qed

lemma readied_ok:
  assumes ok: "queue_ok S v" and r: "vc v i = Some r" "cr_Status r \<in> {CandidateStaged, CandidateDelayed}"
    and n: "n = vs v + 1" "n \<noteq> 0"
    and room: "card (with_status v {CandidateReady}) < unat (bs_maxPending S)"
  shows "queue_ok S (readied i r n v)"
proof -
  note d = queue_okD [OF ok] and u = next_greater [OF n]
  define r' where "r' = r\<lparr>cr_Status := CandidateReady, cr_RetryAt := zeroTime\<rparr>"
  have w: "vc (readied i r n v) = (vc v)(i \<mapsto> r')" by (simp add: readied_def r'_def)
  have "validateCandidateRecord r'"
    using inv_idsD(3) [OF d(2) r(1)] by (simp add: r'_def validateCandidateRecord_def IsZero_def split: if_splits)
  then have "inv_ids S (readied i r n v)"
    using d(2) inv_idsD(1,2) [OF d(2) r(1)] unfolding inv_ids_def w by (simp add: r'_def)
  moreover have "inv_ready (readied i r n v)"
  proof -
    have p: "vp v i = None" using r ready_iff [OF d(3), of i] by auto
    have o: "vo v n = None" using order_bounds(2) [OF d(3), of n] u by (meson leD not_Some_eq)
    have b: "vo v m \<noteq> None \<Longrightarrow> m \<noteq> 0 \<and> m \<le> n" for m
      using order_bounds [OF d(3), of m] u by fastforce
    have pn: "vp v j \<noteq> Some n" for j using o ready_order [OF d(3), of j n] by simp
    have on: "vo v m \<noteq> Some i" for m using p ready_order [OF d(3), of i m] by simp
    have e: "(\<exists>q. vc (readied i r n v) j = Some q \<and> cr_Status q = CandidateReady) \<longleftrightarrow>
        j = i \<or> (\<exists>q. vc v j = Some q \<and> cr_Status q = CandidateReady)" for j
      by (simp add: w r'_def)
    have "vp (readied i r n v) j = Some m \<longleftrightarrow> vo (readied i r n v) m = Some j" for j m
      using ready_order [OF d(3), of j m] pn on by (auto simp: readied_def)
    moreover have "vp (readied i r n v) j \<noteq> None \<longleftrightarrow> j = i \<or> (\<exists>q. vc v j = Some q \<and> cr_Status q = CandidateReady)" for j
      using ready_iff [OF d(3), of j] by (auto simp: readied_def)
    moreover have "vo (readied i r n v) m \<noteq> None \<Longrightarrow> m \<noteq> 0 \<and> m \<le> vs (readied i r n v)" for m
      using b [of m] n(2) by (auto simp: readied_def split: if_splits)
    ultimately show ?thesis unfolding inv_ready_def e by blast
  qed
  moreover have "inv_counts S (readied i r n v)"
  proof -
    have "i \<in> with_status v unfinished" using r by (auto simp: with_status_def)
    then have "card (with_status (readied i r n v) unfinished) \<le> card (with_status v unfinished)"
      using card_upd [OF d(1) w, of unfinished] by simp
    moreover have "card (with_status (readied i r n v) {CandidateObserved}) \<le> card (with_status v {CandidateObserved})"
      by (rule card_leave [OF d(1) w]) (simp add: r'_def)
    ultimately show ?thesis
      using d(4) room card_upd [OF d(1) w, of "{CandidateReady}"] unfolding inv_counts_def by (auto split: if_splits)
  qed
  ultimately show ?thesis using d(1) w by (simp add: queue_ok_def)
qed

section \<open>Leaving the ready queue\<close>

lemma left_ok:
  assumes ok: "queue_ok S v" and n: "vp v i = Some n"
    and r: "cand_ID (cr_Candidate r) = i" "matchesCandidate S (cr_Candidate r)" "validateCandidateRecord r"
      "cr_Status r \<in> {CandidateDelayed, CandidateAcknowledged}"
    and w: "w = v\<lparr>vc := (vc v)(i \<mapsto> r), vo := (vo v)(n := None), vp := (vp v)(i := None)\<rparr>"
  shows "queue_ok S w"
proof -
  note d = queue_okD [OF ok]
  have wc: "vc w = (vc v)(i \<mapsto> r)" by (simp add: w)
  have "i \<in> with_status v unfinished" using n ready_iff [OF d(3), of i] by (auto simp: with_status_def)
  then have "inv_counts S w"
    using d(4) card_upd [OF d(1) wc, of unfinished] card_leave [OF d(1) wc, of "{CandidateReady}"]
      card_leave [OF d(1) wc, of "{CandidateObserved}"] r(4)
    unfolding inv_counts_def by auto
  moreover have "inv_ids S w" using d(2) r unfolding inv_ids_def wc by simp
  moreover have "inv_ready w"
  proof -
    have on: "vo v n = Some i" using n ready_order [OF d(3)] by simp
    have 1: "vp w j = Some m \<longleftrightarrow> vo w m = Some j" for j m
      using ready_order [OF d(3), of j m] ready_order [OF d(3), of j n] n on by (auto simp: w)
    have 2: "vp w j \<noteq> None \<longleftrightarrow> (\<exists>q. vc w j = Some q \<and> cr_Status q = CandidateReady)" for j
      using ready_iff [OF d(3), of j] r(4) by (auto simp: w)
    have 3: "vo w m \<noteq> None \<Longrightarrow> m \<noteq> 0 \<and> m \<le> vs w" for m
      using order_bounds [OF d(3), of m] by (auto simp: w split: if_splits)
    show ?thesis unfolding inv_ready_def using 1 2 3 by blast
  qed
  ultimately show ?thesis using d(1) wc by (simp add: queue_ok_def)
qed

section \<open>Shedding\<close>

lemma map_le_Some: "m i = Some x \<Longrightarrow> m \<subseteq>\<^sub>m n \<Longrightarrow> n i = Some x"
  by (auto simp: map_le_def dom_def)

text \<open>Candidates that are not ready disappear; blocks may disappear too.\<close>

definition sheds :: "view \<Rightarrow> view \<Rightarrow> bool" where
  "sheds v w \<longleftrightarrow> vp w = vp v \<and> vo w = vo v \<and> vs w = vs v \<and> vb w \<subseteq>\<^sub>m vb v \<and> vc w \<subseteq>\<^sub>m vc v \<and>
     with_status w {CandidateReady} = with_status v {CandidateReady}"

lemma sheds_refl [simp]: "sheds v v"
  by (simp add: sheds_def)

lemma sheds_trans: "sheds u v \<Longrightarrow> sheds v w \<Longrightarrow> sheds u w"
  unfolding sheds_def by (metis map_le_trans)

lemma sheds_status: "sheds v w \<Longrightarrow> with_status w A \<subseteq> with_status v A"
  by (auto simp: sheds_def map_le_def with_status_def dom_def)

lemma sheds_ok:
  assumes ok: "queue_ok S v" and s: "sheds v w"
  shows "queue_ok S w"
proof -
  note d = queue_okD [OF ok]
  have le: "vc w \<subseteq>\<^sub>m vc v" using s by (simp add: sheds_def)
  have "finite (dom (vc w))" by (rule finite_subset [OF map_le_implies_dom_le [OF le] d(1)])
  moreover have c: "card (with_status w A) \<le> card (with_status v A)" for A
    by (rule card_mono [OF finite_with_status [OF d(1)] sheds_status [OF s]])
  then have "inv_counts S w" using d(4) unfolding inv_counts_def by (meson order_trans)
  moreover have "inv_ids S w"
    unfolding inv_ids_def
  proof (intro allI impI)
    fix i r
    assume "vc w i = Some r"
    then have "vc v i = Some r" using le by (rule map_le_Some)
    then show "cand_ID (cr_Candidate r) = i \<and> matchesCandidate S (cr_Candidate r) \<and> validateCandidateRecord r"
      using inv_idsD [OF d(2)] by simp
  qed
  moreover have "inv_ready w"
  proof -
    have e: "(\<exists>r. vc w i = Some r \<and> cr_Status r = CandidateReady) \<longleftrightarrow> (\<exists>r. vc v i = Some r \<and> cr_Status r = CandidateReady)" for i
      using s with_status_iff [of i w "{CandidateReady}"] with_status_iff [of i v "{CandidateReady}"]
      by (simp add: sheds_def)
    have q: "vp w = vp v" "vo w = vo v" "vs w = vs v" using s by (simp_all add: sheds_def)
    show ?thesis using d(3) unfolding inv_ready_def e q .
  qed
  ultimately show ?thesis by (simp add: queue_ok_def)
qed

lemma sheds_forget:
  assumes "vc w = (vc v)(i := None)" and "i \<notin> with_status v {CandidateReady}"
    and "vp w = vp v" "vo w = vo v" "vs w = vs v" "vb w = vb v"
  shows "sheds v w"
proof -
  have "with_status w {CandidateReady} = with_status v {CandidateReady}"
    using assms(2) by (auto simp: with_status_def assms(1))
  then show ?thesis using assms by (simp add: sheds_def map_le_def)
qed

lemma sheds_other:
  assumes "vc w = vc v" "vp w = vp v" "vo w = vo v" "vs w = vs v" "vb w \<subseteq>\<^sub>m vb v"
  shows "sheds v w"
  using assms by (simp add: sheds_def with_status_cong [OF assms(1)])

end
