(* ===== verification/Queue_Steps.thy ===== *)
theory Queue_Steps
  imports Queue_Invariant
begin

text \<open>
  The operations of the queue and the chain on the tables: the counts the code computes are the
  sizes of the tables, the checkpoint and the tombstones only shed finished candidates, and a
  promotion fills the free places of the ready queue.
\<close>

definition queue_state :: "'b seq_bolt \<Rightarrow> BoltStore \<Rightarrow> 'b store_db \<Rightarrow> bool" where
  "queue_state Q S db \<longleftrightarrow> queue_shaped Q S db \<and> queue_ok S (view_of Q S db)"

lemma queue_stateD: "queue_state Q S db \<Longrightarrow> queue_shaped Q S db" "queue_state Q S db \<Longrightarrow> queue_ok S (view_of Q S db)"
  by (simp_all add: queue_state_def)

section \<open>Shedding steps\<close>

definition calm :: "'b seq_bolt \<Rightarrow> BoltStore \<Rightarrow> 'b store_db \<Rightarrow> 'b store_db \<Rightarrow> bool" where
  "calm Q S db db' \<longleftrightarrow> queue_shaped Q S db' \<and> sheds (view_of Q S db) (view_of Q S db')"

lemma calm_refl: "queue_state Q S db \<Longrightarrow> calm Q S db db"
  by (simp add: calm_def queue_state_def)

lemma calm_trans: "calm Q S db db1 \<Longrightarrow> calm Q S db1 db2 \<Longrightarrow> calm Q S db db2"
  unfolding calm_def using sheds_trans by blast

lemma calm_state: "queue_state Q S db \<Longrightarrow> calm Q S db db' \<Longrightarrow> queue_state Q S db'"
  unfolding calm_def queue_state_def using sheds_ok by blast

lemma calm_becomes: "becomes Q S db db' w \<Longrightarrow> sheds (view_of Q S db) w \<Longrightarrow> calm Q S db db'"
  by (simp add: calm_def becomes_def)

text \<open>Buckets outside the tables do not matter.\<close>

definition same_queue :: "'b store_db \<Rightarrow> 'b store_db \<Rightarrow> bool" where
  "same_queue db db' \<longleftrightarrow> candidatesBucket db' = candidatesBucket db \<and> pendingBucket db' = pendingBucket db \<and>
     readyOrderBucket db' = readyOrderBucket db \<and> blockIndexBucket db' = blockIndexBucket db \<and>
     incidentsBucket db' = incidentsBucket db \<and> blocksBucket db' = blocksBucket db \<and>
     tombstonesBucket db' = tombstonesBucket db"

lemma same_queue_view:
  "same_queue db db' \<Longrightarrow> view_of Q S db' = view_of Q S db"
  "same_queue db db' \<Longrightarrow> queue_shaped Q S db' = queue_shaped Q S db"
  "same_queue db db' \<Longrightarrow> queue_state Q S db' = queue_state Q S db"
  by (simp_all add: same_queue_def view_of_def queue_shaped_def queue_state_def)

lemma calm_other: "queue_state Q S db \<Longrightarrow> same_queue db db' \<Longrightarrow> calm Q S db db'"
  by (simp add: calm_def same_queue_view queue_state_def)

lemma foldE_calm:
  assumes "foldE f db xs = Inr db'" and "queue_state Q S db"
    and "\<And>x db db'. x \<in> set xs \<Longrightarrow> queue_state Q S db \<Longrightarrow> f db x = Inr db' \<Longrightarrow> calm Q S db db'"
  shows "calm Q S db db'"
  using assms
proof (induction xs arbitrary: db)
  case Nil
  then show ?case by (simp add: calm_refl)
next
  case (Cons x xs)
  from Cons.prems(1) obtain db1 where 1: "f db x = Inr db1" "foldE f db1 xs = Inr db'" unfolding foldE_Cons_Inr by blast
  have c: "calm Q S db db1" by (rule Cons.prems(3) [OF _ Cons.prems(2) 1(1)]) simp
  moreover have "calm Q S db1 db'"
    by (rule Cons.IH [OF 1(2) calm_state [OF Cons.prems(2) c]], rule Cons.prems(3)) simp_all
  ultimately show ?case by (rule calm_trans)
qed

lemma not_ready: "vc v i = Some r \<Longrightarrow> cr_Status r \<noteq> CandidateReady \<Longrightarrow> i \<notin> with_status v {CandidateReady}"
  by (simp add: with_status_def)

lemma deleteAcknowledged_calm:
  assumes Q: "seq_engine Q" and ok: "queue_state Q S db" and p: "deleteAcknowledgedCandidate (bkv Q) S i db = Inr db'"
  shows "calm Q S db db'"
proof -
  obtain r where r: "vc (view_of Q S db) i = Some r" "cr_Status r = CandidateAcknowledged"
    "(if indexed (cr_Candidate r) \<and> vb (view_of Q S db) (cand_BlockNumber (cr_Candidate r)) \<noteq> None
     then db' = db \<and> (\<exists>b. vb (view_of Q S db) (cand_BlockNumber (cr_Candidate r)) = Some b \<and>
        cp_BlockHash (br_Checkpoint b) = cand_BlockHash (cr_Candidate r) \<and> i \<in> set (br_Members b))
     else becomes Q S db db' ((view_of Q S db)\<lparr>vx := (if indexed (cr_Candidate r)
          then (vx (view_of Q S db))(position (cr_Candidate r) := None) else vx (view_of Q S db)),
        vi := (vi (view_of Q S db))(i := None), vc := (vc (view_of Q S db))(i := None)\<rparr>))"
    by (rule deleteAcknowledged_view [OF Q queue_stateD(1) [OF ok] p])
  show ?thesis
  proof (cases "indexed (cr_Candidate r) \<and> vb (view_of Q S db) (cand_BlockNumber (cr_Candidate r)) \<noteq> None")
    case True
    with r(3) have "db' = db" by metis
    with ok show ?thesis by (simp add: calm_refl)
  next
    case False
    show ?thesis
      by (rule calm_becomes [OF r(3) [unfolded if_not_P [OF False]]], rule sheds_forget [of _ _ i])
        (simp_all add: not_ready [OF r(1)] r(2) del: view_sel)
  qed
qed

lemma expireTombstones_calm:
  assumes Q: "seq_engine Q"
  shows "queue_state Q S db \<Longrightarrow> expireTombstones (bkv Q) S n db = Inr db' \<Longrightarrow> calm Q S db db'"
proof (induction n arbitrary: db)
  case 0
  then show ?case by (simp add: calm_refl)
next
  case (Suc n)
  from Suc.prems(2) obtain k v es db1 t where e: "bentries (bkv Q) (tombstonesBucket db) = (k, v) # es"
    and k: "length k = 8" and d: "deleteAcknowledgedCandidate (bkv Q) S (bytes_word v) db = Inr db1"
    and t: "bdel (bkv Q) (tombstonesBucket db1) k = Some t"
    and x: "expireTombstones (bkv Q) S n (db1\<lparr>tombstonesBucket := t\<rparr>) = Inr db'"
    by (auto simp: step_simps split: list.splits)
  have c1: "calm Q S db db1" by (rule deleteAcknowledged_calm [OF Q Suc.prems(1) d])
  note ok1 = calm_state [OF Suc.prems(1) c1]
  obtain m where "k = encodeUint64 m" using k decodeUint64_Some [of k] by (auto simp: decodeUint64_def)
  note b = del_tombstone_view [OF Q queue_stateD(1) [OF ok1] t [unfolded this]]
  have c2: "calm Q S db1 (db1\<lparr>tombstonesBucket := t\<rparr>)"
    by (rule calm_becomes [OF b], rule sheds_other) (simp_all del: view_sel)
  from calm_trans [OF c1 calm_trans [OF c2 Suc.IH [OF calm_state [OF ok1 c2] x]]] show ?case .
qed

lemma addTombstone_calm:
  assumes Q: "seq_engine Q" and ok: "queue_state Q S db" and p: "addTombstone Q S i db = Inr db'"
  shows "calm Q S db db'"
proof -
  note B = engine_of [OF Q]
  from p obtain n t1 t2 k where n: "bnext Q (tombstonesBucket db) = Some (n, t1)"
    and t2: "bput (bkv Q) t1 (encodeUint64 n) (id_bytes i) = Some t2"
    and x: "expireTombstones (bkv Q) S k (db\<lparr>tombstonesBucket := t2\<rparr>) = Inr db'"
    by (auto simp: addTombstone_def step_simps)
  have "queue_shaped Q S (db\<lparr>tombstonesBucket := t2\<rparr>)"
    using queue_stateD(1) [OF ok] order_rows.shaped_put [OF B t2]
    by (simp add: queue_shaped_def bnext_table(2) [OF Q n])
  moreover have "sheds (view_of Q S db) (view_of Q S (db\<lparr>tombstonesBucket := t2\<rparr>))"
    by (rule sheds_other) simp_all
  ultimately have c: "calm Q S db (db\<lparr>tombstonesBucket := t2\<rparr>)" by (simp add: calm_def)
  from calm_trans [OF c expireTombstones_calm [OF Q calm_state [OF ok c] x]] show ?thesis .
qed

lemma deleteCompleted_calm:
  assumes Q: "seq_engine Q" and ok: "queue_state Q S db" and p: "deleteCompleted (bkv Q) db i = Inr db'"
  shows "calm Q S db db'"
proof -
  from deleteCompleted_view [OF Q queue_stateD(1) [OF ok] p] obtain r where r: "vc (view_of Q S db) i = Some r"
    "cr_Status r = CandidateAcknowledged" and b: "becomes Q S db db' (trimmed i (cr_Candidate r) (view_of Q S db))"
    by blast
  show ?thesis
    by (rule calm_becomes [OF b], rule sheds_forget [of _ _ i])
      (simp_all add: trimmed_def not_ready [OF r(1)] r(2) del: view_sel)
qed

section \<open>Trimming and the checkpoint\<close>

lemma trimBlock_calm:
  assumes Q: "seq_engine Q" and ok: "queue_state Q S db" and p: "trimBlock (bkv Q) S n db = Inr db'"
  shows "calm Q S db db'"
proof -
  from p obtain b :: blockRecord and db1 bs where d: "foldE (deleteCompleted (bkv Q)) db (br_Members b) = Inr db1"
    and bs: "bdel (bkv Q) (blocksBucket db1) (blockNumberKey n) = Some bs" and db': "db' = db1\<lparr>blocksBucket := bs\<rparr>"
    unfolding trimBlock_def step_simps deleteCompletedBlockCandidates_def by blast
  have c: "calm Q S db db1" by (rule foldE_calm [OF d ok]) (rule deleteCompleted_calm [OF Q])
  note b = del_block_view [OF Q queue_stateD(1) [OF calm_state [OF ok c]] bs]
  have "calm Q S db1 db'"
    unfolding db' by (rule calm_becomes [OF b], rule sheds_other) (simp_all add: map_le_def del: view_sel)
  with c show ?thesis by (rule calm_trans)
qed

lemma trimBlocks_calm:
  assumes Q: "seq_engine Q"
  shows "queue_state Q S db \<Longrightarrow> trimBlocks (bkv Q) S n m db = Inr db' \<Longrightarrow> calm Q S db db'"
proof (induction "bkv Q" S n m db rule: trimBlocks.induct)
  case (1 S n m db)
  show ?case
  proof (cases "n < m")
    case True
    with 1(3) obtain db1 where t: "trimBlock (bkv Q) S n db = Inr db1" "trimBlocks (bkv Q) S (n + 1) m db1 = Inr db'"
      by (auto simp: trimBlocks.simps [of _ _ n] step_simps)
    note c = trimBlock_calm [OF Q 1(2) t(1)]
    from calm_trans [OF c 1(1) [OF True calm_state [OF 1(2) c] t(2)]] show ?thesis .
  next
    case False
    with 1(2,3) show ?thesis by (simp add: trimBlocks.simps [of _ _ n] calm_refl)
  qed
qed

lemma meta_calm: "queue_state Q S db \<Longrightarrow> calm Q S db (db\<lparr>metaBucket := b\<rparr>)"
  by (rule calm_other) (simp_all add: same_queue_def)

lemma trimCanonical_calm:
  assumes Q: "seq_engine Q" and ok: "queue_state Q S db" and p: "trimCanonicalBlocks (bkv Q) S n db = Inr db'"
  shows "calm Q S db db'"
proof -
  from p consider "db' = db" | a b db1 m where "trimBlocks (bkv Q) S a b db = Inr db1" "db' = db1\<lparr>metaBucket := m\<rparr>"
    by (auto simp: trimCanonicalBlocks_def step_simps Let_def split: if_splits)
  then show ?thesis
  proof cases
    case 1
    with ok show ?thesis by (simp add: calm_refl)
  next
    case 2
    note c = trimBlocks_calm [OF Q ok 2(1)]
    from calm_trans [OF c meta_calm [OF calm_state [OF ok c]]] show ?thesis by (simp add: 2(2))
  qed
qed

lemma advanceOnce_calm:
  assumes Q: "seq_engine Q" and ok: "queue_state Q S db" and p: "advanceOnce (bkv Q) S n db = Inr (Some db')"
  shows "calm Q S db db'"
proof -
  from p obtain m where "trimCanonicalBlocks (bkv Q) S n (db\<lparr>metaBucket := m\<rparr>) = Inr db'"
    by (auto simp: advanceOnce_def step_simps split: option.splits if_splits)
  from calm_trans [OF meta_calm [OF ok] trimCanonical_calm [OF Q calm_state [OF ok meta_calm [OF ok]] this]]
  show ?thesis .
qed

lemma advanceFrom_calm:
  assumes Q: "seq_engine Q"
  shows "queue_state Q S db \<Longrightarrow> advanceFrom (bkv Q) S n db = Inr db' \<Longrightarrow> calm Q S db db'"
proof (induction "bkv Q" S n db rule: advanceFrom.induct)
  case (1 S n db)
  from 1(3) consider "advanceOnce (bkv Q) S n db = Inr None" "db' = db"
    | db1 where "advanceOnce (bkv Q) S n db = Inr (Some db1)" "n = maxUint64" "db' = db1"
    | db1 where "advanceOnce (bkv Q) S n db = Inr (Some db1)" "n \<noteq> maxUint64" "advanceFrom (bkv Q) S (n + 1) db1 = Inr db'"
    by (auto simp: advanceFrom.simps [of _ _ n] split: sum.splits option.splits if_splits)
  then show ?case
  proof cases
    case 1
    with \<open>queue_state Q S db\<close> show ?thesis by (simp add: calm_refl)
  next
    case 2
    with advanceOnce_calm [OF Q 1(2)] show ?thesis by simp
  next
    case 3
    note c = advanceOnce_calm [OF Q 1(2) 3(1)]
    from calm_trans [OF c 1(1) [OF 3(1) refl 3(2) calm_state [OF 1(2) c] 3(3)]] show ?thesis .
  qed
qed

lemma advanceCheckpoint_calm:
  assumes Q: "seq_engine Q" and ok: "queue_state Q S db" and p: "advanceCheckpoint (bkv Q) S db = Inr db'"
  shows "calm Q S db db'"
proof -
  show ?thesis
  proof (cases "bget (bkv Q) (metaBucket db) baselineKey")
    case None
    with p have "db' = db" by (simp add: advanceCheckpoint_def)
    then show ?thesis using calm_refl [OF ok] by simp
  next
    case (Some d)
    with p have "\<exists>n. advanceFrom (bkv Q) S n db = Inr db'"
      by (auto simp: advanceCheckpoint_def step_simps split: option.splits)
    then show ?thesis using advanceFrom_calm [OF Q ok] by blast
  qed
qed

end
