(* ===== verification/Queue_Promotion.thy ===== *)
theory Queue_Promotion
  imports Queue_Steps
begin

text \<open>
  The counts of the queue and the promotion of staged and delayed candidates: the counters equal the
  sizes of the tables and stay within their limits, and the free places of the ready queue are
  filled in turns.
\<close>

section \<open>Counters\<close>

lemma ready_set:
  assumes "inv_ready v"
  shows "with_status v {CandidateReady} = dom (vp v)"
proof (rule set_eqI)
  fix i
  show "i \<in> with_status v {CandidateReady} \<longleftrightarrow> i \<in> dom (vp v)"
    using ready_iff [OF assms, of i] unfolding with_status_iff domIff singleton_iff by (simp only: not_not)
qed

lemma pending_card:
  assumes Q: "seq_engine Q" and ok: "queue_state Q S db"
  shows "length (bentries (bkv Q) (pendingBucket db)) = card (with_status (view_of Q S db) {CandidateReady})"
  using ready_set [OF queue_okD(3) [OF queue_stateD(2) [OF ok]]] queue_stateD(1) [OF ok]
    pend_rows.tab_finite(2) [OF engine_of [OF Q], of "pendingBucket db"]
  by (simp add: queue_shaped_def)

lemma pending_entry:
  assumes Q: "seq_engine Q" and ok: "queue_state Q S db" and e: "(k, x) \<in> set (bentries (bkv Q) (pendingBucket db))"
  obtains i n where "k = id_bytes i" "x = encodeUint64 n" "vp (view_of Q S db) i = Some n"
    "bget (bkv Q) (readyOrderBucket db) x = Some k"
proof -
  note B = engine_of [OF Q]
  from e have g: "bget (bkv Q) (pendingBucket db) k = Some x" by (simp add: bolt_engine.entry_get [OF B])
  with queue_stateD(1) [OF ok] obtain i n where i: "k = id_bytes i" "decodeUint64 x = Some n"
    by (fastforce simp: queue_shaped_def shaped_def)
  have v: "vp (view_of Q S db) i = Some n" using g i by (simp add: bucket_table_def)
  then have "vo (view_of Q S db) n = Some i"
    using ready_order [OF queue_okD(3) [OF queue_stateD(2) [OF ok]]] by simp
  then have "bget (bkv Q) (readyOrderBucket db) (encodeUint64 n) = Some (id_bytes i)"
    by (auto simp: order_rows.tab_Some id_value_Some)
  with i v show thesis by (intro that [of i n]) (simp_all add: decodeUint64_Some)
qed

lemma readyCount_exact:
  assumes Q: "seq_engine Q" and ok: "queue_state Q S db"
  shows "readyCount (bkv Q) S db = Inr (word_of_nat (card (with_status (view_of Q S db) {CandidateReady})))"
proof -
  let ?es = "bentries (bkv Q) (pendingBucket db)"
  have "countReady (bkv Q) S db c e = (if True then if c = bs_maxPending S then Inl errCorrupt else Inr (c + 1) else Inr c)"
    if e: "e \<in> set ?es" for c e
  proof -
    obtain k x where kx: "e = (k, x)" by (cases e)
    obtain i n where "k = id_bytes i" "x = encodeUint64 n" "bget (bkv Q) (readyOrderBucket db) x = Some k"
      by (rule pending_entry [OF Q ok e [unfolded kx]])
    then show ?thesis by (simp add: kx countReady_def slice_of_def encodeUint64_def)
  qed
  moreover have "length ?es \<le> unat (bs_maxPending S)"
    using queue_okD(4) [OF queue_stateD(2) [OF ok]] by (simp add: pending_card [OF Q ok] inv_counts_def)
  ultimately show ?thesis
    unfolding readyCount_def
    using foldE_count [of ?es "countReady (bkv Q) S db" "\<lambda>_. True" "bs_maxPending S" errCorrupt 0]
    by (simp add: pending_card [OF Q ok])
qed

lemma candidate_entry:
  assumes Q: "seq_engine Q" and ok: "queue_shaped Q S db" and e: "e \<in> set (bentries (bkv Q) (candidatesBucket db))"
  obtains i r where "fst e = id_bytes i" "decodeCandidateRecord (snd e) = Some r" "vc (view_of Q S db) i = Some r"
    "e = (id_bytes i, snd e)"
proof -
  note B = engine_of [OF Q]
  from e have g: "bget (bkv Q) (candidatesBucket db) (fst e) = Some (snd e)"
    by (simp add: bolt_engine.entry_get [OF B, symmetric])
  with ok obtain i r where i: "fst e = id_bytes i" "decodeCandidateRecord (snd e) = Some r"
    by (fastforce simp: queue_shaped_def shaped_def)
  with g show thesis by (intro that [of i r]) (simp_all add: bucket_table_def prod_eq_iff)
qed

lemma status_card:
  assumes Q: "seq_engine Q" and ok: "queue_shaped Q S db"
  shows "length (filter (\<lambda>e. \<exists>r. decodeCandidateRecord (snd e) = Some r \<and> cr_Status r \<in> A)
      (bentries (bkv Q) (candidatesBucket db))) = card (with_status (view_of Q S db) A)"
proof -
  have "shaped id_bytes decodeCandidateRecord (bkv Q) (candidatesBucket db)" using ok by (simp add: queue_shaped_def)
  from cand_rows.count_rows [OF engine_of [OF Q] this, of "\<lambda>e. \<exists>r. decodeCandidateRecord (snd e) = Some r \<and> cr_Status r \<in> A"
      "\<lambda>r. cr_Status r \<in> A"]
  show ?thesis by (simp add: with_status_def)
qed

lemma status_count:
  fixes M :: u32
  assumes Q: "seq_engine Q" and ok: "queue_shaped Q S db"
    and f: "\<And>c k x r. decodeCandidateRecord x = Some r \<Longrightarrow> f c (k, x) =
        (if cr_Status r \<in> A then if c = M then Inl err else Inr (c + 1) else Inr c)"
    and bound: "card (with_status (view_of Q S db) A) \<le> unat M"
  shows "foldE f 0 (bentries (bkv Q) (candidatesBucket db)) = Inr (word_of_nat (card (with_status (view_of Q S db) A)))"
proof -
  let ?es = "bentries (bkv Q) (candidatesBucket db)"
    and ?sel = "\<lambda>e. \<exists>r. decodeCandidateRecord (snd e) = Some r \<and> cr_Status r \<in> A"
  have "f c e = (if ?sel e then if c = M then Inl err else Inr (c + 1) else Inr c)" if e: "e \<in> set ?es" for c e
  proof -
    obtain i r where r: "decodeCandidateRecord (snd e) = Some r" "e = (id_bytes i, snd e)"
      by (rule candidate_entry [OF Q ok e])
    have "f c (id_bytes i, snd e) = (if cr_Status r \<in> A then if c = M then Inl err else Inr (c + 1) else Inr c)"
      by (rule f [OF r(1)])
    then show ?thesis using r by simp
  qed
  from foldE_count [where es = ?es and sel = ?sel and M = M and c = 0 and f = f and err = err, OF this]
  show ?thesis using bound by (simp add: status_card [OF Q ok])
qed

lemma journalCount_exact:
  assumes Q: "seq_engine Q" and ok: "queue_state Q S db"
  shows "journalCount (bkv Q) S db = Inr (word_of_nat (card (with_status (view_of Q S db) unfinished)))"
  unfolding journalCount_def
proof (rule status_count [where err = errJournalFull, OF Q queue_stateD(1) [OF ok]])
  show "card (with_status (view_of Q S db) unfinished) \<le> unat (bs_journalCapacity S)"
    using queue_okD(4) [OF queue_stateD(2) [OF ok]] by (simp add: inv_counts_def)
qed (simp add: countUnfinished_def isUnfinished_def)

lemma statusCount_exact:
  assumes Q: "seq_engine Q" and ok: "queue_state Q S db"
  shows "statusCount (bkv Q) S db = Inr (word_of_nat (card (with_status (view_of Q S db) {CandidateObserved})))"
  unfolding statusCount_def
proof (rule status_count [where err = ErrObservationSaturated, OF Q queue_stateD(1) [OF ok]])
  show "card (with_status (view_of Q S db) {CandidateObserved}) \<le> unat (bs_maxPending S)"
    using queue_okD(4) [OF queue_stateD(2) [OF ok]] by (simp add: inv_counts_def)
qed (simp add: countObserved_def)

text \<open>A count within its bound is read back from the counter.\<close>

lemma unat_of_count: "n \<le> unat (M :: u32) \<Longrightarrow> unat (word_of_nat n :: u32) = n"
  using unat_count [of 0 n M] by simp

lemma unat_widen: "unat (ucast (x :: u32) :: u64) = unat x"
  using unat_bound [of x] by (simp add: unsigned_ucast_eq take_bit_nat_eq_self)

lemma reserveJournal_room:
  assumes Q: "seq_engine Q" and ok: "queue_state Q S db" and r: "reserveJournal (bkv Q) S k db = Inr u"
  shows "card (with_status (view_of Q S db) unfinished) + unat k \<le> unat (bs_journalCapacity S)"
proof -
  let ?n = "card (with_status (view_of Q S db) unfinished)"
  have b: "?n \<le> unat (bs_journalCapacity S)" using queue_okD(4) [OF queue_stateD(2) [OF ok]] by (simp add: inv_counts_def)
  from r have "\<not> ucast (bs_journalCapacity S) < (ucast (word_of_nat ?n :: u32) + ucast k :: u64)"
    by (simp add: reserveJournal_def journalCount_exact [OF Q ok] rejectE_Inr)
  moreover have "unat (ucast (word_of_nat ?n :: u32) + ucast k :: u64) = ?n + unat k"
    using unat_of_count [OF b] unat_bound [of "word_of_nat ?n :: u32"] unat_bound [of k]
    by (simp add: unat_word_ariths unat_widen)
  ultimately show ?thesis by (simp add: word_less_nat_alt unat_widen)
qed

section \<open>Turns\<close>

text \<open>The choice takes prefixes of both queues, as many as there are places.\<close>

lemma takeTurns_prefix:
  "takeTurns n p xs ys = (zs, q) \<Longrightarrow>
     \<exists>a b. zs \<in> shuffles (take a xs) (take b ys) \<and> length zs = min n (length xs + length ys)"
proof (induction n p xs ys arbitrary: zs q rule: takeTurns.induct)
  case (1 p xs ys)
  then show ?case by (auto intro: exI [of _ 0])
next
  case (2 n p xs ys)
  consider "xs = []" "ys = []" | y ys' where "ys = y # ys'" "p \<or> xs = []" "\<not> (xs = [] \<and> ys = [])"
    | x xs' where "xs = x # xs'" "\<not> (p \<and> ys \<noteq> [] \<or> xs = [])"
    by (cases xs; cases ys) auto
  then show ?case
  proof cases
    case 1
    with "2.prems" show ?thesis by (auto intro: exI [of _ 0])
  next
    case (2 y ys')
    obtain zs' q' where t: "takeTurns n (\<not> p) xs ys' = (zs', q')" by fastforce
    with "2.prems" 2 have z: "zs = y # zs'" by (auto simp: apfst_def map_prod_def)
    from "2.IH"(1) [of zs' q'] 2 t obtain a b where
      "zs' \<in> shuffles (take a xs) (take b ys')" "length zs' = min n (length xs + length ys')" by auto
    then have "zs \<in> shuffles (take a xs) (take (Suc b) ys)" "length zs = min (Suc n) (length xs + length ys)"
      using z 2(1) by (auto intro: Cons_in_shuffles_rightI)
    then show ?thesis by blast
  next
    case (3 x xs')
    obtain zs' q' where t: "takeTurns n (\<not> p) xs' ys = (zs', q')" by fastforce
    with "2.prems" 3 have z: "zs = x # zs'" by (auto simp: apfst_def map_prod_def)
    from "2.IH"(2) [of zs' q'] 3 t obtain a b where
      "zs' \<in> shuffles (take a xs') (take b ys)" "length zs' = min n (length xs' + length ys)" by auto
    then have "zs \<in> shuffles (take (Suc a) xs) (take b ys)" "length zs = min (Suc n) (length xs + length ys)"
      using z 3(1) by (auto intro: Cons_in_shuffles_leftI)
    then show ?thesis by blast
  qed
qed

section \<open>What is promoted\<close>

definition due :: "time \<Rightarrow> CandidateStatus \<Rightarrow> candidateRecord \<Rightarrow> bool" where
  "due now status r \<longleftrightarrow> cr_Status r = status \<and> \<not> (status = CandidateDelayed \<and> After (cr_RetryAt r) now)"

definition promotable :: "view \<Rightarrow> promotion \<Rightarrow> bool" where
  "promotable v item \<longleftrightarrow> (\<exists>i. fst item = id_bytes i \<and> vc v i = Some (snd item) \<and>
     cr_Status (snd item) \<in> {CandidateStaged, CandidateDelayed})"

lemma collectPromotion_Inr:
  "collectPromotion B now status db items e = Inr items' \<longleftrightarrow>
     (\<exists>r. decodeCandidateRecord (snd e) = Some r \<and>
       (if due now status r then bget B (pendingBucket db) (fst e) = None \<and> items' = items @ [(fst e, r)]
        else items' = items))"
  by (auto simp: collectPromotion_def due_def split: option.splits)

lemma collect_fold:
  "foldE (collectPromotion B now status db) items es = Inr items' \<Longrightarrow>
     items' = items @ map (\<lambda>e. (fst e, the (decodeCandidateRecord (snd e))))
       (filter (\<lambda>e. \<exists>r. decodeCandidateRecord (snd e) = Some r \<and> due now status r) es)"
proof (induction es arbitrary: items)
  case (Cons e es)
  from Cons.prems obtain items1 where c: "collectPromotion B now status db items e = Inr items1"
    and f: "foldE (collectPromotion B now status db) items1 es = Inr items'" unfolding foldE_Cons_Inr by blast
  from c obtain r where r: "decodeCandidateRecord (snd e) = Some r"
    "items1 = (if due now status r then items @ [(fst e, r)] else items)"
    unfolding collectPromotion_Inr by (auto split: if_splits)
  from Cons.IH [OF f] r show ?case by simp
qed simp

lemma collectPromotions_items:
  assumes Q: "seq_engine Q" and ok: "queue_shaped Q S db"
    and c: "collectPromotions (bkv Q) now status db = Inr items" and st: "status \<in> {CandidateStaged, CandidateDelayed}"
  shows "distinct (map fst items)"
    and "item \<in> set items \<Longrightarrow> promotable (view_of Q S db) item \<and> cr_Status (snd item) = status"
proof -
  note f = collect_fold [OF c [unfolded collectPromotions_def]]
  let ?es = "bentries (bkv Q) (candidatesBucket db)"
  have "map fst items = map fst (filter (\<lambda>e. \<exists>r. decodeCandidateRecord (snd e) = Some r \<and> due now status r) ?es)"
    by (simp add: f o_def)
  then show "distinct (map fst items)"
    by (simp only: distinct_map_filter [OF bolt_engine.entries_distinct [OF engine_of [OF Q]]])
  assume "item \<in> set items"
  then obtain e where e': "e \<in> set ?es" "\<exists>r. decodeCandidateRecord (snd e) = Some r \<and> due now status r"
    "item = (fst e, the (decodeCandidateRecord (snd e)))"
    unfolding f append_Nil set_map set_filter by blast
  then obtain r where e: "e \<in> set ?es" "decodeCandidateRecord (snd e) = Some r" "due now status r" "item = (fst e, r)"
    by auto
  obtain i r' where i: "fst e = id_bytes i" "decodeCandidateRecord (snd e) = Some r'" "vc (view_of Q S db) i = Some r'"
    by (rule candidate_entry [OF Q ok e(1)])
  have "r' = r" using e(2) i(2) by simp
  with i(1,3) e(3,4) st show "promotable (view_of Q S db) item \<and> cr_Status (snd item) = status"
    unfolding promotable_def due_def by (intro conjI exI [of _ i]) simp_all
qed

text \<open>Promoting a list of different candidates for which there is room.\<close>

lemma readied_promotable:
  assumes "promotable v item" and "fst item \<noteq> id_bytes i"
  shows "promotable (readied i r n v) item"
  using assms by (auto simp: promotable_def readied_def)

lemma promote_fold:
  assumes Q: "seq_engine Q"
  shows "foldE (promoteOne Q) db items = Inr db' \<Longrightarrow> queue_state Q S db \<Longrightarrow> distinct (map fst items) \<Longrightarrow>
    (\<And>item. item \<in> set items \<Longrightarrow> promotable (view_of Q S db) item) \<Longrightarrow>
    card (with_status (view_of Q S db) {CandidateReady}) + length items \<le> unat (bs_maxPending S) \<Longrightarrow>
    queue_state Q S db' \<and> metaBucket db' = metaBucket db \<and> vb (view_of Q S db') = vb (view_of Q S db) \<and>
    (\<forall>i. i \<in> with_status (view_of Q S db) {CandidateReady} \<or> id_bytes i \<in> set (map fst items) \<longrightarrow>
       i \<in> with_status (view_of Q S db') {CandidateReady})"
proof (induction items arbitrary: db)
  case (Cons item items)
  let ?v = "view_of Q S db"
  from Cons.prems(1) obtain db1 where p: "promoteOne Q db item = Inr db1" and f: "foldE (promoteOne Q) db1 items = Inr db'"
    unfolding foldE_Cons_Inr by blast
  obtain i where i: "fst item = id_bytes i" "vc ?v i = Some (snd item)" "cr_Status (snd item) \<in> {CandidateStaged, CandidateDelayed}"
    using Cons.prems(4) [of item] unfolding promotable_def by auto
  from i(1) have "promoteOne Q db (id_bytes i, snd item) = Inr db1" using p by (metis prod.collapse)
  from promoteOne_view [OF Q queue_stateD(1) [OF Cons.prems(2)] this] obtain n where n: "n = vs ?v + 1" "n \<noteq> 0"
    and b: "becomes Q S db db1 (readied i (snd item) n ?v)" unfolding readied_def by blast
  note v1 = becomes_view [OF b]
  have "card (with_status ?v {CandidateReady}) < unat (bs_maxPending S)" using Cons.prems(5) by simp
  from readied_ok [OF queue_stateD(2) [OF Cons.prems(2)] i(2,3) n this]
  have ok1: "queue_state Q S db1" using becomes_shaped [OF b] v1 by (simp add: queue_state_def)
  have "promotable (view_of Q S db1) it" if "it \<in> set items" for it
    unfolding v1 using that Cons.prems(3,4) i(1) by (intro readied_promotable) (auto simp: image_iff)
  moreover have "card (with_status (view_of Q S db1) {CandidateReady}) + length items \<le> unat (bs_maxPending S)"
  proof -
    have "card (with_status (view_of Q S db1) {CandidateReady}) \<le> card (with_status ?v {CandidateReady}) + 1"
      unfolding v1 using card_upd [of ?v "readied i (snd item) n ?v" i, OF queue_okD(1) [OF queue_stateD(2) [OF Cons.prems(2)]],
        of "(snd item)\<lparr>cr_Status := CandidateReady, cr_RetryAt := zeroTime\<rparr>" "{CandidateReady}"]
      by (simp add: readied_def split: if_splits)
    then show ?thesis using Cons.prems(5) by simp
  qed
  ultimately have "queue_state Q S db' \<and> metaBucket db' = metaBucket db1 \<and> vb (view_of Q S db') = vb (view_of Q S db1) \<and>
      (\<forall>j. j \<in> with_status (view_of Q S db1) {CandidateReady} \<or> id_bytes j \<in> set (map fst items) \<longrightarrow>
         j \<in> with_status (view_of Q S db') {CandidateReady})"
    using Cons.IH [OF f ok1] Cons.prems(3) by simp
  moreover have "j \<in> with_status (view_of Q S db1) {CandidateReady}"
    if "j \<in> with_status ?v {CandidateReady} \<or> id_bytes j = fst item" for j
    unfolding v1 using that i(1) by (auto simp: with_status_def readied_def simp del: view_sel)
  ultimately show ?case using b by (auto simp: becomes_def readied_def v1 simp del: view_sel)
qed simp

lemma map_in_shuffles: "zs \<in> shuffles xs ys \<Longrightarrow> map f zs \<in> shuffles (map f xs) (map f ys)"
  by (induction xs ys arbitrary: zs rule: shuffles.induct) auto

lemma shuffle_promotions:
  assumes z: "zs \<in> shuffles (take a xs) (take b ys)"
    and d: "distinct (map fst xs)" "distinct (map fst ys)" "set (map fst xs) \<inter> set (map fst ys) = {}"
  shows "distinct (map fst zs)" "set zs \<subseteq> set xs \<union> set ys"
proof -
  have "set zs = set (take a xs) \<union> set (take b ys)" by (rule set_shuffles [OF z])
  then show "set zs \<subseteq> set xs \<union> set ys" using set_take_subset [of a xs] set_take_subset [of b ys] by blast
  have "map fst zs \<in> shuffles (take a (map fst xs)) (take b (map fst ys))"
    using map_in_shuffles [OF z, of fst] by (simp add: take_map)
  moreover have "set (take a (map fst xs)) \<inter> set (take b (map fst ys)) = {}"
    using d(3) set_take_subset [of a "map fst xs"] set_take_subset [of b "map fst ys"] by blast
  ultimately show "distinct (map fst zs)"
    using distinct_disjoint_shuffles [OF distinct_take [OF d(1)] distinct_take [OF d(2)]] by blast
qed

text \<open>A promotion moves nothing when the ready queue is full or nothing is due.\<close>

lemma promoteCandidates_cases:
  assumes Q: "seq_engine Q" and ok: "queue_state Q S db" and p: "promoteCandidates Q S now db = Inr db'"
  defines "R \<equiv> card (with_status (view_of Q S db) {CandidateReady})"
  obtains (idle) "db' = db" "unat (bs_maxPending S) = R \<or>
      collectPromotions (bkv Q) now CandidateStaged db = Inr [] \<and> collectPromotions (bkv Q) now CandidateDelayed db = Inr []"
  | (moved) staged delayed turn promos turn' db1 m where
      "collectPromotions (bkv Q) now CandidateStaged db = Inr staged"
      "collectPromotions (bkv Q) now CandidateDelayed db = Inr delayed"
      "takeTurns (unat (bs_maxPending S) - R) turn staged delayed = (promos, turn')" "promos \<noteq> []"
      "foldE (promoteOne Q) db promos = Inr db1"
      "bput (bkv Q) (metaBucket db1) promotionTurnKey [recordVersion, if turn' then 1 else 0] = Some m"
      "db' = db1\<lparr>metaBucket := m\<rparr>" "R + length promos \<le> unat (bs_maxPending S)"
proof -
  define avail where "avail = bs_maxPending S - word_of_nat R"
  have R: "R \<le> unat (bs_maxPending S)"
    using queue_okD(4) [OF queue_stateD(2) [OF ok]] by (simp add: inv_counts_def R_def)
  then have av: "unat avail = unat (bs_maxPending S) - R"
    unfolding avail_def using unat_of_count [OF R] by (simp add: unat_sub word_le_nat_alt)
  note p' = p [unfolded promoteCandidates_def readyCount_exact [OF Q ok] bindE_simps Let_def, folded R_def avail_def]
  show thesis
  proof (cases "avail = 0")
    case True
    then have "unat avail = 0" by simp
    with p' True R av show ?thesis by (intro idle) simp_all
  next
    case False
    with p' obtain staged delayed where
      st: "collectPromotions (bkv Q) now CandidateStaged db = Inr staged"
      and de: "collectPromotions (bkv Q) now CandidateDelayed db = Inr delayed" by (auto simp: bindE_Inr)
    show ?thesis
    proof (cases "staged = [] \<and> delayed = []")
      case True
      with p' False st de show ?thesis by (intro idle) simp_all
    next
      case some: False
      with p' False st de obtain turn where
        rest: "(case takeTurns (unat avail) turn staged delayed of (promotions, preferDelayed) \<Rightarrow>
          bindE (foldE (promoteOne Q) db promotions)
            (\<lambda>db. bindE (putE (bkv Q) (metaBucket db) promotionTurnKey [recordVersion, if preferDelayed then 1 else 0])
            (\<lambda>meta. Inr (db\<lparr>metaBucket := meta\<rparr>)))) = Inr db'" by (auto simp: bindE_Inr)
      obtain promos turn' where t: "takeTurns (unat avail) turn staged delayed = (promos, turn')" by fastforce
      from rest [unfolded t prod.case] obtain db1 m where f: "foldE (promoteOne Q) db promos = Inr db1"
        and m: "bput (bkv Q) (metaBucket db1) promotionTurnKey [recordVersion, if turn' then 1 else 0] = Some m"
        and db': "db' = db1\<lparr>metaBucket := m\<rparr>" unfolding step_simps by blast
      have l: "length promos = min (unat avail) (length staged + length delayed)" using takeTurns_prefix [OF t] by blast
      have "unat avail \<noteq> 0" using False by (simp add: unat_eq_zero)
      moreover have "length staged + length delayed \<noteq> 0" using some by auto
      ultimately have "0 < length promos" using l by simp
      then have ne: "promos \<noteq> []" by simp
      have "R + length promos \<le> unat (bs_maxPending S)" using l av R by simp
      then show ?thesis by (rule moved [OF st de t [unfolded av] ne f m db'])
    qed
  qed
qed

lemma promoteCandidates_state:
  assumes Q: "seq_engine Q" and ok: "queue_state Q S db" and p: "promoteCandidates Q S now db = Inr db'"
  shows "queue_state Q S db' \<and> vb (view_of Q S db') = vb (view_of Q S db) \<and>
    (metaBucket db' = metaBucket db \<or> (\<exists>b. bput (bkv Q) (metaBucket db) promotionTurnKey [recordVersion, b] = Some (metaBucket db'))) \<and>
    (with_status (view_of Q S db') {CandidateReady} \<noteq> {} \<or> db' = db \<and>
       (unat (bs_maxPending S) = card (with_status (view_of Q S db) {CandidateReady}) \<or>
        collectPromotions (bkv Q) now CandidateStaged db = Inr [] \<and> collectPromotions (bkv Q) now CandidateDelayed db = Inr []))"
  using Q ok p
proof (cases rule: promoteCandidates_cases)
  case idle
  with ok show ?thesis by simp
next
  case (moved staged delayed turn promos turn' db1 m)
  note s = collectPromotions_items [OF Q queue_stateD(1) [OF ok] moved(1)] and
    d = collectPromotions_items [OF Q queue_stateD(1) [OF ok] moved(2)]
  obtain a b where z: "promos \<in> shuffles (take a staged) (take b delayed)" using takeTurns_prefix [OF moved(3)] by blast
  have dj: "set (map fst staged) \<inter> set (map fst delayed) = {}"
  proof (rule ccontr)
    assume "\<not> ?thesis"
    then obtain x y where xy: "x \<in> set staged" "y \<in> set delayed" "fst x = fst y" by auto
    with s(2) [of x] d(2) [of y] show False by (auto simp: promotable_def)
  qed
  note sh = shuffle_promotions [OF z s(1) d(1) dj]
  have pr: "promotable (view_of Q S db) item" if "item \<in> set promos" for item
    using that sh(2) s(2) [of item] d(2) [of item] by auto
  note r = promote_fold [OF Q moved(5) ok sh(1) pr moved(8)]
  have h: "hd promos \<in> set promos" using moved(4) by simp
  from pr [OF this] obtain i where "fst (hd promos) = id_bytes i" unfolding promotable_def by blast
  with imageI [OF h, of fst] have "id_bytes i \<in> set (map fst promos)" by simp
  with r have "with_status (view_of Q S db1) {CandidateReady} \<noteq> {}" by blast
  have q: "same_queue db1 db'" by (simp add: same_queue_def moved(7))
  have "with_status (view_of Q S db') {CandidateReady} \<noteq> {}"
    using \<open>with_status (view_of Q S db1) {CandidateReady} \<noteq> {}\<close> unfolding same_queue_view(1) [OF q] .
  moreover have "\<exists>b. bput (bkv Q) (metaBucket db) promotionTurnKey [recordVersion, b] = Some (metaBucket db')"
    using r moved(6,7) by auto
  ultimately show ?thesis using r by (simp add: same_queue_view [OF q] del: view_sel)
qed

end
