(* ===== verification/Queue_Runs.thy ===== *)
theory Queue_Runs
  imports Queue_Promotion
begin

text \<open>
  Every transaction of the queue and of the chain keeps the invariant, hence so does every
  interleaving of calls: a call that waits is a sequence of rounds, each one transaction.
\<close>

section \<open>Writes of records\<close>

lemma queue_ok_cong:
  assumes "queue_ok S v" and "vc w = vc v" "vp w = vp v" "vo w = vo v" "vs w = vs v"
  shows "queue_ok S w"
proof -
  have "inv_ready w" using queue_okD(3) [OF assms(1)] unfolding inv_ready_def assms(2-5) .
  then show ?thesis
    using assms queue_okD [OF assms(1)] by (simp add: queue_ok_def inv_ids_def inv_counts_def with_status_cong [OF assms(2)])
qed

lemma encoded_valid: "encodeCandidateRecord r = Some e \<Longrightarrow> validateCandidateRecord r"
  by (simp add: encodeCandidateRecord_def split: if_splits)

lemma insert_state:
  assumes Q: "seq_engine Q" and ok: "queue_state Q S db" and p: "insertCandidate (bkv Q) st c db = Inr db'"
    and new: "vc (view_of Q S db) (cand_ID c) = None" and m: "matchesCandidate S c"
    and st: "st = CandidateStaged \<and> card (with_status (view_of Q S db) unfinished) < unat (bs_journalCapacity S) \<or>
      st = CandidateObserved \<and> card (with_status (view_of Q S db) {CandidateObserved}) < unat (bs_maxPending S)"
  shows "queue_state Q S db'" "metaBucket db' = metaBucket db" "vb (view_of Q S db') = vb (view_of Q S db)"
    "vc (view_of Q S db') = (vc (view_of Q S db))(cand_ID c \<mapsto> \<lparr>cr_Status = st, cr_RetryAt = zeroTime, cr_Candidate = c\<rparr>)"
proof -
  note b = insertCandidate_view [OF Q queue_stateD(1) [OF ok] p]
  note v = becomes_view [OF b]
  have val: "validateCandidateRecord \<lparr>cr_Status = st, cr_RetryAt = zeroTime, cr_Candidate = c\<rparr>"
    using p encoded_valid by (auto simp: insertCandidate_def step_simps)
  have "queue_ok S (view_of Q S db')"
    unfolding v
    by (rule write_ok [OF queue_stateD(2) [OF ok], where i = "cand_ID c" and
          r = "\<lparr>cr_Status = st, cr_RetryAt = zeroTime, cr_Candidate = c\<rparr>"])
      (use new m st val in \<open>auto simp: with_status_def simp del: view_sel\<close>)
  then show "queue_state Q S db'" using becomes_shaped [OF b] by (simp add: queue_state_def)
  show "metaBucket db' = metaBucket db" using b by (simp add: becomes_def)
  show "vb (view_of Q S db') = vb (view_of Q S db)" unfolding v by (simp del: view_sel)
  show "vc (view_of Q S db') = (vc (view_of Q S db))(cand_ID c \<mapsto> \<lparr>cr_Status = st, cr_RetryAt = zeroTime, cr_Candidate = c\<rparr>)"
    unfolding v by (simp del: view_sel)
qed

text \<open>An observed candidate is staged with the metadata of the new sighting.\<close>

lemma restage_state:
  assumes Q: "seq_engine Q" and ok: "queue_state Q S db"
    and old: "vc (view_of Q S db) i = Some r" "cr_Status r \<in> {CandidateObserved, CandidateRemoved}"
    and e: "encodeCandidateRecord (r\<lparr>cr_Status := CandidateStaged, cr_Candidate := updateCandidateMetadata (cr_Candidate r) c\<rparr>) = Some e"
    and b: "bput (bkv Q) (candidatesBucket db) (id_bytes i) e = Some b"
    and room: "card (with_status (view_of Q S db) unfinished) < unat (bs_journalCapacity S)"
  defines "r' \<equiv> r\<lparr>cr_Status := CandidateStaged, cr_Candidate := updateCandidateMetadata (cr_Candidate r) c\<rparr>"
  shows "queue_state Q S (db\<lparr>candidatesBucket := b\<rparr>)" "vb (view_of Q S (db\<lparr>candidatesBucket := b\<rparr>)) = vb (view_of Q S db)"
    "vc (view_of Q S (db\<lparr>candidatesBucket := b\<rparr>)) = (vc (view_of Q S db))(i \<mapsto> r')"
proof -
  note d = inv_idsD [OF queue_okD(2) [OF queue_stateD(2) [OF ok]] old(1)]
  have t: "time_ok (cr_RetryAt r')"
    using d(3) old(2) by (auto simp: r'_def validateCandidateRecord_def IsZero_def zeroTime_ok)
  note w = put_record_view [OF Q queue_stateD(1) [OF ok] e [folded r'_def] t b]
  note v = becomes_view [OF w]
  have "queue_ok S (view_of Q S (db\<lparr>candidatesBucket := b\<rparr>))"
    unfolding v
    by (rule write_ok [OF queue_stateD(2) [OF ok], where i = i and r = r'])
      (use d old encoded_valid [OF e] room in \<open>auto simp: r'_def with_status_def update_metadata_same simp del: view_sel\<close>)
  then show "queue_state Q S (db\<lparr>candidatesBucket := b\<rparr>)" using becomes_shaped [OF w] by (simp add: queue_state_def)
  show "vb (view_of Q S (db\<lparr>candidatesBucket := b\<rparr>)) = vb (view_of Q S db)" by simp
  show "vc (view_of Q S (db\<lparr>candidatesBucket := b\<rparr>)) = (vc (view_of Q S db))(i \<mapsto> r')" unfolding v by (simp del: view_sel)
qed

lemma stored_view:
  assumes "bget B (candidatesBucket db) (id_bytes i) = Some x" and "decodeCandidateRecord x = Some r"
  shows "bucket_table id_bytes decodeCandidateRecord B (candidatesBucket db) i = Some r"
  using assms by (simp add: bucket_table_def)

lemma stored_same_Inr:
  "stored_same S c x = Inr r \<longleftrightarrow> decodeCandidateRecord x = Some r \<and> sameCandidateIdentity (cr_Candidate r) c \<and>
     matchesCandidate S (cr_Candidate r)"
  by (auto simp: stored_same_def split: option.splits)

lemma stored_candidate_Inr:
  "stored_candidate S i x = Inr r \<longleftrightarrow> decodeCandidateRecord x = Some r \<and> cand_ID (cr_Candidate r) = i \<and>
     matchesCandidate S (cr_Candidate r)"
  by (auto simp: stored_candidate_def split: option.splits)

lemma absent_view:
  assumes "queue_shaped Q S db"
  shows "bget (bkv Q) (candidatesBucket db) (id_bytes i) = None \<longleftrightarrow> vc (view_of Q S db) i = None"
  using cand_rows.tab_None [of "bkv Q" "candidatesBucket db" i] assms by (simp add: queue_shaped_def)

section \<open>Transactions of the queue\<close>

lemma put_tx_state:
  assumes Q: "seq_engine Q" and ok: "queue_state Q S db" and c: "validateInputCandidate S c"
    and p: "put_tx Q S now c db = Inr (r, db')"
  shows "queue_state Q S db'"
proof (cases "bget (bkv Q) (candidatesBucket db) (id_bytes (cand_ID c))")
  case None
  with absent_view [OF queue_stateD(1) [OF ok]] have new: "vc (view_of Q S db) (cand_ID c) = None" by (simp del: view_sel)
  show ?thesis
  proof (cases "candidateAlreadyScanned (bkv Q) S c db")
    case False
    with p None obtain db1 where j: "reserveJournal (bkv Q) S 1 db = Inr ()"
      and i: "insertCandidate (bkv Q) CandidateStaged c db = Inr db1" and pr: "promoteCandidates Q S now db1 = Inr db'"
      by (auto simp: put_tx_def bindE_Inr)
    have "queue_state Q S db1"
      by (rule insert_state(1) [OF Q ok i new])
        (use c reserveJournal_room [OF Q ok j] in \<open>simp_all add: validateInputCandidate_def\<close>)
    from promoteCandidates_state [OF Q this pr] show ?thesis by blast
  qed (use p None ok in \<open>simp add: put_tx_def\<close>)
next
  case (Some x)
  show ?thesis
  proof (cases "db' = db")
    case False
    with p Some obtain q e b where s: "decodeCandidateRecord x = Some q" and st: "cr_Status q \<in> {CandidateObserved, CandidateRemoved}"
      and j: "reserveJournal (bkv Q) S 1 db = Inr ()"
      and e: "encodeCandidateRecord (q\<lparr>cr_Status := CandidateStaged, cr_Candidate := updateCandidateMetadata (cr_Candidate q) c\<rparr>) = Some e"
      and b: "bput (bkv Q) (candidatesBucket db) (id_bytes (cand_ID c)) e = Some b"
      and pr: "promoteCandidates Q S now (db\<lparr>candidatesBucket := b\<rparr>) = Inr db'"
      by (auto simp: put_tx_def put_existing_def step_simps stored_same_Inr split: if_splits)
    have "vc (view_of Q S db) (cand_ID c) = Some q" using stored_view [OF Some s] by simp
    from restage_state(1) [OF Q ok this st e b] reserveJournal_room [OF Q ok j]
    have "queue_state Q S (db\<lparr>candidatesBucket := b\<rparr>)" by simp
    from promoteCandidates_state [OF Q this pr] show ?thesis by blast
  qed (use ok in simp)
qed

lemma put_observed_state:
  assumes Q: "seq_engine Q" and ok: "queue_state Q S db" and c: "validateInputCandidate S c"
    and p: "put_observed_tx (bkv Q) S c db = Inr (r, db')"
  shows "queue_state Q S db'"
proof (cases "db' = db")
  case False
  with p have none: "bget (bkv Q) (candidatesBucket db) (id_bytes (cand_ID c)) = None"
    by (auto simp: put_observed_tx_def bindE_Inr split: option.splits)
  with p False obtain n where n: "statusCount (bkv Q) S db = Inr n" "\<not> bs_maxPending S \<le> n"
    and i: "insertCandidate (bkv Q) CandidateObserved c db = Inr db'"
    by (auto simp: put_observed_tx_def step_simps split: if_splits)
  let ?O = "card (with_status (view_of Q S db) {CandidateObserved})"
  have "?O \<le> unat (bs_maxPending S)" using queue_okD(4) [OF queue_stateD(2) [OF ok]] by (simp add: inv_counts_def)
  then have "?O < unat (bs_maxPending S)"
    using n statusCount_exact [OF Q ok] unat_of_count by (auto simp: word_le_nat_alt)
  moreover have "vc (view_of Q S db) (cand_ID c) = None"
    using none absent_view [OF queue_stateD(1) [OF ok]] by (simp del: view_sel)
  ultimately show ?thesis
    by (intro insert_state(1) [OF Q ok i]) (use c in \<open>simp_all add: validateInputCandidate_def\<close>)
qed (use ok in simp)

text \<open>Deleting a candidate that is not ready, with its index entry.\<close>

lemma drop_calm:
  assumes Q: "seq_engine Q" and ok: "queue_state Q S db"
    and r: "vc (view_of Q S db) i = Some r" "cr_Status r \<noteq> CandidateReady"
    and c: "bdel (bkv Q) (candidatesBucket db) (id_bytes i) = Some bc"
    and p: "bdel (bkv Q) (pendingBucket db) (id_bytes i) = Some bp"
    and x: "bx = blockIndexBucket db \<or> bdel (bkv Q) (blockIndexBucket db) k = Some bx"
  shows "calm Q S db (db\<lparr>candidatesBucket := bc, pendingBucket := bp, blockIndexBucket := bx\<rparr>)"
proof -
  note B = engine_of [OF Q]
  let ?db = "db\<lparr>candidatesBucket := bc, pendingBucket := bp, blockIndexBucket := bx\<rparr>"
  have "vp (view_of Q S db) i = None"
    using ready_iff [OF queue_okD(3) [OF queue_stateD(2) [OF ok]], of i] r by simp
  then have vp: "vp (view_of Q S ?db) = vp (view_of Q S db)"
    using pend_rows.tab_del [OF B p] by (simp add: fun_upd_idem)
  have "queue_shaped Q S ?db"
    using queue_stateD(1) [OF ok] cand_rows.shaped_del [OF B c] pend_rows.shaped_del [OF B p] index_rows.shaped_del [OF B] x
    by (auto simp: queue_shaped_def)
  moreover have "sheds (view_of Q S db) (view_of Q S ?db)"
    by (rule sheds_forget [of _ _ i, OF _ not_ready [OF r] vp]) (use cand_rows.tab_del [OF B c] in simp_all)
  ultimately show ?thesis by (simp add: calm_def)
qed

lemma mark_removed_state:
  assumes Q: "seq_engine Q" and ok: "queue_state Q S db" and p: "mark_removed_tx (bkv Q) S i db = Inr (u, db')"
  shows "queue_state Q S db'"
proof (cases "db' = db")
  case False
  with p obtain x r where x: "bget (bkv Q) (candidatesBucket db) (id_bytes i) = Some x" "decodeCandidateRecord x = Some r"
    "cr_Status r = CandidateObserved" and d: "deleteObserved (bkv Q) S r i db = Inr db'"
    by (auto simp: mark_removed_tx_def bindE_Inr stored_candidate_Inr split: option.splits if_splits)
  from d obtain bc bx bp where c: "bdel (bkv Q) (candidatesBucket db) (id_bytes i) = Some bc"
    and x': "(case candidateBlockIndexKey (cr_Candidate r) of None \<Rightarrow> Inr (blockIndexBucket db)
        | Some key \<Rightarrow> delE (bkv Q) (blockIndexBucket db) key) = Inr bx"
    and bp: "bdel (bkv Q) (pendingBucket db) (id_bytes i) = Some bp"
    and a: "advanceCheckpoint (bkv Q) S (db\<lparr>candidatesBucket := bc, blockIndexBucket := bx, pendingBucket := bp\<rparr>) = Inr db'"
    unfolding deleteObserved_def step_simps by blast
  have bx: "bx = blockIndexBucket db \<or> (\<exists>k. bdel (bkv Q) (blockIndexBucket db) k = Some bx)"
    using x' by (auto simp: delE_Inr split: option.splits)
  have "vc (view_of Q S db) i = Some r" using stored_view [OF x(1,2)] by simp
  from drop_calm [OF Q ok this _ c bp] bx x(3)
  have "calm Q S db (db\<lparr>candidatesBucket := bc, pendingBucket := bp, blockIndexBucket := bx\<rparr>)" by auto
  moreover have "db\<lparr>candidatesBucket := bc, pendingBucket := bp, blockIndexBucket := bx\<rparr> =
      db\<lparr>candidatesBucket := bc, blockIndexBucket := bx, pendingBucket := bp\<rparr>" by simp
  ultimately have "calm Q S db (db\<lparr>candidatesBucket := bc, blockIndexBucket := bx, pendingBucket := bp\<rparr>)"
    by (simp only:)
  note s = calm_state [OF ok this]
  from calm_state [OF s advanceCheckpoint_calm [OF Q s a]] show ?thesis .
qed (use ok in simp)

lemma put_inc_state:
  assumes Q: "seq_engine Q" and ok: "queue_state Q S db" and e: "encodeIncident inc = Some x" "time_ok (inc_CreatedAt inc)"
    and p: "put_inc_tx (bkv Q) S inc x db = Inr (u, db')"
  shows "queue_state Q S db'"
proof (cases "db' = db")
  case False
  with p obtain b where b: "bput (bkv Q) (incidentsBucket db) (id_bytes (inc_Candidate inc)) x = Some b"
    and db': "db' = db\<lparr>incidentsBucket := b\<rparr>"
    by (auto simp: put_inc_tx_def step_simps split: option.splits)
  have "queue_shaped Q S db'"
    using queue_stateD(1) [OF ok] inc_rows.shaped_put [OF engine_of [OF Q] b decode_encode_incident [OF e]]
    by (simp add: queue_shaped_def db')
  moreover have "queue_ok S (view_of Q S db')"
    by (rule queue_ok_cong [OF queue_stateD(2) [OF ok]]) (simp_all add: db')
  ultimately show ?thesis by (simp add: queue_state_def)
qed (use ok in simp)

lemma resolve_state:
  assumes Q: "seq_engine Q" and ok: "queue_state Q S db" and t: "time_ok retryAt"
    and st: "status \<in> {CandidateDelayed, CandidateAcknowledged}"
    and p: "resolve_tx Q S now i inc status retryAt db = Inr (u, db')"
  shows "queue_state Q S db'"
proof (cases "db' = db")
  case False
  with p obtain x r where x: "bget (bkv Q) (candidatesBucket db) (id_bytes i) = Some x" "decodeCandidateRecord x = Some r"
    and rr: "resolve_ready Q S now r i status retryAt db = Inr (u, db')"
    by (auto simp: resolve_tx_def bindE_Inr stored_candidate_Inr split: option.splits if_splits)
  from rr obtain db1 db2 where l: "leaveReady (bkv Q) (r\<lparr>cr_Status := status, cr_RetryAt := retryAt\<rparr>) i db = Inr db1"
    and a: "(if status = CandidateAcknowledged then bindE (addTombstone Q S i db1) (advanceCheckpoint (bkv Q) S) else Inr db1) = Inr db2"
    and pr: "promoteCandidates Q S now db2 = Inr db'"
    by (auto simp: resolve_ready_def bindE_Inr)
  have r: "vc (view_of Q S db) i = Some r" using stored_view [OF x] by simp
  note d = inv_idsD [OF queue_okD(2) [OF queue_stateD(2) [OF ok]] r]
  from leaveReady_view [OF Q queue_stateD(1) [OF ok] l] t obtain n where
    val: "validateCandidateRecord (r\<lparr>cr_Status := status, cr_RetryAt := retryAt\<rparr>)" and n: "vp (view_of Q S db) i = Some n"
    and b: "becomes Q S db db1 ((view_of Q S db)\<lparr>vc := (vc (view_of Q S db))(i \<mapsto> r\<lparr>cr_Status := status, cr_RetryAt := retryAt\<rparr>),
      vo := (vo (view_of Q S db))(n := None), vp := (vp (view_of Q S db))(i := None)\<rparr>)"
    by (auto simp del: view_sel)
  have "queue_ok S (view_of Q S db1)"
    by (rule left_ok [OF queue_stateD(2) [OF ok] n _ _ val _ becomes_view [OF b]]) (use d st in simp_all)
  then have ok1: "queue_state Q S db1" using becomes_shaped [OF b] by (simp add: queue_state_def)
  have "queue_state Q S db2"
  proof (cases "status = CandidateAcknowledged")
    case True
    with a obtain db3 where t: "addTombstone Q S i db1 = Inr db3" "advanceCheckpoint (bkv Q) S db3 = Inr db2"
      by (auto simp: bindE_Inr)
    note s3 = calm_state [OF ok1 addTombstone_calm [OF Q ok1 t(1)]]
    from calm_state [OF s3 advanceCheckpoint_calm [OF Q s3 t(2)]] show ?thesis .
  qed (use a ok1 in simp)
  from promoteCandidates_state [OF Q this pr] show ?thesis by blast
qed (use ok in simp)

end
