(* ===== verification/Queue_Commit.thy ===== *)
theory Queue_Commit
  imports Queue_Runs
begin

text \<open>
  Committing a block keeps the invariant of the queue: observations outside the block are dropped,
  and the journal has room for the candidates the block adds.
\<close>

section \<open>Observations outside the block\<close>

lemma reconcileEntry_calm:
  assumes Q: "seq_engine Q" and ok: "queue_state Q S db" and p: "reconcileEntry (bkv Q) n wanted db e = Inr db'"
  shows "calm Q S db db'"
proof (cases "db' = db")
  case False
  define i where "i = (bytes_word (drop 40 (fst e)) :: CandidateID)"
  from p False obtain r bc bp bx where r: "vc (view_of Q S db) i = Some r" "cr_Status r \<in> {CandidateObserved, CandidateRemoved}"
    and d: "bdel (bkv Q) (candidatesBucket db) (id_bytes i) = Some bc" "bdel (bkv Q) (pendingBucket db) (id_bytes i) = Some bp"
      "bdel (bkv Q) (blockIndexBucket db) (fst e) = Some bx"
    and db': "db' = db\<lparr>candidatesBucket := bc, pendingBucket := bp, blockIndexBucket := bx\<rparr>"
    by (auto simp: reconcileEntry_def step_simps decode_stored Let_def i_def split: if_splits)
  have "cr_Status r \<noteq> CandidateReady" using r(2) by auto
  from drop_calm [OF Q ok r(1) this d(1,2) disjI2 [OF d(3)]] show ?thesis by (simp only: db')
qed (use ok in \<open>simp add: calm_refl\<close>)

lemma reconcileBlock_calm:
  assumes Q: "seq_engine Q" and ok: "queue_state Q S db" and p: "reconcileBlockObservations (bkv Q) n wanted db = Inr db'"
  shows "calm Q S db db'"
  by (rule foldE_calm [OF p [unfolded reconcileBlockObservations_def] ok]) (rule reconcileEntry_calm [OF Q])

section \<open>Tokens\<close>

lemma confirmToken_same:
  "confirmToken B S (n, db) a = Inr (m, db') \<Longrightarrow> same_queue db db' \<and>
     (\<forall>k. k \<noteq> discoveryOverflowKey \<longrightarrow> bolt_engine B \<longrightarrow> bget B (metaBucket db') k = bget B (metaBucket db) k)"
  by (auto simp: confirmToken_def step_simps same_queue_def bolt_engine.get_put Let_def split: if_splits)

lemma same_queue_refl: "same_queue db db"
  by (simp add: same_queue_def)

lemma same_queue_trans: "same_queue db db1 \<Longrightarrow> same_queue db1 db2 \<Longrightarrow> same_queue db db2"
  by (simp add: same_queue_def)

lemma confirmTokens_fold:
  "foldE (confirmToken B S) (n, db) as = Inr (m, db') \<Longrightarrow> same_queue db db' \<and>
     (\<forall>k. k \<noteq> discoveryOverflowKey \<longrightarrow> bolt_engine B \<longrightarrow> bget B (metaBucket db') k = bget B (metaBucket db) k)"
proof (induction as arbitrary: n db)
  case (Cons a as)
  from Cons.prems obtain n1 db1 where c: "confirmToken B S (n, db) a = Inr (n1, db1)"
    and f: "foldE (confirmToken B S) (n1, db1) as = Inr (m, db')" unfolding foldE_Cons_Inr by auto
  from confirmToken_same [OF c] Cons.IH [OF f] same_queue_trans [of db db1 db'] show ?case by simp
qed (simp add: same_queue_refl)

lemma confirmDiscovered_same:
  assumes "confirmDiscoveredTokens B S cs db = Inr db'"
  shows "same_queue db db'"
    "k \<noteq> discoveryOverflowKey \<Longrightarrow> bolt_engine B \<Longrightarrow> bget B (metaBucket db') k = bget B (metaBucket db) k"
proof -
  from assms obtain n m where "foldE (confirmToken B S) (n, db) (newTokens B db cs) = Inr (m, db')"
    by (auto simp: confirmDiscoveredTokens_def bindE_Inr)
  from confirmTokens_fold [OF this]
  show "same_queue db db'"
    "k \<noteq> discoveryOverflowKey \<Longrightarrow> bolt_engine B \<Longrightarrow> bget B (metaBucket db') k = bget B (metaBucket db) k" by blast+
qed

section \<open>Staging the members\<close>

text \<open>The candidates of a block that take a new place in the journal.\<close>

definition fresh :: "view \<Rightarrow> RescueCandidate \<Rightarrow> bool" where
  "fresh v c \<longleftrightarrow> (\<forall>r. vc v (cand_ID c) = Some r \<longrightarrow> cr_Status r \<in> {CandidateObserved, CandidateRemoved})"

lemma countAdditional_fold:
  assumes ok: "queue_shaped Q S db" and f: "foldE (countAdditional (bkv Q) S db) n cs = Inr m"
    and l: "unat n + length cs < 2 ^ 32"
  shows "unat m = unat n + length (filter (fresh (view_of Q S db)) cs)"
  using f l
proof (induction cs arbitrary: n)
  case (Cons c cs)
  from Cons.prems(1) obtain n1 where c: "countAdditional (bkv Q) S db n c = Inr n1"
    and f: "foldE (countAdditional (bkv Q) S db) n1 cs = Inr m" unfolding foldE_Cons_Inr by auto
  have n1: "n1 = (if fresh (view_of Q S db) c then n + 1 else n)"
  proof (cases "bget (bkv Q) (candidatesBucket db) (id_bytes (cand_ID c))")
    case None
    with c absent_view [OF ok] show ?thesis by (simp add: countAdditional_def fresh_def del: view_sel)
  next
    case (Some x)
    with c obtain r where "decodeCandidateRecord x = Some r" by (auto simp: countAdditional_def split: option.splits)
    with c Some show ?thesis by (auto simp: countAdditional_def fresh_def bucket_table_def split: if_splits)
  qed
  have "unat (n + 1) = unat n + 1" using Cons.prems(2) by (simp add: unat_word_ariths)
  with n1 Cons.IH [OF f] Cons.prems(2) show ?case by (auto split: if_splits)
qed simp

lemma stageCandidate_step:
  assumes Q: "seq_engine Q" and ok: "queue_state Q S db" and p: "stageCandidate (bkv Q) S db c = Inr db'"
    and m: "matchesCandidate S c"
    and room: "fresh (view_of Q S db) c \<Longrightarrow> card (with_status (view_of Q S db) unfinished) < unat (bs_journalCapacity S)"
  shows "queue_state Q S db' \<and> metaBucket db' = metaBucket db \<and> vb (view_of Q S db') = vb (view_of Q S db) \<and>
    (\<forall>j. j \<noteq> cand_ID c \<longrightarrow> vc (view_of Q S db') j = vc (view_of Q S db) j) \<and>
    card (with_status (view_of Q S db') unfinished) \<le>
      card (with_status (view_of Q S db) unfinished) + (if fresh (view_of Q S db) c then 1 else 0)"
proof -
  note fin = queue_okD(1) [OF queue_stateD(2) [OF ok]]
  have grow: "card (with_status (view_of Q S db') unfinished) \<le> card (with_status (view_of Q S db) unfinished) + 1"
    if "vc (view_of Q S db') = (vc (view_of Q S db))(cand_ID c \<mapsto> r)" for r
    using card_upd [OF fin that, of unfinished] by (auto split: if_splits)
  show ?thesis
  proof (cases "bget (bkv Q) (candidatesBucket db) (id_bytes (cand_ID c))")
    case None
    then have new: "vc (view_of Q S db) (cand_ID c) = None" using absent_view [OF queue_stateD(1) [OF ok]] by (simp del: view_sel)
    then have fr: "fresh (view_of Q S db) c" by (simp add: fresh_def del: view_sel)
    have i: "insertCandidate (bkv Q) CandidateStaged c db = Inr db'" using p None by (simp add: stageCandidate_def)
    note s = insert_state [OF Q ok i new m disjI1 [OF conjI [OF refl room [OF fr]]]]
    from s grow [OF s(4)] fr show ?thesis by (simp del: view_sel)
  next
    case (Some x)
    with p obtain r where r: "decodeCandidateRecord x = Some r"
      by (auto simp: stageCandidate_def bindE_Inr stored_same_Inr)
    then have v: "vc (view_of Q S db) (cand_ID c) = Some r" using stored_view [OF Some] by simp
    show ?thesis
    proof (cases "cr_Status r \<in> {CandidateObserved, CandidateRemoved}")
      case True
      then have fr: "fresh (view_of Q S db) c" using v by (simp add: fresh_def del: view_sel)
      from p Some r True obtain e b where
        e: "encodeCandidateRecord (r\<lparr>cr_Status := CandidateStaged, cr_Candidate := updateCandidateMetadata (cr_Candidate r) c\<rparr>) = Some e"
        and b: "bput (bkv Q) (candidatesBucket db) (id_bytes (cand_ID c)) e = Some b" and db': "db' = db\<lparr>candidatesBucket := b\<rparr>"
        by (auto simp: stageCandidate_def step_simps stored_same_Inr)
      note s = restage_state [OF Q ok v True e b room [OF fr], folded db']
      from s grow [OF s(3)] fr db' show ?thesis by (simp del: view_sel)
    next
      case False
      with p Some r have "db' = db" by (auto simp: stageCandidate_def step_simps stored_same_Inr)
      with ok show ?thesis by (simp del: view_sel)
    qed
  qed
qed

lemma stage_fold:
  assumes Q: "seq_engine Q"
  shows "foldE (stageCandidate (bkv Q) S) db cs = Inr db' \<Longrightarrow> queue_state Q S db \<Longrightarrow> distinct (map cand_ID cs) \<Longrightarrow>
    (\<And>c. c \<in> set cs \<Longrightarrow> matchesCandidate S c) \<Longrightarrow>
    card (with_status (view_of Q S db) unfinished) + length (filter (fresh (view_of Q S db)) cs) \<le> unat (bs_journalCapacity S) \<Longrightarrow>
    queue_state Q S db' \<and> metaBucket db' = metaBucket db \<and> vb (view_of Q S db') = vb (view_of Q S db)"
proof (induction cs arbitrary: db)
  case (Cons c cs)
  from Cons.prems(1) obtain db1 where c: "stageCandidate (bkv Q) S db c = Inr db1"
    and f: "foldE (stageCandidate (bkv Q) S) db1 cs = Inr db'" unfolding foldE_Cons_Inr by blast
  have "matchesCandidate S c" using Cons.prems(4) by simp
  from stageCandidate_step [OF Q Cons.prems(2) c this] Cons.prems(5)
  have s: "queue_state Q S db1" "metaBucket db1 = metaBucket db" "vb (view_of Q S db1) = vb (view_of Q S db)"
    "\<And>j. j \<noteq> cand_ID c \<Longrightarrow> vc (view_of Q S db1) j = vc (view_of Q S db) j"
    "card (with_status (view_of Q S db1) unfinished) \<le>
      card (with_status (view_of Q S db) unfinished) + (if fresh (view_of Q S db) c then 1 else 0)"
    by (auto simp del: view_sel split: if_splits)
  have "fresh (view_of Q S db1) d = fresh (view_of Q S db) d" if "d \<in> set cs" for d
  proof -
    have ne: "cand_ID d \<noteq> cand_ID c" using that Cons.prems(3) by (force simp: image_iff)
    show ?thesis unfolding fresh_def s(4) [OF ne] ..
  qed
  then have "filter (fresh (view_of Q S db1)) cs = filter (fresh (view_of Q S db)) cs" by (intro filter_cong) auto
  with s(5) Cons.prems(5) have "card (with_status (view_of Q S db1) unfinished) +
      length (filter (fresh (view_of Q S db1)) cs) \<le> unat (bs_journalCapacity S)" by (auto split: if_splits)
  from Cons.IH [OF f s(1) _ _ this] Cons.prems(3,4) s(2,3) show ?case by (simp del: view_sel)
qed simp

section \<open>The commit\<close>

lemma has_repeat_distinct: "sorted xs \<Longrightarrow> \<not> has_repeat xs \<Longrightarrow> distinct xs"
  by (induction xs rule: has_repeat.induct) auto

lemma sortedMemberIDs_distinct:
  assumes "sortedMemberIDs cs = Some ms"
  shows "distinct (map cand_ID cs)" "set ms = cand_ID ` set cs"
proof -
  from assms have ms: "ms = sort (map cand_ID cs)" "\<not> has_repeat (sort (map cand_ID cs))"
    by (auto simp: sortedMemberIDs_def Let_def split: if_splits)
  then show "distinct (map cand_ID cs)" using has_repeat_distinct [of "sort (map cand_ID cs)"] by simp
  show "set ms = cand_ID ` set cs" using ms(1) by simp
qed

lemma recordBlock_state:
  assumes Q: "seq_engine Q" and ok: "queue_state Q S db" and p: "recordBlock (bkv Q) block x first db = Inr db'"
    and x: "decodeBlock x (bs_journalCapacity S) = Some b"
  shows "queue_state Q S db'" "vb (view_of Q S db') = (vb (view_of Q S db))(cp_BlockNumber (cb_Checkpoint block) \<mapsto> b)"
proof -
  note B = engine_of [OF Q]
  from p obtain bb m where bb: "bput (bkv Q) (blocksBucket db) (encodeUint64 (cp_BlockNumber (cb_Checkpoint block))) x = Some bb"
    and db': "db' = db\<lparr>blocksBucket := bb, metaBucket := m\<rparr>"
    by (auto simp: recordBlock_def step_simps Let_def blockNumberKey_def)
  have bv: "block_value S x = Some b" using x by (simp add: block_value_def)
  have "queue_shaped Q S db'"
    using queue_stateD(1) [OF ok] block_rows.shaped_put [OF B bb bv] by (simp add: queue_shaped_def db')
  moreover have "queue_ok S (view_of Q S db')"
    by (rule queue_ok_cong [OF queue_stateD(2) [OF ok]]) (simp_all add: db')
  ultimately show "queue_state Q S db'" by (simp add: queue_state_def)
  show "vb (view_of Q S db') = (vb (view_of Q S db))(cp_BlockNumber (cb_Checkpoint block) \<mapsto> b)"
    using block_rows.tab_put [OF B bb bv] by (simp add: db')
qed

lemma commit_new_parts:
  assumes "commit_new Q S now block members x db = Inr (u, db')"
  obtains db1 k db2 db3 db4 db5 where
    "reconcileBlockObservations (bkv Q) (cp_BlockNumber (cb_Checkpoint block)) members db = Inr db1"
    "additionalJournalEntries (bkv Q) S (cb_Candidates block) db1 = Inr k" "reserveJournal (bkv Q) S k db1 = Inr ()"
    "confirmDiscoveredTokens (bkv Q) S (cb_Candidates block) db1 = Inr db2"
    "foldE (stageCandidate (bkv Q) S) db2 (cb_Candidates block) = Inr db3"
    "recordBlock (bkv Q) block x (bget (bkv Q) (metaBucket db) scanCursorKey = None) db3 = Inr db4"
    "promoteCandidates Q S now db4 = Inr db5" "advanceCheckpoint (bkv Q) S db5 = Inr db'"
    "follows_cursor (bkv Q) S block db = Inr ()" "u"
  using assms unfolding commit_new_def Let_def by (auto simp: bindE_Inr)

lemma commit_staged_state:
  assumes Q: "seq_engine Q" and ok: "queue_state Q S db" and v: "validateCanonicalBlock S block"
    and ms: "sortedMemberIDs (cb_Candidates block) = Some members"
    and r: "reconcileBlockObservations (bkv Q) n members db = Inr db1"
    and a: "additionalJournalEntries (bkv Q) S (cb_Candidates block) db1 = Inr k" and j: "reserveJournal (bkv Q) S k db1 = Inr ()"
    and d: "confirmDiscoveredTokens (bkv Q) S (cb_Candidates block) db1 = Inr db2"
    and s: "foldE (stageCandidate (bkv Q) S) db2 (cb_Candidates block) = Inr db3"
  shows "queue_state Q S db3"
proof -
  let ?cs = "cb_Candidates block"
  have ok1: "queue_state Q S db1" by (rule calm_state [OF ok reconcileBlock_calm [OF Q ok r]])
  have sq: "same_queue db1 db2" by (rule confirmDiscovered_same(1) [OF d])
  have ok2: "queue_state Q S db2" using ok1 same_queue_view(3) [OF sq] by simp
  have "length ?cs < 2 ^ 32"
    using v uint_lt2p [of "bs_journalCapacity S"] by (auto simp: validateCanonicalBlock_def)
  then have k: "unat k = length (filter (fresh (view_of Q S db1)) ?cs)"
    using countAdditional_fold [OF queue_stateD(1) [OF ok1] a [unfolded additionalJournalEntries_def]] by simp
  have "card (with_status (view_of Q S db2) unfinished) + length (filter (fresh (view_of Q S db2)) ?cs) \<le> unat (bs_journalCapacity S)"
    using reserveJournal_room [OF Q ok1 j] k by (simp add: same_queue_view(1) [OF sq])
  moreover have "matchesCandidate S c" if "c \<in> set ?cs" for c
    using v that by (auto simp: validateCanonicalBlock_def list_all_iff validateInputCandidate_def)
  ultimately show ?thesis
    using stage_fold [OF Q s ok2 sortedMemberIDs_distinct(1) [OF ms]] by blast
qed

lemma commit_block_state:
  assumes Q: "seq_engine Q" and ok: "queue_state Q S db" and v: "validateCanonicalBlock S block"
    and ms: "sortedMemberIDs (cb_Candidates block) = Some members"
    and x: "encodeBlock b (bs_journalCapacity S) = Some x"
    and p: "commit_block_tx Q S now block members x db = Inr (u, db')"
  shows "queue_state Q S db'"
proof (cases "db' = db")
  case False
  with p have n: "commit_new Q S now block members x db = Inr (u, db')"
    by (auto simp: commit_block_tx_def bindE_Inr split: option.splits)
  obtain db1 k db2 db3 db4 db5 where
    c: "reconcileBlockObservations (bkv Q) (cp_BlockNumber (cb_Checkpoint block)) members db = Inr db1"
      "additionalJournalEntries (bkv Q) S (cb_Candidates block) db1 = Inr k" "reserveJournal (bkv Q) S k db1 = Inr ()"
      "confirmDiscoveredTokens (bkv Q) S (cb_Candidates block) db1 = Inr db2"
      "foldE (stageCandidate (bkv Q) S) db2 (cb_Candidates block) = Inr db3"
      "recordBlock (bkv Q) block x (bget (bkv Q) (metaBucket db) scanCursorKey = None) db3 = Inr db4"
    and pr: "promoteCandidates Q S now db4 = Inr db5" and ad: "advanceCheckpoint (bkv Q) S db5 = Inr db'"
    by (rule commit_new_parts [OF n])
  note ok4 = recordBlock_state(1) [OF Q commit_staged_state [OF Q ok v ms c(1-5)] c(6) decode_encode_block [OF x]]
  have ok5: "queue_state Q S db5" using promoteCandidates_state [OF Q ok4 pr] by blast
  from calm_state [OF ok5 advanceCheckpoint_calm [OF Q ok5 ad]] show ?thesis .
qed (use ok in simp)

end
