(* ===== verification/Queue_Reach.thy ===== *)
theory Queue_Reach
  imports Queue_Commit
begin

text \<open>
  All states of the queue that calls can reach, in any order and any interleaving, and what the
  consumer gets from it: the candidates leave in the order in which they became ready, and the
  consumer waits only when nothing is due.
\<close>

section \<open>Reachable states\<close>

text \<open>
  Each rule is one transaction. A call that waits runs its round again and again; other calls act
  between its rounds. Calls on leases and on rescues leave the queue's buckets alone.
\<close>

inductive queue_reaches :: "'b seq_bolt \<Rightarrow> BoltStore \<Rightarrow> 'b store_state \<Rightarrow> bool" for Q S where
  created: "candidatesBucket (st_db st) = bempty (bkv Q) \<Longrightarrow> pendingBucket (st_db st) = bempty (bkv Q) \<Longrightarrow>
    readyOrderBucket (st_db st) = bempty (bkv Q) \<Longrightarrow> blockIndexBucket (st_db st) = bempty (bkv Q) \<Longrightarrow>
    incidentsBucket (st_db st) = bempty (bkv Q) \<Longrightarrow> blocksBucket (st_db st) = bempty (bkv Q) \<Longrightarrow>
    tombstonesBucket (st_db st) = bempty (bkv Q) \<Longrightarrow> queue_reaches Q S st"
| puts: "queue_reaches Q S st \<Longrightarrow> validateInputCandidate S c \<Longrightarrow> put_round Q S c env st = (r, st') \<Longrightarrow>
    queue_reaches Q S st'"
| observes: "queue_reaches Q S st \<Longrightarrow> PutObserved (bkv Q) S env c st = (res, st') \<Longrightarrow> queue_reaches Q S st'"
| removes: "queue_reaches Q S st \<Longrightarrow> MarkRemoved (bkv Q) S env i st = (res, st') \<Longrightarrow> queue_reaches Q S st'"
| takes: "queue_reaches Q S st \<Longrightarrow> next_round Q S env st = (n, st') \<Longrightarrow> queue_reaches Q S st'"
| reports: "queue_reaches Q S st \<Longrightarrow> time_ok (inc_CreatedAt inc) \<Longrightarrow> PutIncident (bkv Q) S env inc st = (res, st') \<Longrightarrow>
    queue_reaches Q S st'"
| delays: "queue_reaches Q S st \<Longrightarrow> time_ok t \<Longrightarrow> Nack Q S env i inc_id t st = (res, st') \<Longrightarrow> queue_reaches Q S st'"
| acknowledges: "queue_reaches Q S st \<Longrightarrow> Ack Q S env i inc_id st = (res, st') \<Longrightarrow> queue_reaches Q S st'"
| commits: "queue_reaches Q S st \<Longrightarrow> validateCanonicalBlock S block \<Longrightarrow>
    sortedMemberIDs (cb_Candidates block) = Some members \<Longrightarrow> encodeBlock b (bs_journalCapacity S) = Some x \<Longrightarrow>
    commit_round Q S block members x env st = (cr, st') \<Longrightarrow> queue_reaches Q S st'"
| elsewhere: "queue_reaches Q S st \<Longrightarrow> same_queue (st_db st) (st_db st') \<Longrightarrow> queue_reaches Q S st'"

lemma store_update_db:
  assumes "store_update env body db = (out, db')"
  obtains "db' = db" "\<And>r. out \<noteq> Inr r" | r where "out = Inr r" "body db = Inr (r, db')"
  using assms
  by (auto simp: store_update_def db_Update_def split: sum.splits if_splits option.splits)

lemma update_state:
  assumes "store_update env body db = (out, db')" and "queue_state Q S db"
    and "\<And>r db'. body db = Inr (r, db') \<Longrightarrow> queue_state Q S db'"
  shows "queue_state Q S db'"
  by (rule store_update_db [OF assms(1)]) (use assms(2,3) in auto)

lemma notify_if_db [simp]: "st_db (notify_if b st) = st_db st"
  by (simp add: notify_if_def notify_def)

lemma changing_call_state:
  assumes c: "changing_call env body st = (res, st')" and ok: "queue_state Q S (st_db st)"
    and step: "\<And>r db'. body (st_db st) = Inr (r, db') \<Longrightarrow> queue_state Q S db'"
  shows "queue_state Q S (st_db st')"
proof (cases "store_begin env st")
  case None
  obtain out db' where u: "store_update env body (st_db st) = (out, db')" by fastforce
  have "st_db st' = db'" using c None u by (auto simp: changing_call_def split: sum.splits)
  with update_state [OF u ok step] show ?thesis by simp
next
  case (Some e)
  with c ok show ?thesis by (simp add: changing_call_def)
qed

lemma empty_state:
  assumes Q: "seq_engine Q" and e: "candidatesBucket db = bempty (bkv Q)" "pendingBucket db = bempty (bkv Q)"
    "readyOrderBucket db = bempty (bkv Q)" "blockIndexBucket db = bempty (bkv Q)" "incidentsBucket db = bempty (bkv Q)"
    "blocksBucket db = bempty (bkv Q)" "tombstonesBucket db = bempty (bkv Q)"
  shows "queue_state Q S db"
proof -
  note B = engine_of [OF Q]
  have none: "bucket_table ke vd (bkv Q) (bempty (bkv Q)) = Map.empty" for ke :: "'k \<Rightarrow> bytes" and vd :: "bytes \<Rightarrow> 'v option"
    by (simp add: bucket_table_def bolt_engine.get_empty [OF B] fun_eq_iff)
  have "queue_shaped Q S db" by (simp add: queue_shaped_def e shaped_def bolt_engine.get_empty [OF B])
  moreover have "queue_ok S (view_of Q S db)"
    by (simp add: queue_ok_def inv_ids_def inv_ready_def inv_counts_def with_status_def e none)
  ultimately show ?thesis by (simp add: queue_state_def)
qed

lemma put_round_state:
  assumes Q: "seq_engine Q" and ok: "queue_state Q S (st_db st)" and c: "validateInputCandidate S c"
    and p: "put_round Q S c env st = (r, st')"
  shows "queue_state Q S (st_db st')"
proof -
  obtain out db' where u: "store_update env (put_tx Q S (se_now env) c) (st_db st) = (out, db')" by fastforce
  have "st_db st' = db'" using p u by (auto simp: put_round_def Let_def split: sum.splits store_error.splits)
  with update_state [OF u ok put_tx_state [OF Q ok c]] show ?thesis by simp
qed

lemma next_tx_state:
  assumes Q: "seq_engine Q" and ok: "queue_state Q S db" and p: "next_tx Q S now db = Inr (r, db')"
  shows "queue_state Q S db'"
proof -
  from p have "promoteCandidates Q S now db = Inr db'" by (auto simp: next_tx_def bindE_Inr)
  from promoteCandidates_state [OF Q ok this] show ?thesis by blast
qed

lemma next_round_db:
  assumes "next_round Q S env st = (r, st')"
    and "store_update env (next_tx Q S (se_now env)) (st_db st) = (out, db')"
  shows "st_db st' = db'"
  using assms by (auto simp: next_round_def Let_def split: sum.splits option.splits prod.splits)

theorem queue_invariant:
  assumes Q: "seq_engine Q" and r: "queue_reaches Q S st"
  shows "queue_state Q S (st_db st)"
  using r
proof (induction rule: queue_reaches.induct)
  case (created st)
  show ?case by (rule empty_state [OF Q]) (rule created)+
next
  case (puts st c env r st')
  show ?case by (rule put_round_state [OF Q puts.IH puts.hyps(2,3)])
next
  case (observes st env c res st')
  show ?case
  proof (cases "validateInputCandidate S c \<and> store_begin env st = None")
    case True
    obtain out db' where u: "store_update env (put_observed_tx (bkv Q) S c) (st_db st) = (out, db')" by fastforce
    have "st_db st' = db'" using observes.hyps(2) True u by (auto simp: PutObserved_def split: sum.splits)
    with update_state [OF u observes.IH put_observed_state [OF Q observes.IH conjunct1 [OF True]]] show ?thesis by simp
  qed (use observes in \<open>auto simp: PutObserved_def split: if_splits option.splits\<close>)
next
  case (removes st env i res st')
  show ?case by (rule changing_call_state [OF removes.hyps(2) [unfolded MarkRemoved_def] removes.IH mark_removed_state [OF Q removes.IH]])
next
  case (takes st env n st')
  obtain out db' where u: "store_update env (next_tx Q S (se_now env)) (st_db st) = (out, db')" by fastforce
  from update_state [OF u takes.IH next_tx_state [OF Q takes.IH]] next_round_db [OF takes.hyps(2) u] show ?case by simp
next
  case (reports st inc env res st')
  show ?case
  proof (cases "\<exists>x. encodeIncident inc = Some x \<and> inc_Network inc = bs_network S \<and> store_begin env st = None")
    case True
    then obtain x where x: "encodeIncident inc = Some x" "inc_Network inc = bs_network S" "store_begin env st = None" by blast
    obtain out db' where u: "store_update env (put_inc_tx (bkv Q) S inc x) (st_db st) = (out, db')" by fastforce
    have "st_db st' = db'" using reports.hyps(3) x u by (auto simp: PutIncident_def)
    with update_state [OF u reports.IH put_inc_state [OF Q reports.IH x(1) reports.hyps(2)]] show ?thesis by simp
  qed (use reports in \<open>auto simp: PutIncident_def split: if_splits option.splits\<close>)
next
  case (delays st t env i inc_id res st')
  show ?case
  proof (cases "IsZero t")
    case False
    then have "changing_call env (resolve_tx Q S (se_now env) i inc_id CandidateDelayed t) st = (res, st')"
      using delays.hyps(3) by (simp add: Nack_def resolve_def)
    then show ?thesis
      by (rule changing_call_state [OF _ delays.IH]) (erule resolve_state [OF Q delays.IH delays.hyps(2), rotated], simp)
  qed (use delays in \<open>simp add: Nack_def\<close>)
next
  case (acknowledges st env i inc_id res st')
  then have "changing_call env (resolve_tx Q S (se_now env) i inc_id CandidateAcknowledged zeroTime) st = (res, st')"
    by (simp add: Ack_def resolve_def)
  then show ?case
    by (rule changing_call_state [OF _ acknowledges.IH]) (erule resolve_state [OF Q acknowledges.IH zeroTime_ok, rotated], simp)
next
  case (commits st block members b x env cr st')
  obtain out db' where u: "store_update env (commit_block_tx Q S (se_now env) block members x) (st_db st) = (out, db')" by fastforce
  have "st_db st' = db'" using commits.hyps(5) u by (auto simp: commit_round_def Let_def split: sum.splits store_error.splits)
  with update_state [OF u commits.IH commit_block_state [OF Q commits.IH commits.hyps(2-4)]] show ?case by simp
next
  case (elsewhere st st')
  then show ?case by (simp add: same_queue_view)
qed

section \<open>What the consumer gets\<close>

lemma nextReady_keep: "foldE (nextReady B S db) (Some c) es = Inr x \<Longrightarrow> x = Some c"
  by (induction es) (auto simp: nextReady_def split: sum.splits if_splits option.splits)

lemma nextReady_first:
  assumes "foldE (nextReady B S db) None es = Inr x"
  shows "x = None \<and> es = [] \<or> (\<exists>k i es' r. es = (k, i) # es' \<and>
    decodeCandidateRecord (slice_of (bget B (candidatesBucket db) i)) = Some r \<and> i = id_bytes (cand_ID (cr_Candidate r)) \<and>
    cr_Status r = CandidateReady \<and> x = Some (cr_Candidate r))"
proof (cases es)
  case Nil
  with assms show ?thesis by simp
next
  case (Cons e es')
  obtain k i where e: "e = (k, i)" by (cases e)
  from assms obtain y where n: "nextReady B S db None e = Inr y" and f: "foldE (nextReady B S db) y es' = Inr x"
    unfolding Cons foldE_Cons_Inr by blast
  from n obtain r where r: "decodeCandidateRecord (slice_of (bget B (candidatesBucket db) i)) = Some r"
    "i = id_bytes (cand_ID (cr_Candidate r))" "cr_Status r = CandidateReady" "y = Some (cr_Candidate r)"
    by (auto simp: nextReady_def e split: if_splits option.splits)
  have "x = Some (cr_Candidate r)" using f unfolding r(4) by (rule nextReady_keep)
  with r show ?thesis unfolding Cons e by blast
qed

text \<open>The first entry of the order is the one with the least sequence number.\<close>

lemma first_least:
  assumes Q: "seq_engine Q" and ok: "queue_shaped Q S db"
    and e: "bentries (bkv Q) (readyOrderBucket db) = (k, i) # es"
  shows "\<exists>n. (\<forall>m j. vo (view_of Q S db) m = Some j \<longrightarrow> n \<le> m) \<and>
    (\<forall>j. i = id_bytes j \<longrightarrow> vo (view_of Q S db) n = Some j)"
proof -
  note B = engine_of [OF Q]
  have k: "bget (bkv Q) (readyOrderBucket db) k = Some i" using bolt_engine.entry_get [OF B, of k i "readyOrderBucket db"] e by simp
  with ok obtain n where n: "k = encodeUint64 n" by (fastforce simp: queue_shaped_def shaped_def)
  have "n \<le> m" if "vo (view_of Q S db) m = Some j" for m j
  proof -
    from that have "(encodeUint64 m, id_bytes j) \<in> set ((k, i) # es)"
      by (simp add: order_rows.tab_Some id_value_Some bolt_engine.entry_get [OF B, symmetric] e [symmetric])
    then show ?thesis using bolt_engine.entries_sorted [OF B, of "readyOrderBucket db"]
      by (auto simp: e n)
  qed
  moreover have "vo (view_of Q S db) n = Some j" if "i = id_bytes j" for j
    using k n that by (simp add: bucket_table_def)
  ultimately show ?thesis by blast
qed

lemma next_tx_parts:
  "next_tx Q S now db = Inr ((found, t, p), db') \<Longrightarrow> promoteCandidates Q S now db = Inr db' \<and>
     foldE (nextReady (bkv Q) S db') None (bentries (bkv Q) (readyOrderBucket db')) = Inr found"
  by (auto simp: next_tx_def bindE_Inr)

lemma next_found:
  assumes Q: "seq_engine Q" and ok: "queue_state Q S db" and p: "next_tx Q S now db = Inr ((Some c, t, w), db')"
  shows "\<exists>n. vo (view_of Q S db') n = Some (cand_ID c) \<and> (\<forall>m j. vo (view_of Q S db') m = Some j \<longrightarrow> n \<le> m) \<and>
    (\<exists>r. vc (view_of Q S db') (cand_ID c) = Some r \<and> cr_Status r = CandidateReady \<and> cr_Candidate r = c)"
proof -
  note n = next_tx_parts [OF p] and sh = queue_stateD(1) [OF next_tx_state [OF Q ok p]]
  from nextReady_first [OF conjunct2 [OF n]] obtain k i es r where
    e: "bentries (bkv Q) (readyOrderBucket db') = (k, i) # es" and
    r: "decodeCandidateRecord (slice_of (bget (bkv Q) (candidatesBucket db') i)) = Some r"
      "i = id_bytes (cand_ID (cr_Candidate r))" "cr_Status r = CandidateReady" "cr_Candidate r = c" by auto
  from first_least [OF Q sh e] obtain m where "\<forall>m' j. vo (view_of Q S db') m' = Some j \<longrightarrow> m \<le> m'"
    "\<forall>j. i = id_bytes j \<longrightarrow> vo (view_of Q S db') m = Some j" by blast
  moreover have "vc (view_of Q S db') (cand_ID c) = Some r" using r by (simp add: decode_stored)
  ultimately show ?thesis using r(2,3,4) by (intro exI [of _ m]) simp
qed

lemma nothing_due:
  assumes Q: "seq_engine Q" and ok: "queue_shaped Q S db" and c: "collectPromotions (bkv Q) now status db = Inr []"
    and v: "vc (view_of Q S db) i = Some r"
  shows "\<not> due now status r"
proof
  assume d: "due now status r"
  from v obtain x where x: "bget (bkv Q) (candidatesBucket db) (id_bytes i) = Some x" "decodeCandidateRecord x = Some r"
    by (auto simp: cand_rows.tab_Some)
  then have "(id_bytes i, x) \<in> set (bentries (bkv Q) (candidatesBucket db))"
    by (simp add: bolt_engine.entry_get [OF engine_of [OF Q]])
  with collect_fold [OF c [unfolded collectPromotions_def]] d x(2) show False by (force simp: filter_empty_conv)
qed

lemma next_waits:
  assumes Q: "seq_engine Q" and ok: "queue_state Q S db" and p: "next_tx Q S now db = Inr ((None, t, w), db')"
    and cap: "bs_maxPending S \<noteq> 0"
  shows "with_status (view_of Q S db') {CandidateReady, CandidateStaged} = {} \<and>
    (\<forall>i r. vc (view_of Q S db') i = Some r \<and> cr_Status r = CandidateDelayed \<longrightarrow> After (cr_RetryAt r) now)"
proof -
  note n = next_tx_parts [OF p] and ok' = next_tx_state [OF Q ok p]
  have "bentries (bkv Q) (readyOrderBucket db') = []" using nextReady_first [OF conjunct2 [OF n]] by auto
  then have "vo (view_of Q S db') m = None" for m
    by (simp add: bucket_table_def bolt_engine.get_entries [OF engine_of [OF Q]])
  then have "vp (view_of Q S db') i = None" for i
    using ready_order [OF queue_okD(3) [OF queue_stateD(2) [OF ok']], of i] by (metis not_None_eq option.distinct(1))
  then have none: "with_status (view_of Q S db') {CandidateReady} = {}"
    using ready_set [OF queue_okD(3) [OF queue_stateD(2) [OF ok']]] by (simp add: dom_def del: view_sel)
  with promoteCandidates_state [OF Q ok conjunct1 [OF n]] cap have same: "db' = db"
    "collectPromotions (bkv Q) now CandidateStaged db = Inr []" "collectPromotions (bkv Q) now CandidateDelayed db = Inr []"
    by (auto simp: unat_eq_zero)
  note sh = queue_stateD(1) [OF ok]
  have "\<not> (cr_Status r = CandidateReady \<or> cr_Status r = CandidateStaged) \<and>
      (cr_Status r = CandidateDelayed \<longrightarrow> After (cr_RetryAt r) now)" if "vc (view_of Q S db') i = Some r" for i r
    using nothing_due [OF Q sh same(2), of i r] nothing_due [OF Q sh same(3), of i r] none that
    unfolding same(1) by (auto simp: due_def with_status_def simp del: view_sel)
  then show ?thesis unfolding with_status_def by auto
qed

end
