(* ===== verification/Queue_Chain.thy ===== *)
theory Queue_Chain
  imports Queue_Reach
begin

text \<open>
  The chain of committed blocks: the checkpoint moves forward only, and only over blocks all of
  whose candidates are acknowledged; the scan cursor moves by one block whose parent is the previous
  one.
\<close>

section \<open>Metadata\<close>

definition checkpoint_at :: "'b bolt \<Rightarrow> bytes \<Rightarrow> 'b store_db \<Rightarrow> Checkpoint option" where
  "checkpoint_at B key db = Option.bind (bget B (metaBucket db) key) decodeCheckpoint"

lemma meta_keys_distinct:
  "scanCursorKey \<noteq> checkpointKey" "scanCursorKey \<noteq> baselineKey" "scanCursorKey \<noteq> promotionTurnKey"
  "scanCursorKey \<noteq> discoveryOverflowKey" "checkpointKey \<noteq> baselineKey" "checkpointKey \<noteq> promotionTurnKey"
  "checkpointKey \<noteq> discoveryOverflowKey" "baselineKey \<noteq> promotionTurnKey" "baselineKey \<noteq> discoveryOverflowKey"
  by (code_simp)+

text \<open>A step that leaves the value of a metadata key alone.\<close>

definition keeps_key :: "'b bolt \<Rightarrow> bytes \<Rightarrow> 'b store_db \<Rightarrow> 'b store_db \<Rightarrow> bool" where
  "keeps_key B k db db' \<longleftrightarrow> bget B (metaBucket db') k = bget B (metaBucket db) k"

lemma keeps_key_trans: "keeps_key B k db db1 \<Longrightarrow> keeps_key B k db1 db2 \<Longrightarrow> keeps_key B k db db2"
  by (simp add: keeps_key_def)

lemma keeps_key_meta: "metaBucket db' = metaBucket db \<Longrightarrow> keeps_key B k db db'"
  by (simp add: keeps_key_def)

lemma keeps_key_put: "bolt_engine B \<Longrightarrow> bput B (metaBucket db) j v = Some m \<Longrightarrow> k \<noteq> j \<Longrightarrow> keeps_key B k db (db\<lparr>metaBucket := m\<rparr>)"
  by (simp add: keeps_key_def bolt_engine.get_put)

lemma foldE_meta:
  assumes "foldE f db xs = Inr db'" and "\<And>x db db'. f db x = Inr db' \<Longrightarrow> metaBucket db' = metaBucket db"
  shows "metaBucket db' = metaBucket db"
  using assms(1)
proof (induction xs arbitrary: db)
  case (Cons x xs)
  then obtain db1 where 1: "f db x = Inr db1" "foldE f db1 xs = Inr db'" unfolding foldE_Cons_Inr by blast
  from Cons.IH [OF 1(2)] assms(2) [OF 1(1)] show ?case by simp
qed simp

lemma deleteCompleted_meta: "deleteCompleted B db i = Inr db' \<Longrightarrow> metaBucket db' = metaBucket db"
  by (auto simp: deleteCompleted_def removeCandidateTombstones_def step_simps)

lemma trimBlock_meta: "trimBlock B S n db = Inr db' \<Longrightarrow> metaBucket db' = metaBucket db"
  unfolding trimBlock_def step_simps deleteCompletedBlockCandidates_def
  by (auto dest!: foldE_meta [OF _ deleteCompleted_meta])

lemma trimBlocks_meta: "trimBlocks B S n m db = Inr db' \<Longrightarrow> metaBucket db' = metaBucket db"
proof (induction B S n m db rule: trimBlocks.induct)
  case (1 B S n m db)
  show ?case
  proof (cases "n < m")
    case True
    with 1(2) obtain db1 where t: "trimBlock B S n db = Inr db1" "trimBlocks B S (n + 1) m db1 = Inr db'"
      by (auto simp: trimBlocks.simps [of _ _ n] bindE_Inr)
    from 1(1) [OF True t(2)] trimBlock_meta [OF t(1)] show ?thesis by simp
  qed (use 1(2) in \<open>simp add: trimBlocks.simps [of _ _ n]\<close>)
qed

lemma trimCanonical_keeps:
  assumes B: "bolt_engine B" and p: "trimCanonicalBlocks B S n db = Inr db'" and k: "k \<noteq> baselineKey"
  shows "keeps_key B k db db'"
proof (cases "db' = db")
  case False
  with p obtain a b db1 m v where t: "trimBlocks B S a b db = Inr db1"
    and m: "bput B (metaBucket db1) baselineKey v = Some m" and db': "db' = db1\<lparr>metaBucket := m\<rparr>"
    by (auto simp: trimCanonicalBlocks_def step_simps Let_def split: if_splits)
  from keeps_key_trans [OF keeps_key_meta [OF trimBlocks_meta [OF t]] keeps_key_put [OF B m k]] show ?thesis
    unfolding db' .
qed (simp add: keeps_key_def)

section \<open>The checkpoint\<close>

text \<open>A stored block all of whose members are acknowledged.\<close>

definition block_done :: "view \<Rightarrow> u64 \<Rightarrow> blockRecord \<Rightarrow> bool" where
  "block_done v n b \<longleftrightarrow> vb v n = Some b \<and> cp_BlockNumber (br_Checkpoint b) = n \<and>
     (\<forall>m \<in> set (br_Members b). \<exists>r. vc v m = Some r \<and> cr_Status r = CandidateAcknowledged)"

lemma block_done_sheds: "sheds v w \<Longrightarrow> block_done w n b \<Longrightarrow> block_done v n b"
  unfolding block_done_def sheds_def by (meson map_le_Some)

lemma membersComplete_done:
  "membersComplete B S db c ms = Inr True \<Longrightarrow> m \<in> set ms \<Longrightarrow>
     \<exists>r. bucket_table id_bytes decodeCandidateRecord B (candidatesBucket db) m = Some r \<and> cr_Status r = CandidateAcknowledged"
proof (induction ms)
  case (Cons a ms)
  from Cons.prems(1) obtain x r where x: "bget B (candidatesBucket db) (id_bytes a) = Some x" "decodeCandidateRecord x = Some r"
    "cr_Status r = CandidateAcknowledged" "membersComplete B S db c ms = Inr True"
    by (auto split: option.splits if_splits)
  show ?case
  proof (cases "m = a")
    case True
    with stored_view [OF x(1,2)] x(3) show ?thesis by blast
  qed (use Cons x(4) in simp)
qed simp

lemma advanceOnce_done:
  assumes Q: "seq_engine Q" and ok: "queue_state Q S db" and p: "advanceOnce (bkv Q) S n db = Inr (Some db')"
  obtains b where "block_done (view_of Q S db) n b" "checkpoint_at (bkv Q) checkpointKey db' = Some (br_Checkpoint b)"
proof -
  note B = engine_of [OF Q]
  from p obtain x b e m where x: "bget (bkv Q) (blocksBucket db) (blockNumberKey n) = Some x"
    and b: "decodeBlock x (bs_journalCapacity S) = Some b" "cp_BlockNumber (br_Checkpoint b) = n"
    and c: "blockComplete (bkv Q) S db b = Inr True"
    and e: "encodeCheckpoint (br_Checkpoint b) = Some e" and m: "bput (bkv Q) (metaBucket db) checkpointKey e = Some m"
    and t: "trimCanonicalBlocks (bkv Q) S n (db\<lparr>metaBucket := m\<rparr>) = Inr db'"
    by (auto simp: advanceOnce_def step_simps split: option.splits if_splits)
  have "vb (view_of Q S db) n = Some b" using x b by (simp add: bucket_table_def block_value_def blockNumberKey_def)
  then have "block_done (view_of Q S db) n b"
    using b(2) membersComplete_done [OF c [unfolded blockComplete_def]] by (simp add: block_done_def)
  moreover have "keeps_key (bkv Q) checkpointKey (db\<lparr>metaBucket := m\<rparr>) db'"
    by (rule trimCanonical_keeps [OF B t meta_keys_distinct(5)])
  then have "checkpoint_at (bkv Q) checkpointKey db' = Some (br_Checkpoint b)"
    using bolt_engine.get_put [OF B m] decode_encode_checkpoint [OF e] by (simp add: keeps_key_def checkpoint_at_def)
  ultimately show thesis by (rule that)
qed

lemma advanceFrom_done:
  assumes Q: "seq_engine Q"
  shows "advanceFrom (bkv Q) S n db = Inr db' \<Longrightarrow> queue_state Q S db \<Longrightarrow>
    db' = db \<or> (\<exists>last. n \<le> last \<and> (\<forall>k. n \<le> k \<and> k \<le> last \<longrightarrow> (\<exists>b. block_done (view_of Q S db) k b)) \<and>
      (\<exists>b. block_done (view_of Q S db) last b \<and> checkpoint_at (bkv Q) checkpointKey db' = Some (br_Checkpoint b)))"
proof (induction "bkv Q" S n db rule: advanceFrom.induct)
  case (1 S n db)
  from 1(2) consider "db' = db"
    | db1 where "advanceOnce (bkv Q) S n db = Inr (Some db1)" "db' = db1"
    | db1 where "advanceOnce (bkv Q) S n db = Inr (Some db1)" "n \<noteq> maxUint64" "advanceFrom (bkv Q) S (n + 1) db1 = Inr db'"
    by (auto simp: advanceFrom.simps [of _ _ n] split: sum.splits option.splits if_splits)
  then show ?case
  proof cases
    case 2
    obtain b where b: "block_done (view_of Q S db) n b" "checkpoint_at (bkv Q) checkpointKey db1 = Some (br_Checkpoint b)"
      by (rule advanceOnce_done [OF Q 1(3) 2(1)])
    then have "\<forall>k. n \<le> k \<and> k \<le> n \<longrightarrow> (\<exists>b. block_done (view_of Q S db) k b)" by (metis order_antisym)
    with b 2(2) show ?thesis by blast
  next
    case 3
    obtain b where b: "block_done (view_of Q S db) n b" "checkpoint_at (bkv Q) checkpointKey db1 = Some (br_Checkpoint b)"
      by (rule advanceOnce_done [OF Q 1(3) 3(1)])
    note c = advanceOnce_calm [OF Q 1(3) 3(1)]
    have up: "block_done (view_of Q S db) k b" if "block_done (view_of Q S db1) k b" for k b
      using that c unfolding calm_def by (blast intro: block_done_sheds)
    have nn: "n < n + 1" using unat_succ [OF 3(2)] by (simp add: word_less_nat_alt)
    have split: "k = n \<or> n + 1 \<le> k" if "n \<le> k" for k
      using that inc_le [of n k] by (cases "n = k") (simp_all add: order_less_le)
    from 1(1) [OF 3(1) refl 3(2) 3(3) calm_state [OF 1(3) c]] consider (one) "db' = db1"
      | (more) l where "n + 1 \<le> l" "\<forall>k. n + 1 \<le> k \<and> k \<le> l \<longrightarrow> (\<exists>b. block_done (view_of Q S db1) k b)"
        "\<exists>b. block_done (view_of Q S db1) l b \<and> checkpoint_at (bkv Q) checkpointKey db' = Some (br_Checkpoint b)"
      by blast
    then show ?thesis
    proof cases
      case one
      have "\<forall>k. n \<le> k \<and> k \<le> n \<longrightarrow> (\<exists>b. block_done (view_of Q S db) k b)" using b(1) by (metis order_antisym)
      with b one show ?thesis by blast
    next
      case more
      have "\<forall>k. n \<le> k \<and> k \<le> l \<longrightarrow> (\<exists>b. block_done (view_of Q S db) k b)" using b(1) split up more(2) by metis
      moreover have "n \<le> l" using nn more(1) by simp
      ultimately show ?thesis using more(3) up by blast
    qed
  qed blast
qed

text \<open>Where the walk starts: after the checkpoint, or at the first block.\<close>

definition walk_start :: "'b bolt \<Rightarrow> 'b store_db \<Rightarrow> u64 option" where
  "walk_start B db =
     (case checkpoint_at B checkpointKey db of
        Some c \<Rightarrow> Some (cp_BlockNumber c + 1)
      | None \<Rightarrow> Option.bind (bget B (metaBucket db) baselineKey) decodeUint64)"

lemma advanceCheckpoint_done:
  assumes Q: "seq_engine Q" and ok: "queue_state Q S db" and p: "advanceCheckpoint (bkv Q) S db = Inr db'"
  shows "db' = db \<or> (\<exists>first last b. walk_start (bkv Q) db = Some first \<and> first \<le> last \<and>
    (\<forall>c. checkpoint_at (bkv Q) checkpointKey db = Some c \<longrightarrow> cp_BlockNumber c < first) \<and>
    (\<forall>k. first \<le> k \<and> k \<le> last \<longrightarrow> (\<exists>b. block_done (view_of Q S db) k b)) \<and>
    block_done (view_of Q S db) last b \<and> checkpoint_at (bkv Q) checkpointKey db' = Some (br_Checkpoint b))"
proof (cases "bget (bkv Q) (metaBucket db) baselineKey")
  case None
  with p show ?thesis by (simp add: advanceCheckpoint_def)
next
  case (Some x)
  with p obtain base where base: "decodeUint64 x = Some base" by (auto simp: advanceCheckpoint_def step_simps)
  show ?thesis
  proof (cases "bget (bkv Q) (metaBucket db) checkpointKey")
    case None
    then have start: "walk_start (bkv Q) db = Some base" "checkpoint_at (bkv Q) checkpointKey db = None"
      using Some base by (simp_all add: walk_start_def checkpoint_at_def)
    from p Some base None have "advanceFrom (bkv Q) S base db = Inr db'" by (simp add: advanceCheckpoint_def)
    from advanceFrom_done [OF Q this ok] start show ?thesis by auto
  next
    case cp: (Some y)
    with p Some base obtain c where c: "decodeCheckpoint y = Some c" "cp_BlockNumber c \<noteq> maxUint64"
      and a: "advanceFrom (bkv Q) S (cp_BlockNumber c + 1) db = Inr db'" by (auto simp: advanceCheckpoint_def step_simps)
    have start: "walk_start (bkv Q) db = Some (cp_BlockNumber c + 1)" "checkpoint_at (bkv Q) checkpointKey db = Some c"
      using cp c by (simp_all add: walk_start_def checkpoint_at_def)
    have "cp_BlockNumber c < cp_BlockNumber c + 1" using unat_succ [OF c(2)] by (simp add: word_less_nat_alt)
    with advanceFrom_done [OF Q a ok] start show ?thesis by auto
  qed
qed

section \<open>The scan cursor\<close>

lemma advanceOnce_keeps:
  assumes B: "bolt_engine B" and p: "advanceOnce B S n db = Inr (Some db')" and k: "k \<noteq> baselineKey" "k \<noteq> checkpointKey"
  shows "keeps_key B k db db'"
proof -
  from p obtain e m where m: "bput B (metaBucket db) checkpointKey e = Some m"
    and t: "trimCanonicalBlocks B S n (db\<lparr>metaBucket := m\<rparr>) = Inr db'"
    by (auto simp: advanceOnce_def step_simps split: option.splits if_splits)
  from keeps_key_trans [OF keeps_key_put [OF B m k(2)] trimCanonical_keeps [OF B t k(1)]] show ?thesis .
qed

lemma advanceFrom_keeps:
  assumes k: "k \<noteq> baselineKey" "k \<noteq> checkpointKey"
  shows "bolt_engine B \<Longrightarrow> advanceFrom B S n db = Inr db' \<Longrightarrow> keeps_key B k db db'"
proof (induction B S n db rule: advanceFrom.induct)
  case (1 B S n db)
  from 1(3) consider "db' = db"
    | db1 where "advanceOnce B S n db = Inr (Some db1)" "db' = db1"
    | db1 where "advanceOnce B S n db = Inr (Some db1)" "n \<noteq> maxUint64" "advanceFrom B S (n + 1) db1 = Inr db'"
    by (auto simp: advanceFrom.simps [of _ _ n] split: sum.splits option.splits if_splits)
  then show ?case
  proof cases
    case 1
    then show ?thesis by (simp add: keeps_key_def)
  next
    case 2
    then show ?thesis using advanceOnce_keeps [OF 1(2) 2(1) k] by simp
  next
    case 3
    from keeps_key_trans [OF advanceOnce_keeps [OF 1(2) 3(1) k] 1(1) [OF 3(1) refl 3(2) 1(2) 3(3)]] show ?thesis .
  qed
qed

lemma advanceCheckpoint_keeps:
  assumes B: "bolt_engine B" and p: "advanceCheckpoint B S db = Inr db'" and k: "k \<noteq> baselineKey" "k \<noteq> checkpointKey"
  shows "keeps_key B k db db'"
proof (cases "bget B (metaBucket db) baselineKey")
  case None
  with p show ?thesis by (simp add: advanceCheckpoint_def keeps_key_def)
next
  case (Some x)
  with p have "\<exists>n. advanceFrom B S n db = Inr db'" by (auto simp: advanceCheckpoint_def step_simps split: option.splits)
  then show ?thesis using advanceFrom_keeps [OF k B] by blast
qed

lemma recordBlock_cursor:
  assumes B: "bolt_engine B" and p: "recordBlock B block x first db = Inr db'"
  shows "checkpoint_at B scanCursorKey db' = Some (cb_Checkpoint block)"
proof -
  from p obtain e m1 m2 bs where e: "encodeCheckpoint (cb_Checkpoint block) = Some e"
    and m: "bput B m1 scanCursorKey e = Some m2" and db': "db' = db\<lparr>blocksBucket := bs, metaBucket := m2\<rparr>"
    by (auto simp: recordBlock_def step_simps Let_def)
  show ?thesis using bolt_engine.get_put [OF B m] decode_encode_checkpoint [OF e] by (simp add: checkpoint_at_def db')
qed

lemma commit_new_cursor:
  assumes Q: "seq_engine Q" and ok: "queue_state Q S db" and v: "validateCanonicalBlock S block"
    and ms: "sortedMemberIDs (cb_Candidates block) = Some members" and x: "encodeBlock b (bs_journalCapacity S) = Some x"
    and n: "commit_new Q S now block members x db = Inr (u, db')"
  shows "u \<and> checkpoint_at (bkv Q) scanCursorKey db' = Some (cb_Checkpoint block) \<and>
    (bget (bkv Q) (metaBucket db) scanCursorKey = None \<or> (\<exists>c. checkpoint_at (bkv Q) scanCursorKey db = Some c \<and>
       cp_BlockNumber c \<noteq> maxUint64 \<and> cp_BlockNumber (cb_Checkpoint block) = cp_BlockNumber c + 1 \<and>
       cb_ParentHash block = cp_BlockHash c))"
proof -
  note B = engine_of [OF Q]
  obtain db1 k db2 db3 db4 db5 where
    c: "reconcileBlockObservations (bkv Q) (cp_BlockNumber (cb_Checkpoint block)) members db = Inr db1"
      "additionalJournalEntries (bkv Q) S (cb_Candidates block) db1 = Inr k" "reserveJournal (bkv Q) S k db1 = Inr ()"
      "confirmDiscoveredTokens (bkv Q) S (cb_Candidates block) db1 = Inr db2"
      "foldE (stageCandidate (bkv Q) S) db2 (cb_Candidates block) = Inr db3"
    and rb: "recordBlock (bkv Q) block x (bget (bkv Q) (metaBucket db) scanCursorKey = None) db3 = Inr db4"
    and pr: "promoteCandidates Q S now db4 = Inr db5" and ad: "advanceCheckpoint (bkv Q) S db5 = Inr db'"
    and f: "follows_cursor (bkv Q) S block db = Inr ()" and u: "u"
    by (rule commit_new_parts [OF n])
  note ok4 = recordBlock_state(1) [OF Q commit_staged_state [OF Q ok v ms c] rb decode_encode_block [OF x]]
  have c4: "checkpoint_at (bkv Q) scanCursorKey db4 = Some (cb_Checkpoint block)" by (rule recordBlock_cursor [OF B rb])
  have "keeps_key (bkv Q) scanCursorKey db4 db5"
    using promoteCandidates_state [OF Q ok4 pr] bolt_engine.get_put [OF B] meta_keys_distinct(3)
    by (auto simp: keeps_key_def)
  moreover have "keeps_key (bkv Q) scanCursorKey db5 db'"
    by (rule advanceCheckpoint_keeps [OF B ad meta_keys_distinct(2,1)])
  ultimately have "checkpoint_at (bkv Q) scanCursorKey db' = Some (cb_Checkpoint block)"
    using c4 by (simp add: keeps_key_def checkpoint_at_def)
  with u f show ?thesis by (auto simp: follows_cursor_def step_simps checkpoint_at_def split: option.splits)
qed

end
