(* ===== verification/Queue_Example.thy ===== *)
theory Queue_Example
  imports Queue_Chain Store_Example
begin

text \<open>
  A queue with one candidate, on which the hypotheses of the queue's properties are evaluated. The
  identifier of the candidate stays symbolic; it is a SHA-256 digest.
\<close>

abbreviation ex_engine :: "(ordered_bucket \<times> u64) seq_bolt" where "ex_engine \<equiv> counted_bolt"

definition ex_candidate :: RescueCandidate where
  "ex_candidate = NewPeriodicCandidate 1 3 0 9"

definition ex_staged :: candidateRecord where
  "ex_staged = \<lparr>cr_Status = CandidateStaged, cr_RetryAt = zeroTime, cr_Candidate = ex_candidate\<rparr>"

definition ex_ready :: candidateRecord where
  "ex_ready = \<lparr>cr_Status = CandidateReady, cr_RetryAt = zeroTime, cr_Candidate = ex_candidate\<rparr>"

definition ex_new :: "(ordered_bucket \<times> u64) store_state" where
  "ex_new = new_state (ob_empty, 0)"

definition ex_put :: "(ordered_bucket \<times> u64) store_state" where
  "ex_put = snd (put_round ex_engine example_store ex_candidate (live_env start) ex_new)"

lemma ex_valid: "validateInputCandidate example_store ex_candidate"
  by (simp add: validateInputCandidate_def validateCandidate_def ValidateCandidate_def matchesCandidate_def ex_candidate_def
      candidate_constructors candidateID_def candidate_preimage_def example_store_def)

lemma ex_encodes: "\<exists>e. encodeCandidateRecord ex_staged = Some e \<and> decodeCandidateRecord e = Some ex_staged"
  "\<exists>e. encodeCandidateRecord ex_ready = Some e \<and> decodeCandidateRecord e = Some ex_ready"
proof -
  have "encodeCandidateRecord ex_staged \<noteq> None" "encodeCandidateRecord ex_ready \<noteq> None"
    using ex_valid by (simp_all add: encodeCandidateRecord_def validateCandidateRecord_def ex_staged_def ex_ready_def
        IsZero_def validateInputCandidate_def Let_def)
  then show "\<exists>e. encodeCandidateRecord ex_staged = Some e \<and> decodeCandidateRecord e = Some ex_staged"
    "\<exists>e. encodeCandidateRecord ex_ready = Some e \<and> decodeCandidateRecord e = Some ex_ready"
    using decode_encode_zero [of ex_staged] decode_encode_zero [of ex_ready]
    by (auto simp: ex_staged_def ex_ready_def)
qed

lemmas ex_defs = counted_bolt_def new_db_def example_store_def list_bolt_def

lemma ex_put_tx:
  "\<exists>db. put_tx ex_engine example_store start ex_candidate (new_db (ob_empty, 0)) = Inr ((PutInserted, True), db) \<and>
     next_tx ex_engine example_store start db = Inr ((Some ex_candidate, zeroTime, False), db)"
proof -
  obtain e1 e2 where e: "encodeCandidateRecord ex_staged = Some e1" "decodeCandidateRecord e1 = Some ex_staged"
    "encodeCandidateRecord ex_ready = Some e2" "decodeCandidateRecord e2 = Some ex_ready" using ex_encodes by blast
  define i where "i = cand_ID ex_candidate"
  have k: "candidateBlockIndexKey ex_candidate = None"
    by (simp add: candidateBlockIndexKey_def ex_candidate_def candidate_constructors)
  have h: "cand_BlockHash ex_candidate = 0" by (simp add: ex_candidate_def candidate_constructors)
  have r: "ex_staged\<lparr>cr_Status := CandidateReady, cr_RetryAt := zeroTime\<rparr> = ex_ready" by (simp add: ex_staged_def ex_ready_def)
  have j: "reserveJournal (bkv ex_engine) example_store 1 (new_db (ob_empty, 0)) = Inr ()"
    by (simp add: reserveJournal_def journalCount_def ex_defs rejectE_def)
  define db1 where "db1 = (new_db (ob_empty, 0 :: u64))\<lparr>candidatesBucket := (ob_put ob_empty (id_bytes i) e1, 0)\<rparr>"
  have ins: "insertCandidate (bkv ex_engine) CandidateStaged ex_candidate (new_db (ob_empty, 0)) = Inr db1"
    using e(1) k by (simp add: insertCandidate_def indexCandidateBlock_def putE_def ex_defs ex_staged_def db1_def i_def)
  define db2 where "db2 = db1\<lparr>candidatesBucket := (ob_put (ob_put ob_empty (id_bytes i) e1) (id_bytes i) e2, 0),
    readyOrderBucket := (ob_put ob_empty (encodeUint64 1) (id_bytes i), 1),
    pendingBucket := (ob_put ob_empty (id_bytes i) (encodeUint64 1), 0)\<rparr>"
  define db3 where "db3 = db2\<lparr>metaBucket := (ob_put ob_empty promotionTurnKey [recordVersion, 1], 0 :: u64)\<rparr>"
  note dbs = db1_def db2_def db3_def ex_defs
  have one: "promoteOne ex_engine db1 (id_bytes i, ex_staged) = Inr db2"
    using e(3) r by (simp add: promoteOne_def putE_def dbs)
  have st: "collectPromotions (bkv ex_engine) start CandidateStaged db1 = Inr [(id_bytes i, ex_staged)]"
    "collectPromotions (bkv ex_engine) start CandidateDelayed db1 = Inr []"
    using e(2) by (simp_all add: collectPromotions_def collectPromotion_def dbs ex_staged_def)
  have turns: "takeTurns (unat (10 :: u32)) False [(id_bytes i, ex_staged)] [] = ([(id_bytes i, ex_staged)], True)"
  proof -
    have "unat (10 :: u32) = Suc 9" by simp
    moreover have "takeTurns 9 True [] [] = ([] :: promotion list, True)" by code_simp
    ultimately show ?thesis by (simp only: takeTurns.simps) simp
  qed
  have c1: "readyCount (bkv ex_engine) example_store db1 = Inr 0" "promotionTurn (bkv ex_engine) db1 = Inr False"
    by (simp_all add: readyCount_def promotionTurn_def dbs)
  have pr: "promoteCandidates ex_engine example_store start db1 = Inr db3"
    using c1 st turns one unfolding promoteCandidates_def
    by (simp add: example_store_def) (simp add: putE_def dbs)
  have st3: "collectPromotions (bkv ex_engine) start CandidateStaged db3 = Inr []"
    "collectPromotions (bkv ex_engine) start CandidateDelayed db3 = Inr []"
    using e(4) by (simp_all add: collectPromotions_def collectPromotion_def dbs ex_ready_def)
  have c3: "readyCount (bkv ex_engine) example_store db3 = Inr 1"
    by (simp add: readyCount_def countReady_def dbs slice_of_def encodeUint64_def)
  have pr3: "promoteCandidates ex_engine example_store start db3 = Inr db3"
    using c3 st3 unfolding promoteCandidates_def by (simp add: example_store_def)
  have f: "foldE (nextReady (bkv ex_engine) example_store db3) None (bentries (bkv ex_engine) (readyOrderBucket db3)) = Inr (Some ex_candidate)"
    using e(4) ex_valid by (simp add: nextReady_def dbs slice_of_def encodeUint64_def ex_ready_def i_def validateInputCandidate_def)
  have er: "foldE (earliestRetry start) zeroTime (bentries (bkv ex_engine) (candidatesBucket db3)) = Inr zeroTime"
    using e(4) by (simp add: earliestRetry_def dbs ex_ready_def)
  have "put_tx ex_engine example_store start ex_candidate (new_db (ob_empty, 0)) = Inr ((PutInserted, True), db3)"
  proof -
    have "bget (bkv ex_engine) (candidatesBucket (new_db (ob_empty, 0))) (id_bytes (cand_ID ex_candidate)) = None"
      by (simp add: ex_defs)
    with j ins pr h show ?thesis by (simp add: put_tx_def candidateAlreadyScanned_def rejectLateCandidate_def)
  qed
  moreover have "next_tx ex_engine example_store start db3 = Inr ((Some ex_candidate, zeroTime, False), db3)"
    using c3 pr3 f er by (simp add: next_tx_def)
  ultimately show ?thesis by blast
qed

text \<open>The rounds of the calls on that database.\<close>

lemma ex_put_db:
  assumes "put_tx ex_engine example_store start ex_candidate (new_db (ob_empty, 0)) = Inr ((PutInserted, True), db)"
  shows "st_db ex_put = db"
  using assms by (simp add: ex_put_def put_round_def store_update_def db_Update_def example_times store_contextError_def
      ex_new_def new_state_def notify_if_def notify_def)

lemma ex_rounds:
  "put_round ex_engine example_store ex_candidate (live_env start) ex_new = (Answer (Inr PutInserted), ex_put)"
  "\<exists>st. next_round ex_engine example_store (live_env start) ex_put = (Answer (Inr ex_candidate), st)"
proof -
  obtain db where db: "put_tx ex_engine example_store start ex_candidate (new_db (ob_empty, 0)) = Inr ((PutInserted, True), db)"
    "next_tx ex_engine example_store start db = Inr ((Some ex_candidate, zeroTime, False), db)" using ex_put_tx by blast
  have "put_round ex_engine example_store ex_candidate (live_env start) ex_new =
      (Answer (Inr PutInserted), notify (ex_new\<lparr>st_db := db\<rparr>))"
    using db(1) by (simp add: put_round_def store_update_def db_Update_def example_times store_contextError_def
        ex_new_def new_state_def notify_if_def)
  then show "put_round ex_engine example_store ex_candidate (live_env start) ex_new = (Answer (Inr PutInserted), ex_put)"
    "\<exists>st. next_round ex_engine example_store (live_env start) ex_put = (Answer (Inr ex_candidate), st)"
    using db(2) by (simp_all add: ex_put_def next_round_def store_update_def db_Update_def example_times
        store_contextError_def notify_def)
qed

lemma counted_seq: "seq_engine ex_engine"
  by (rule counted_engine_seq.seq_engine_axioms)

lemma ex_new_reachable: "queue_reaches ex_engine S ex_new"
  by (rule queue_reaches.created) (simp_all add: ex_new_def new_state_def new_db_def counted_bolt_def)

lemma ex_put_reachable: "queue_reaches ex_engine example_store ex_put"
  by (rule queue_reaches.puts [OF ex_new_reachable ex_valid ex_rounds(1)])

section \<open>A block\<close>

definition ex_checkpoint :: Checkpoint where
  "ex_checkpoint = \<lparr>cp_Network = 1, cp_BlockNumber = 5, cp_BlockHash = 77\<rparr>"

definition ex_block :: CanonicalBlock where
  "ex_block = \<lparr>cb_Checkpoint = ex_checkpoint, cb_ParentHash = 76, cb_Candidates = []\<rparr>"

definition ex_record :: blockRecord where
  "ex_record = \<lparr>br_Checkpoint = ex_checkpoint, br_ParentHash = 76, br_Members = []\<rparr>"

definition ex_encoded :: bytes where
  "ex_encoded = the (encodeBlock ex_record (bs_journalCapacity example_store))"

definition ex_recorded :: "(ordered_bucket \<times> u64) store_db" where
  "ex_recorded = (case recordBlock (bkv ex_engine) ex_block ex_encoded True (new_db (ob_empty, 0)) of
     Inr db \<Rightarrow> db | Inl e \<Rightarrow> new_db (ob_empty, 0))"

lemma ex_block_facts:
  "validateCanonicalBlock example_store ex_block" "sortedMemberIDs (cb_Candidates ex_block) = Some []"
  "encodeBlock ex_record (bs_journalCapacity example_store) = Some ex_encoded"
  "isl (recordBlock (bkv ex_engine) ex_block ex_encoded True (new_db (ob_empty, 0))) = False"
  by code_simp+

lemma ex_recorded: "recordBlock (bkv ex_engine) ex_block ex_encoded True (new_db (ob_empty, 0)) = Inr ex_recorded"
  using ex_block_facts(4)
  by (cases "recordBlock (bkv ex_engine) ex_block ex_encoded True (new_db (ob_empty, 0))") (simp_all add: ex_recorded_def)

lemma ex_new_state: "queue_state ex_engine example_store (new_db (ob_empty, 0))"
  using queue_invariant [OF counted_seq ex_new_reachable] by (simp add: ex_new_def new_state_def)

lemma ex_recorded_state: "queue_state ex_engine example_store ex_recorded"
  by (rule recordBlock_state(1) [OF counted_seq ex_new_state ex_recorded decode_encode_block [OF ex_block_facts(3)]])

lemma ex_walk:
  "checkpoint_at (bkv ex_engine) checkpointKey ex_recorded = None"
  "walk_start (bkv ex_engine) ex_recorded = Some 5"
  by code_simp+

lemma ex_advance:
  "\<exists>db'. advanceCheckpoint (bkv ex_engine) example_store ex_recorded = Inr db' \<and>
     checkpoint_at (bkv ex_engine) checkpointKey db' = Some ex_checkpoint"
proof -
  have "(case advanceCheckpoint (bkv ex_engine) example_store ex_recorded of
      Inl e \<Rightarrow> False | Inr db' \<Rightarrow> checkpoint_at (bkv ex_engine) checkpointKey db' = Some ex_checkpoint)" by code_simp
  then show ?thesis by (simp split: sum.splits)
qed

lemma ex_commit:
  "\<exists>db'. commit_block_tx ex_engine example_store start ex_block [] ex_encoded (new_db (ob_empty, 0)) = Inr (True, db')"
proof -
  have "(case commit_block_tx ex_engine example_store start ex_block [] ex_encoded (new_db (ob_empty, 0)) of
      Inl e \<Rightarrow> False | Inr (changed, db') \<Rightarrow> changed)" by code_simp
  then show ?thesis by (auto split: sum.splits)
qed

end
