(* ===== verification/Queue_Properties.thy ===== *)
theory Queue_Properties
  imports Queue_Example
begin

text \<open>
  The properties of the candidate queue and of the chain of committed blocks: the tables agree in
  every reachable state, the consumer gets the oldest ready candidate and waits only when nothing is
  due, the checkpoint never passes a block with unfinished candidates, and a committed block extends
  the chain by one.
\<close>

section \<open>The queue\<close>

text \<open>C30: In every state that calls on the queue reach, in any order and with other calls between
  their rounds, each candidate is stored under its own identifier and belongs to the store; the
  ready queue and its order mirror each other and list exactly the candidates with status Ready;
  and neither the ready queue nor the journal nor the observed candidates exceed their limits.\<close>
theorem queue_consistent:
  assumes "seq_engine Q" and "queue_reaches Q S st"
  shows "(let v = view_of Q S (st_db st) in
    (\<forall>i r. vc v i = Some r \<longrightarrow> cand_ID (cr_Candidate r) = i \<and> matchesCandidate S (cr_Candidate r)) \<and>
    (\<forall>i n. vp v i = Some n \<longleftrightarrow> vo v n = Some i) \<and>
    (\<forall>i. (\<exists>n. vp v i = Some n) \<longleftrightarrow> (\<exists>r. vc v i = Some r \<and> cr_Status r = CandidateReady)) \<and>
    card (with_status v {CandidateReady}) \<le> unat (bs_maxPending S) \<and>
    card (with_status v {CandidateStaged, CandidateReady, CandidateDelayed}) \<le> unat (bs_journalCapacity S) \<and>
    card (with_status v {CandidateObserved}) \<le> unat (bs_maxPending S))"
  using queue_okD [OF queue_stateD(2) [OF queue_invariant [OF assms]]]
  unfolding inv_ids_def inv_ready_def inv_counts_def Let_def not_None_eq by blast

theorem queue_consistent_witness:
  "card (with_status (view_of ex_engine example_store (st_db ex_put)) {CandidateReady}) \<le> 10 \<and>
   (\<exists>n. vp (view_of ex_engine example_store (st_db ex_put)) (cand_ID ex_candidate) = Some n)"
proof -
  obtain db where db: "put_tx ex_engine example_store start ex_candidate (new_db (ob_empty, 0)) = Inr ((PutInserted, True), db)"
    "next_tx ex_engine example_store start db = Inr ((Some ex_candidate, zeroTime, False), db)" using ex_put_tx by blast
  have s: "st_db ex_put = db" using ex_put_db [OF db(1)] .
  have "queue_state ex_engine example_store db"
    using queue_invariant [OF counted_seq ex_put_reachable] s by simp
  from next_found [OF counted_seq this db(2)] obtain r where
    "vc (view_of ex_engine example_store (st_db ex_put)) (cand_ID ex_candidate) = Some r" "cr_Status r = CandidateReady"
    unfolding s by blast
  moreover have "unat (bs_maxPending example_store) = 10" by (simp add: example_store_def)
  ultimately show ?thesis using queue_consistent [OF counted_seq ex_put_reachable] unfolding Let_def by metis
qed

text \<open>C31: A round of Next that answers with a candidate answers with the one that has waited
  longest among all ready ones: its sequence number is the least of the order. A round that waits
  leaves no candidate ready or staged, and every delayed one is to be retried later than now.\<close>
theorem next_oldest_or_waits:
  assumes "seq_engine Q" and "queue_reaches Q S st" and "bs_maxPending S \<noteq> 0"
    and "next_round Q S env st = (out, st')"
  shows "(\<forall>c. out = Answer (Inr c) \<longrightarrow> (\<exists>n. vo (view_of Q S (st_db st')) n = Some (cand_ID c) \<and>
      (\<forall>m i. vo (view_of Q S (st_db st')) m = Some i \<longrightarrow> n \<le> m))) \<and>
    (\<forall>d. out = Await d \<longrightarrow> with_status (view_of Q S (st_db st')) {CandidateReady, CandidateStaged} = {} \<and>
      (\<forall>i r. vc (view_of Q S (st_db st')) i = Some r \<and> cr_Status r = CandidateDelayed \<longrightarrow> After (cr_RetryAt r) (se_now env)))"
proof -
  note ok = queue_invariant [OF assms(1,2)]
  obtain res db' where u: "store_update env (next_tx Q S (se_now env)) (st_db st) = (res, db')" by fastforce
  note s = next_round_db [OF assms(4) u]
  show ?thesis
  proof (cases res)
    case (Inl e)
    with assms(4) u show ?thesis by (auto simp: next_round_def)
  next
    case (Inr x)
    obtain found t w where x: "x = (found, t, w)" by (cases x)
    have tx: "next_tx Q S (se_now env) (st_db st) = Inr ((found, t, w), db')"
      by (rule store_update_db [OF u]) (auto simp: Inr x)
    have out: "found = None \<and> (\<exists>d. out = Await d) \<or> (\<exists>c. found = Some c \<and> out = Answer (Inr c))"
      using assms(4) u by (auto simp: next_round_def Let_def Inr x split: option.splits)
    then show ?thesis
      using next_found [OF assms(1) ok, of "se_now env" _ t w db'] next_waits [OF assms(1) ok _ assms(3), of "se_now env" t w db'] tx
      unfolding s by auto
  qed
qed

theorem next_oldest_or_waits_witness:
  "\<exists>st n. next_round ex_engine example_store (live_env start) ex_put = (Answer (Inr ex_candidate), st) \<and>
     vo (view_of ex_engine example_store (st_db st)) n = Some (cand_ID ex_candidate)"
proof -
  obtain st where st: "next_round ex_engine example_store (live_env start) ex_put = (Answer (Inr ex_candidate), st)"
    using ex_rounds(2) by blast
  have "bs_maxPending example_store \<noteq> 0" by (simp add: example_store_def)
  from next_oldest_or_waits [OF counted_seq ex_put_reachable this st] st show ?thesis by blast
qed

section \<open>The chain\<close>

text \<open>C32: The checkpoint only moves over finished blocks: either nothing changes, or the new
  checkpoint is that of a stored block after the old one, and every block from the one after the old
  checkpoint (or the first block) up to it is stored with all its candidates acknowledged.\<close>
theorem checkpoint_safe:
  assumes "seq_engine Q" and "queue_state Q S db" and "advanceCheckpoint (bkv Q) S db = Inr db'"
  shows "db' = db \<or> (\<exists>first last b. walk_start (bkv Q) db = Some first \<and> first \<le> last \<and>
    (\<forall>c. checkpoint_at (bkv Q) checkpointKey db = Some c \<longrightarrow> cp_BlockNumber c < first) \<and>
    (\<forall>k. first \<le> k \<and> k \<le> last \<longrightarrow> (\<exists>b. block_done (view_of Q S db) k b)) \<and>
    block_done (view_of Q S db) last b \<and> checkpoint_at (bkv Q) checkpointKey db' = Some (br_Checkpoint b))"
  by (rule advanceCheckpoint_done [OF assms])

theorem checkpoint_safe_witness:
  "\<exists>db'. advanceCheckpoint (bkv ex_engine) example_store ex_recorded = Inr db' \<and>
     checkpoint_at (bkv ex_engine) checkpointKey db' = Some ex_checkpoint \<and>
     (\<exists>b. block_done (view_of ex_engine example_store ex_recorded) 5 b)"
proof -
  obtain db' where db': "advanceCheckpoint (bkv ex_engine) example_store ex_recorded = Inr db'"
    "checkpoint_at (bkv ex_engine) checkpointKey db' = Some ex_checkpoint" using ex_advance by blast
  have "checkpoint_at (bkv ex_engine) checkpointKey ex_recorded = None" "walk_start (bkv ex_engine) ex_recorded = Some 5"
    by (fact ex_walk)+
  with checkpoint_safe [OF counted_seq ex_recorded_state db'(1)] db' show ?thesis by auto
qed

text \<open>C33: Committing a block either finds the very same block stored and changes nothing, or moves
  the scan cursor to the block; then the block is the first one, or its number follows that of the
  cursor and its parent is the block of the cursor. A different block at a stored number is a
  conflict.\<close>
theorem commit_extends_chain:
  assumes "seq_engine Q" and "queue_state Q S db" and "validateCanonicalBlock S block"
    and "sortedMemberIDs (cb_Candidates block) = Some members" and "encodeBlock b (bs_journalCapacity S) = Some x"
    and "commit_block_tx Q S now block members x db = Inr (changed, db')"
  shows "(let number = cp_BlockNumber (cb_Checkpoint block);
        stored = bget (bkv Q) (blocksBucket db) (blockNumberKey number);
        cursor = checkpoint_at (bkv Q) scanCursorKey in
    if changed then stored = None \<and> cursor db' = Some (cb_Checkpoint block) \<and>
      (bget (bkv Q) (metaBucket db) scanCursorKey = None \<or>
       (\<exists>c. cursor db = Some c \<and> number = cp_BlockNumber c + 1 \<and> cp_BlockNumber c < number \<and> cb_ParentHash block = cp_BlockHash c))
    else stored = Some x \<and> db' = db)"
proof (cases "bget (bkv Q) (blocksBucket db) (blockNumberKey (cp_BlockNumber (cb_Checkpoint block)))")
  case None
  with assms(6) have "commit_new Q S now block members x db = Inr (changed, db')" by (simp add: commit_block_tx_def)
  from commit_new_cursor [OF assms(1-5) this] None show ?thesis
    by (auto simp: word_less_nat_alt dest: unat_succ)
next
  case (Some y)
  with assms(6) show ?thesis by (auto simp: commit_block_tx_def step_simps)
qed

theorem commit_extends_chain_witness:
  "\<exists>db'. commit_block_tx ex_engine example_store start ex_block [] ex_encoded (new_db (ob_empty, 0)) = Inr (True, db') \<and>
     checkpoint_at (bkv ex_engine) scanCursorKey db' = Some ex_checkpoint"
proof -
  obtain db' where db': "commit_block_tx ex_engine example_store start ex_block [] ex_encoded (new_db (ob_empty, 0)) = Inr (True, db')"
    using ex_commit by blast
  from commit_extends_chain [OF counted_seq ex_new_state ex_block_facts(1-3) db'] db' show ?thesis
    by (auto simp: Let_def ex_block_def)
qed

end
