(* ===== verification/Rpc_Model.thy ===== *)
theory Rpc_Model
  imports Wire_Fields "HOL-Library.Product_Lexorder"
begin

text \<open>
  Data of the RPC layer (internal/rpc/quorum.go, base_fees.go, interfaces.go): headers, logs,
  receipts and queries of go-ethereum with the fields the code reads, the errors, the providers,
  and what the providers answer. Methods of go-ethereum types are arguments (record \<open>geth\<close>); fields
  the code never reads are kept as uninterpreted bytes, because hashes and encodings depend on them.
\<close>

section \<open>Errors\<close>

datatype ctx_fault = Canceled | DeadlineExceeded

datatype quorum_error =
    ErrInvalidProviders
  | ErrInvalidTimeout
  | ErrQuorumUnavailable "ctx_fault option"
  | ErrQuorumMismatch
  | ErrMalformedResponse
  | ErrInvalidBlockRef
  | ErrInvalidFilterQuery
  | ErrUnfinalizedReceipt
  | NilDereference

text \<open>
  The error of a backend call as \<open>errors.Is\<close> sees it, and the error of the call's context when the
  call has returned. Deadlines are asked for before cancellation, so one class is enough.
\<close>

datatype call_error = CallFailed | CallCanceled | CallDeadlineExceeded

type_synonym 'v reply = "'v option \<times> call_error option \<times> ctx_fault option"

section \<open>Values of go-ethereum\<close>

record Header =
  hdr_Number :: "int option"
  hdr_Difficulty :: "int option"
  hdr_Extra :: "bytes option"
  hdr_GasUsed :: u64
  hdr_GasLimit :: u64
  hdr_BaseFee :: "int option"
  hdr_ParentHash :: hash
  hdr_Time :: u64
  hdr_other :: bytes

record Log =
  log_Address :: address
  log_Topics :: "hash list option"
  log_Data :: "bytes option"
  log_BlockNumber :: u64
  log_TxHash :: hash
  log_TxIndex :: u64
  log_BlockHash :: hash
  log_BlockTimestamp :: u64
  log_Index :: u64
  log_Removed :: bool

record Receipt =
  rc_TxHash :: hash
  rc_BlockHash :: hash
  rc_BlockNumber :: "int option"
  rc_Logs :: "Log option list option"
  rc_Status :: u64
  rc_PostState :: bytes
  rc_CumulativeGasUsed :: u64
  rc_GasUsed :: u64
  rc_EffectiveGasPrice :: "int option"
  rc_BlobGasPrice :: "int option"
  rc_TransactionIndex :: u64
  rc_Bloom :: bytes
  rc_other :: bytes

record FilterQuery =
  fq_BlockHash :: "hash option"
  fq_FromBlock :: "int option"
  fq_ToBlock :: "int option"
  fq_Addresses :: "address list"
  fq_Topics :: "hash list list"

record CallMsg =
  call_From :: address
  call_To :: "address option"
  call_Gas :: u64
  call_Value :: "int option"
  call_Data :: bytes
  call_other :: bytes

text \<open>Methods and functions of go-ethereum: the hash of a header, its check of oversized fields, the
  bloom filter of a receipt and its JSON encoding.\<close>

record geth =
  headerHash :: "Header \<Rightarrow> hash"
  SanityCheck :: "Header \<Rightarrow> bool"
  CreateBloom :: "Receipt \<Rightarrow> bytes"
  MarshalReceipt :: "Receipt \<Rightarrow> bytes option"

definition IsUint64 :: "int \<Rightarrow> bool" where
  "IsUint64 n \<longleftrightarrow> 0 \<le> n \<and> n < 2 ^ 64"

definition Uint64 :: "int \<Rightarrow> u64" where
  "Uint64 n = word_of_int n"

lemma Uint64_exact: "IsUint64 n \<Longrightarrow> uint (Uint64 n) = n"
  by (simp add: IsUint64_def Uint64_def word_of_int_inverse)

section \<open>Providers\<close>

record BlockRef =
  bk_Number :: u64
  bk_Hash :: hash
  bk_ParentHash :: hash
  bk_Timestamp :: u64

definition zeroBlockRef :: BlockRef where
  "zeroBlockRef = \<lparr>bk_Number = 0, bk_Hash = 0, bk_ParentHash = 0, bk_Timestamp = 0\<rparr>"

record ProviderIdentity =
  pi_ID :: string
  pi_Fingerprint :: string
  pi_TrustDomain :: string

text \<open>A reader is its dynamic type and its address; a nil reader or one that is no pointer has no
  identity.\<close>

record readerIdentity =
  rd_typeOf :: string
  rd_pointer :: u64

record Provider =
  pv_Identity :: ProviderIdentity
  pv_Reader :: "readerIdentity option"
  pv_Close :: bool

record QuorumReader =
  qr_providers :: "Provider list"
  qr_timeout :: duration
  qr_closed :: bool

record baseReceiptFee =
  bf_TransactionHash :: hash
  bf_BlockHash :: hash
  bf_L1Fee :: "int option"

text \<open>
  What the providers answer during one round of calls, by the position of the provider. The answers
  of another round may differ. \<open>be_BaseReceiptFee\<close> is absent for a provider that cannot read fees.
\<close>

record backend =
  be_HeaderByNumber :: "nat \<Rightarrow> int option \<Rightarrow> Header reply"
  be_BalanceAtHash :: "nat \<Rightarrow> address \<Rightarrow> hash \<Rightarrow> int reply"
  be_CodeAtHash :: "nat \<Rightarrow> address \<Rightarrow> hash \<Rightarrow> bytes reply"
  be_CallContractAtHash :: "nat \<Rightarrow> CallMsg \<Rightarrow> hash \<Rightarrow> bytes reply"
  be_TransactionReceipt :: "nat \<Rightarrow> hash \<Rightarrow> Receipt reply"
  be_FilterLogs :: "nat \<Rightarrow> FilterQuery \<Rightarrow> Log list reply"
  be_BaseReceiptFee :: "nat \<Rightarrow> (hash \<Rightarrow> baseReceiptFee reply) option"

text \<open>
  What happens while a round waits: the answer of one of the providers still running arrives, the
  caller's context ends, or the timer of the round fires. The context of the caller is asked again
  when an error is reported.
\<close>

datatype arrival =
    Receive nat "ctx_fault option"
  | ParentDone ctx_fault
  | PhaseTimer "ctx_fault option"

record world =
  w_backend :: backend
  w_arrivals :: "arrival list"

text \<open>A call makes several rounds; round \<open>k\<close> meets the world \<open>W k\<close>.\<close>

type_synonym worlds = "nat \<Rightarrow> world"

definition later :: "nat \<Rightarrow> worlds \<Rightarrow> worlds" where
  "later k W = (\<lambda>i. W (i + k))"

end
