(* ===== verification/Rpc_Quorum.thy ===== *)
theory Rpc_Quorum
  imports Rpc_Model
begin

text \<open>
  The quorum reader (internal/rpc/quorum.go, base_fees.go, pinned_state.go): every value it returns
  has been given by all providers. A round asks all providers at once and takes their answers in any
  order; the loops over the answers check each one and compare it with the first.
\<close>

section \<open>Construction\<close>

text \<open>\<open>lower_trim\<close> is \<open>strings.ToLower(strings.TrimSpace(value))\<close>.\<close>

definition normalizedIdentity :: "(string \<Rightarrow> string) \<Rightarrow> string \<Rightarrow> string" where
  "normalizedIdentity lower_trim value = lower_trim value"

definition registerIdentity ::
  "(string \<Rightarrow> string) \<Rightarrow> string set \<times> string set \<times> string set \<Rightarrow> ProviderIdentity \<Rightarrow>
     quorum_error + string set \<times> string set \<times> string set" where
  "registerIdentity lower_trim seen identity =
     (case seen of (ids, fingerprints, trustDomains) \<Rightarrow>
      let i = normalizedIdentity lower_trim (pi_ID identity);
          f = normalizedIdentity lower_trim (pi_Fingerprint identity);
          t = normalizedIdentity lower_trim (pi_TrustDomain identity) in
      if i = [] \<or> f = [] \<or> t = [] then Inl ErrInvalidProviders
      else if i \<in> ids \<or> f \<in> fingerprints \<or> t \<in> trustDomains then Inl ErrInvalidProviders
      else Inr (insert i ids, insert f fingerprints, insert t trustDomains))"

definition validateProviderIdentities :: "(string \<Rightarrow> string) \<Rightarrow> ProviderIdentity list \<Rightarrow> quorum_error + unit" where
  "validateProviderIdentities lower_trim identities =
     (if length identities < 2 then Inl ErrInvalidProviders
      else bindE (foldE (registerIdentity lower_trim) ({}, {}, {}) identities) (\<lambda>_. Inr ()))"

definition registerReader :: "readerIdentity set \<Rightarrow> Provider \<Rightarrow> quorum_error + readerIdentity set" where
  "registerReader readers provider =
     (case pv_Reader provider of
        None \<Rightarrow> Inl ErrInvalidProviders
      | Some readerID \<Rightarrow>
          if \<not> pv_Close provider \<or> readerID \<in> readers then Inl ErrInvalidProviders
          else Inr (insert readerID readers))"

definition validateProviders :: "(string \<Rightarrow> string) \<Rightarrow> Provider list \<Rightarrow> quorum_error + unit" where
  "validateProviders lower_trim providers =
     (if length providers < 2 then Inl ErrInvalidProviders
      else bindE (foldE registerReader {} providers)
        (\<lambda>_. validateProviderIdentities lower_trim (map pv_Identity providers)))"

definition NewQuorumReader ::
  "(string \<Rightarrow> string) \<Rightarrow> Provider list \<Rightarrow> duration \<Rightarrow> quorum_error + QuorumReader" where
  "NewQuorumReader lower_trim providers timeout =
     (if timeout \<le> 0 then Inl ErrInvalidTimeout
      else bindE (validateProviders lower_trim providers)
        (\<lambda>_. Inr \<lparr>qr_providers = providers, qr_timeout = timeout, qr_closed = False\<rparr>))"

text \<open>Close runs once; it returns the providers it closes.\<close>

definition quorum_Close :: "QuorumReader \<Rightarrow> QuorumReader \<times> Provider list" where
  "quorum_Close reader =
     (if qr_closed reader then (reader, []) else (reader\<lparr>qr_closed := True\<rparr>, qr_providers reader))"

section \<open>One round of calls\<close>

definition redactedProviderError :: "ctx_fault option \<Rightarrow> call_error option \<Rightarrow> ctx_fault option \<Rightarrow> quorum_error" where
  "redactedProviderError parent backendErr callContextErr =
     (if parent \<noteq> None then ErrQuorumUnavailable parent
      else if callContextErr = Some DeadlineExceeded \<or> backendErr = Some CallDeadlineExceeded
        then ErrQuorumUnavailable (Some DeadlineExceeded)
      else if callContextErr = Some Canceled \<or> backendErr = Some CallCanceled
        then ErrQuorumUnavailable (Some Canceled)
      else ErrQuorumUnavailable None)"

text \<open>
  The receiving loop. \<open>pending\<close> are the providers whose goroutine has not been heard; the timer of
  the round fires at the latest when nothing else happens.
\<close>

fun collect ::
  "(nat \<Rightarrow> 'v reply) \<Rightarrow> arrival list \<Rightarrow> nat list \<Rightarrow> 'v option list \<Rightarrow> quorum_error + 'v option list" where
  "collect answer arrivals [] values = Inr values"
| "collect answer [] (p # pending) values = Inl (redactedProviderError None None (Some DeadlineExceeded))"
| "collect answer (ParentDone e # arrivals) (p # pending) values = Inl (redactedProviderError (Some e) None (Some e))"
| "collect answer (PhaseTimer parent # arrivals) (p # pending) values =
     Inl (redactedProviderError parent None (Some DeadlineExceeded))"
| "collect answer (Receive k parent # arrivals) (p # pending) values =
     (let index = (p # pending) ! (k mod Suc (length pending)); (value, err, contextErr) = answer index in
      if err \<noteq> None \<or> contextErr \<noteq> None then Inl (redactedProviderError parent err contextErr)
      else collect answer arrivals (remove1 index (p # pending)) (values[index := value]))"

definition collectProviders ::
  "QuorumReader \<Rightarrow> world \<Rightarrow> (backend \<Rightarrow> nat \<Rightarrow> 'v reply) \<Rightarrow> quorum_error + 'v option list" where
  "collectProviders reader w call =
     (let n = length (qr_providers reader) in
      collect (call (w_backend w)) (w_arrivals w) [0..<n] (replicate n None))"

text \<open>
  The loop over the answers: \<open>check\<close> validates one answer, \<open>key\<close> is what is compared with the first
  answer. No answer leaves no agreed value.
\<close>

definition agreeStep ::
  "('v \<Rightarrow> quorum_error + 'w) \<Rightarrow> ('w \<Rightarrow> 'k) \<Rightarrow> 'w option \<Rightarrow> 'v \<Rightarrow> quorum_error + 'w option" where
  "agreeStep check key agreed v =
     bindE (check v)
       (\<lambda>w. case agreed of
              None \<Rightarrow> Inr (Some w)
            | Some a \<Rightarrow> if key a = key w then Inr (Some a) else Inl ErrQuorumMismatch)"

definition unanimous ::
  "('v \<Rightarrow> quorum_error + 'w) \<Rightarrow> ('w \<Rightarrow> 'k) \<Rightarrow> 'v list \<Rightarrow> quorum_error + 'w option" where
  "unanimous check key vs = foldE (agreeStep check key) None vs"

section \<open>Headers\<close>

definition blockRefFromHeader :: "geth \<Rightarrow> u64 option \<Rightarrow> Header option \<Rightarrow> quorum_error + BlockRef" where
  "blockRefFromHeader G expected response =
     (case response of
        None \<Rightarrow> Inl ErrMalformedResponse
      | Some header \<Rightarrow>
          case hdr_Number header of
            None \<Rightarrow> Inl ErrMalformedResponse
          | Some n \<Rightarrow>
              if \<not> IsUint64 n \<or> hdr_Difficulty header = None \<or> the (hdr_Difficulty header) < 0 \<or>
                 hdr_Extra header = None \<or> hdr_GasLimit header < hdr_GasUsed header \<or>
                 (hdr_BaseFee header \<noteq> None \<and> the (hdr_BaseFee header) < 0) \<or> \<not> SanityCheck G header
              then Inl ErrMalformedResponse
              else if expected \<noteq> None \<and> Uint64 n \<noteq> the expected then Inl ErrMalformedResponse
              else Inr \<lparr>bk_Number = Uint64 n, bk_Hash = headerHash G header,
                       bk_ParentHash = hdr_ParentHash header, bk_Timestamp = hdr_Time header\<rparr>)"

definition quorum_Header :: "geth \<Rightarrow> QuorumReader \<Rightarrow> world \<Rightarrow> u64 \<Rightarrow> quorum_error + BlockRef" where
  "quorum_Header G reader w number =
     bindE (collectProviders reader w (\<lambda>b i. be_HeaderByNumber b i (Some (uint number))))
       (\<lambda>headers. bindE (unanimous (blockRefFromHeader G (Some number)) (\<lambda>ref. ref) headers)
       (\<lambda>agreed. Inr (case agreed of None \<Rightarrow> zeroBlockRef | Some ref \<Rightarrow> ref)))"

definition headStep ::
  "geth \<Rightarrow> u64 \<times> BlockRef \<times> bool \<Rightarrow> Header option \<Rightarrow> quorum_error + u64 \<times> BlockRef \<times> bool" where
  "headStep G st header =
     (case st of (minimum, first, agree) \<Rightarrow>
      bindE (blockRefFromHeader G None header)
        (\<lambda>ref. Inr (min minimum (bk_Number ref),
                    if bk_Hash first = 0 then ref else first,
                    if bk_Hash first = 0 then agree else agree \<and> first = ref)))"

definition commonHead :: "geth \<Rightarrow> QuorumReader \<Rightarrow> worlds \<Rightarrow> int option \<Rightarrow> quorum_error + BlockRef" where
  "commonHead G reader W tag =
     bindE (collectProviders reader (W 0) (\<lambda>b i. be_HeaderByNumber b i tag))
       (\<lambda>headers. bindE (foldE (headStep G) (- 1, zeroBlockRef, True) headers)
       (\<lambda>(minimum, first, agree). if agree then Inr first else quorum_Header G reader (W 1) minimum))"

abbreviation FinalizedBlockNumber :: int where "FinalizedBlockNumber \<equiv> - 3"

definition Finalized :: "geth \<Rightarrow> QuorumReader \<Rightarrow> worlds \<Rightarrow> quorum_error + BlockRef" where
  "Finalized G reader W = commonHead G reader W (Some FinalizedBlockNumber)"

definition Latest :: "geth \<Rightarrow> QuorumReader \<Rightarrow> worlds \<Rightarrow> quorum_error + BlockRef" where
  "Latest G reader W = commonHead G reader W None"

definition requireCanonicalBlock :: "geth \<Rightarrow> QuorumReader \<Rightarrow> world \<Rightarrow> BlockRef \<Rightarrow> quorum_error + unit" where
  "requireCanonicalBlock G reader w block =
     (if bk_Hash block = 0 then Inl ErrInvalidBlockRef
      else bindE (quorum_Header G reader w (bk_Number block))
        (\<lambda>canonical. rejectE (canonical \<noteq> block) ErrInvalidBlockRef))"

section \<open>Logs\<close>

abbreviation maxLogsPerResponse :: nat where "maxLogsPerResponse \<equiv> 20000"
abbreviation maxTopicsPerLog :: nat where "maxTopicsPerLog \<equiv> 4"
abbreviation maxLogDataBytes :: nat where "maxLogDataBytes \<equiv> 1048576"

datatype logFilterAnchor = AnchorBlock hash | AnchorRange u64 u64

definition explicitFilterAnchor :: "FilterQuery \<Rightarrow> quorum_error + logFilterAnchor" where
  "explicitFilterAnchor query =
     (case fq_BlockHash query of
        Some h \<Rightarrow>
          if fq_FromBlock query \<noteq> None \<or> fq_ToBlock query \<noteq> None \<or> h = 0 then Inl ErrInvalidFilterQuery
          else Inr (AnchorBlock h)
      | None \<Rightarrow>
          case (fq_FromBlock query, fq_ToBlock query) of
            (Some f, Some t) \<Rightarrow>
              if \<not> IsUint64 f \<or> \<not> IsUint64 t then Inl ErrInvalidFilterQuery
              else if Uint64 t < Uint64 f then Inl ErrInvalidFilterQuery
              else Inr (AnchorRange (Uint64 f) (Uint64 t))
          | _ \<Rightarrow> Inl ErrInvalidFilterQuery)"

definition validateLog :: "Log \<Rightarrow> logFilterAnchor \<Rightarrow> quorum_error + unit" where
  "validateLog l anchor =
     (case (log_Topics l, log_Data l) of
        (Some topics, Some data) \<Rightarrow>
          if log_Removed l \<or> log_BlockHash l = 0 \<or> log_TxHash l = 0 \<or>
             maxTopicsPerLog < length topics \<or> maxLogDataBytes < length data
          then Inl ErrMalformedResponse
          else (case anchor of
                  AnchorBlock h \<Rightarrow> rejectE (log_BlockHash l \<noteq> h) ErrMalformedResponse
                | AnchorRange from to \<Rightarrow>
                    rejectE (log_BlockNumber l < from \<or> to < log_BlockNumber l) ErrMalformedResponse)
      | _ \<Rightarrow> Inl ErrMalformedResponse)"

definition cloneLog :: "Log \<Rightarrow> Log" where
  "cloneLog l = l\<lparr>log_Topics := Some (case log_Topics l of None \<Rightarrow> [] | Some ts \<Rightarrow> ts),
                  log_Data := Some (case log_Data l of None \<Rightarrow> [] | Some d \<Rightarrow> d)\<rparr>"

definition encodeLog :: "Log \<Rightarrow> bytes" where
  "encodeLog l =
     (let topics = (case log_Topics l of None \<Rightarrow> [] | Some ts \<Rightarrow> ts);
          data = (case log_Data l of None \<Rightarrow> [] | Some d \<Rightarrow> d);
          encoded = word_bytes 20 (log_Address l);
          encoded = appendUint64 encoded (of_nat (length topics));
          encoded = encoded @ concat (map (word_bytes 32) topics);
          encoded = appendUint64 encoded (of_nat (length data));
          encoded = encoded @ data;
          encoded = appendUint64 encoded (log_BlockNumber l);
          encoded = encoded @ word_bytes 32 (log_TxHash l);
          encoded = appendUint64 encoded (log_TxIndex l);
          encoded = encoded @ word_bytes 32 (log_BlockHash l);
          encoded = appendUint64 encoded (log_BlockTimestamp l);
          encoded = appendUint64 encoded (log_Index l)
      in encoded @ [0])"

type_synonym logIdentity = "hash \<times> hash \<times> u64"

definition log_identity :: "Log \<Rightarrow> logIdentity" where
  "log_identity l = (log_BlockHash l, log_TxHash l, log_Index l)"

definition normalizeStep ::
  "logFilterAnchor \<Rightarrow> (logIdentity \<Rightarrow> bytes option) \<times> Log list \<Rightarrow> Log \<Rightarrow>
     quorum_error + (logIdentity \<Rightarrow> bytes option) \<times> Log list" where
  "normalizeStep anchor st l =
     (case st of (seen, normalized) \<Rightarrow>
      bindE (validateLog l anchor)
        (\<lambda>_. let cloned = cloneLog l; encoded = encodeLog cloned in
              case seen (log_identity cloned) of
                Some previous \<Rightarrow> if previous \<noteq> encoded then Inl ErrMalformedResponse else Inr (seen, normalized)
              | None \<Rightarrow> Inr (seen(log_identity cloned \<mapsto> encoded), normalized @ [cloned])))"

text \<open>The order of the sorted response, as its comparison decides it and as a key.\<close>

definition log_before :: "Log \<Rightarrow> Log \<Rightarrow> bool" where
  "log_before left right =
     (if log_BlockNumber left \<noteq> log_BlockNumber right then log_BlockNumber left < log_BlockNumber right
      else if log_TxIndex left \<noteq> log_TxIndex right then log_TxIndex left < log_TxIndex right
      else if log_Index left \<noteq> log_Index right then log_Index left < log_Index right
      else encodeLog left < encodeLog right)"

definition log_key :: "Log \<Rightarrow> u64 \<times> u64 \<times> u64 \<times> bytes" where
  "log_key l = (log_BlockNumber l, log_TxIndex l, log_Index l, encodeLog l)"

definition normalizeLogs :: "logFilterAnchor \<Rightarrow> Log list option \<Rightarrow> quorum_error + Log list \<times> bytes list" where
  "normalizeLogs anchor response =
     (case response of
        None \<Rightarrow> Inl ErrMalformedResponse
      | Some logs \<Rightarrow>
          if maxLogsPerResponse < length logs then Inl ErrMalformedResponse
          else bindE (foldE (normalizeStep anchor) (Map.empty, []) logs)
            (\<lambda>(seen, normalized). let normalized = sort_key log_key normalized in
                Inr (normalized, map encodeLog normalized)))"

definition FilterLogs :: "QuorumReader \<Rightarrow> world \<Rightarrow> FilterQuery \<Rightarrow> quorum_error + Log list" where
  "FilterLogs reader w query =
     bindE (explicitFilterAnchor query)
       (\<lambda>anchor. bindE (collectProviders reader w (\<lambda>b i. be_FilterLogs b i query))
       (\<lambda>responses. bindE (unanimous (normalizeLogs anchor) snd responses)
       (\<lambda>agreed. Inr (case agreed of None \<Rightarrow> [] | Some (logs, encoding) \<Rightarrow> logs))))"

section \<open>State at a block\<close>

definition checkBalance :: "int option \<Rightarrow> quorum_error + int" where
  "checkBalance balance =
     (case balance of
        None \<Rightarrow> Inl ErrMalformedResponse
      | Some v \<Rightarrow> if v < 0 then Inl ErrMalformedResponse else Inr v)"

definition balanceAtHash :: "QuorumReader \<Rightarrow> world \<Rightarrow> BlockRef \<Rightarrow> address \<Rightarrow> quorum_error + int option" where
  "balanceAtHash reader w block account =
     bindE (collectProviders reader w (\<lambda>b i. be_BalanceAtHash b i account (bk_Hash block)))
       (unanimous checkBalance (\<lambda>v. v))"

definition quorum_BalanceAt ::
  "geth \<Rightarrow> QuorumReader \<Rightarrow> worlds \<Rightarrow> BlockRef \<Rightarrow> address \<Rightarrow> quorum_error + int option" where
  "quorum_BalanceAt G reader W block account =
     bindE (requireCanonicalBlock G reader (W 0) block) (\<lambda>_. balanceAtHash reader (W 1) block account)"

definition unanimousBytes :: "bytes option list \<Rightarrow> quorum_error + bytes option" where
  "unanimousBytes responses = unanimous (optE ErrMalformedResponse) (\<lambda>v. v) responses"

definition quorum_CodeAt ::
  "geth \<Rightarrow> QuorumReader \<Rightarrow> worlds \<Rightarrow> BlockRef \<Rightarrow> address \<Rightarrow> quorum_error + bytes option" where
  "quorum_CodeAt G reader W block account =
     bindE (requireCanonicalBlock G reader (W 0) block)
       (\<lambda>_. bindE (collectProviders reader (W 1) (\<lambda>b i. be_CodeAtHash b i account (bk_Hash block))) unanimousBytes)"

definition callAtHash :: "QuorumReader \<Rightarrow> world \<Rightarrow> BlockRef \<Rightarrow> CallMsg \<Rightarrow> quorum_error + bytes option" where
  "callAtHash reader w block c =
     bindE (collectProviders reader w (\<lambda>b i. be_CallContractAtHash b i c (bk_Hash block))) unanimousBytes"

definition quorum_CallContract ::
  "geth \<Rightarrow> QuorumReader \<Rightarrow> worlds \<Rightarrow> BlockRef \<Rightarrow> CallMsg \<Rightarrow> quorum_error + bytes option" where
  "quorum_CallContract G reader W block c =
     bindE (requireCanonicalBlock G reader (W 0) block) (\<lambda>_. callAtHash reader (W 1) block c)"

text \<open>A reader pinned to a block that was agreed before (pinned_state.go).\<close>

definition pinned_BalanceAt ::
  "QuorumReader \<Rightarrow> BlockRef \<Rightarrow> world \<Rightarrow> BlockRef \<Rightarrow> address \<Rightarrow> quorum_error + int option" where
  "pinned_BalanceAt reader pinned w block account =
     (if block \<noteq> pinned \<or> bk_Hash block = 0 then Inl ErrInvalidBlockRef
      else balanceAtHash reader w block account)"

definition pinned_CallContract ::
  "QuorumReader \<Rightarrow> BlockRef \<Rightarrow> world \<Rightarrow> BlockRef \<Rightarrow> CallMsg \<Rightarrow> quorum_error + bytes option" where
  "pinned_CallContract reader pinned w block c =
     (if block \<noteq> pinned \<or> bk_Hash block = 0 then Inl ErrInvalidBlockRef
      else callAtHash reader w block c)"

section \<open>Receipts\<close>

abbreviation ReceiptStatusFailed :: u64 where "ReceiptStatusFailed \<equiv> 0"
abbreviation ReceiptStatusSuccessful :: u64 where "ReceiptStatusSuccessful \<equiv> 1"

definition validReceiptLog :: "Receipt \<Rightarrow> hash \<Rightarrow> u64 \<Rightarrow> Log option \<Rightarrow> bool" where
  "validReceiptLog receipt transaction number l =
     (case l of
        None \<Rightarrow> False
      | Some l \<Rightarrow>
          log_BlockNumber l = number \<and> log_BlockHash l = rc_BlockHash receipt \<and> log_TxHash l = transaction \<and>
          log_TxIndex l = rc_TransactionIndex receipt \<and> validateLog l (AnchorRange number number) = Inr ())"

definition validateReceipt :: "geth \<Rightarrow> hash \<Rightarrow> Receipt option \<Rightarrow> quorum_error + Receipt" where
  "validateReceipt G transaction response =
     (case response of
        None \<Rightarrow> Inl ErrMalformedResponse
      | Some receipt \<Rightarrow>
          case (rc_BlockNumber receipt, rc_Logs receipt) of
            (Some n, Some logs) \<Rightarrow>
              if rc_TxHash receipt \<noteq> transaction \<or> rc_BlockHash receipt = 0 \<or> \<not> IsUint64 n \<or>
                 maxLogsPerResponse < length logs \<or> ReceiptStatusSuccessful < rc_Status receipt \<or>
                 (rc_PostState receipt \<noteq> [] \<and> length (rc_PostState receipt) \<noteq> 32) \<or>
                 (rc_PostState receipt \<noteq> [] \<and> rc_Status receipt \<noteq> ReceiptStatusFailed) \<or>
                 rc_CumulativeGasUsed receipt < rc_GasUsed receipt \<or>
                 (rc_EffectiveGasPrice receipt \<noteq> None \<and> the (rc_EffectiveGasPrice receipt) < 0) \<or>
                 (rc_BlobGasPrice receipt \<noteq> None \<and> the (rc_BlobGasPrice receipt) < 0) \<or>
                 \<not> list_all (validReceiptLog receipt transaction (Uint64 n)) logs \<or>
                 rc_Bloom receipt \<noteq> CreateBloom G receipt
              then Inl ErrMalformedResponse
              else Inr receipt
          | _ \<Rightarrow> Inl ErrMalformedResponse)"

definition checkReceipt :: "geth \<Rightarrow> hash \<Rightarrow> Receipt option \<Rightarrow> quorum_error + Receipt \<times> bytes" where
  "checkReceipt G transaction response =
     bindE (validateReceipt G transaction response)
       (\<lambda>receipt. bindE (optE ErrMalformedResponse (MarshalReceipt G receipt)) (\<lambda>encoded. Inr (receipt, encoded)))"

definition receiptBelow :: "geth \<Rightarrow> QuorumReader \<Rightarrow> worlds \<Rightarrow> hash \<Rightarrow> u64 \<Rightarrow> quorum_error + Receipt" where
  "receiptBelow G reader W transaction ceiling =
     bindE (collectProviders reader (W 0) (\<lambda>b i. be_TransactionReceipt b i transaction))
       (\<lambda>receipts. bindE (unanimous (checkReceipt G transaction) snd receipts)
       (\<lambda>agreed. case agreed of
          None \<Rightarrow> Inl NilDereference
        | Some (receipt, encoded) \<Rightarrow>
            case rc_BlockNumber receipt of
              None \<Rightarrow> Inl NilDereference
            | Some n \<Rightarrow>
                bindE (rejectE (ceiling < Uint64 n) ErrUnfinalizedReceipt)
                  (\<lambda>_. bindE (quorum_Header G reader (W 1) (Uint64 n))
                  (\<lambda>canonical. bindE (rejectE (rc_BlockHash receipt \<noteq> bk_Hash canonical) ErrQuorumMismatch)
                  (\<lambda>_. Inr receipt)))))"

definition Receipt_of :: "geth \<Rightarrow> QuorumReader \<Rightarrow> worlds \<Rightarrow> hash \<Rightarrow> quorum_error + Receipt" where
  "Receipt_of G reader W transaction =
     (if transaction = 0 then Inl ErrMalformedResponse
      else bindE (Finalized G reader W)
        (\<lambda>finalized. receiptBelow G reader (later 2 W) transaction (bk_Number finalized)))"

definition MinedReceipt :: "geth \<Rightarrow> QuorumReader \<Rightarrow> worlds \<Rightarrow> hash \<Rightarrow> quorum_error + Receipt" where
  "MinedReceipt G reader W transaction =
     (if transaction = 0 then Inl ErrMalformedResponse
      else receiptBelow G reader W transaction (- 1))"

section \<open>Fees of Base\<close>

definition baseGasOracle :: address where
  "baseGasOracle = 0x420000000000000000000000000000000000000F"

definition BitLen256 :: "int \<Rightarrow> bool" where
  "BitLen256 v \<longleftrightarrow> \<bar>v\<bar> < 2 ^ 256"

definition oracleCall :: "bytes \<Rightarrow> u64 \<Rightarrow> CallMsg" where
  "oracleCall selector value =
     \<lparr>call_From = 0, call_To = Some baseGasOracle, call_Gas = 200000, call_Value = None,
      call_Data = selector @ word_bytes 32 (ucast value :: u256), call_other = []\<rparr>"

text \<open>The result of the oracle call is 32 bytes, read as a number.\<close>

definition baseOracleFee :: "quorum_error + bytes option \<Rightarrow> quorum_error + int" where
  "baseOracleFee called =
     bindE called
       (\<lambda>data. case data of
          None \<Rightarrow> Inl ErrMalformedResponse
        | Some data \<Rightarrow> if length data \<noteq> 32 then Inl ErrMalformedResponse else Inr (int (be_value data)))"

definition l1FeeSelector :: bytes where "l1FeeSelector = [0xf1, 0xc7, 0xa5, 0x8b]"
definition operatorFeeSelector :: bytes where "operatorFeeSelector = [0x27, 0x5a, 0xed, 0xd2]"

text \<open>
  The two oracle calls run concurrently; \<open>l1First\<close> tells which answer arrives first. \<open>call\<close> is the
  \<open>CallContract\<close> of the pinned reader at the given block; context and reader are not nil here.
\<close>

definition EstimateBaseAdditionalFee ::
  "(CallMsg \<Rightarrow> quorum_error + bytes option) \<Rightarrow> bool \<Rightarrow> int \<Rightarrow> u64 \<Rightarrow> quorum_error + int" where
  "EstimateBaseAdditionalFee call l1First calldataBytes gas =
     (if calldataBytes < 0 \<or> 65536 < calldataBytes \<or> gas = 0 then Inl ErrMalformedResponse
      else
        let l1 = baseOracleFee (call (oracleCall l1FeeSelector (word_of_int calldataBytes + 1024)));
            operator = baseOracleFee (call (oracleCall operatorFeeSelector gas))
        in bindE (if l1First then l1 else operator)
             (\<lambda>x. bindE (if l1First then operator else l1)
             (\<lambda>y. if \<not> BitLen256 (x + y) then Inl ErrMalformedResponse else Inr (x + y))))"

definition addBaseFees :: "int \<Rightarrow> int \<Rightarrow> quorum_error + int" where
  "addBaseFees left right =
     (let result = left + right in
      if result < 0 \<or> \<not> BitLen256 result then Inl ErrMalformedResponse else Inr result)"

definition checkBaseFee :: "Receipt \<Rightarrow> baseReceiptFee option \<Rightarrow> quorum_error + int" where
  "checkBaseFee receipt fee =
     (case fee of
        None \<Rightarrow> Inl ErrMalformedResponse
      | Some fee \<Rightarrow>
          case bf_L1Fee fee of
            None \<Rightarrow> Inl ErrMalformedResponse
          | Some value \<Rightarrow>
              if bf_TransactionHash fee \<noteq> rc_TxHash receipt \<or> bf_BlockHash fee \<noteq> rc_BlockHash receipt \<or>
                 value < 0 \<or> \<not> BitLen256 value
              then Inl ErrMalformedResponse else Inr value)"

definition BaseAdditionalFee :: "geth \<Rightarrow> QuorumReader \<Rightarrow> worlds \<Rightarrow> Receipt option \<Rightarrow> quorum_error + int" where
  "BaseAdditionalFee G reader W response =
     (case response of
        None \<Rightarrow> Inl ErrMalformedResponse
      | Some receipt \<Rightarrow>
          case rc_BlockNumber receipt of
            None \<Rightarrow> Inl ErrMalformedResponse
          | Some n \<Rightarrow>
              if \<not> IsUint64 n \<or> rc_TxHash receipt = 0 then Inl ErrMalformedResponse
              else
                case quorum_Header G reader (W 0) (Uint64 n) of
                  Inl e \<Rightarrow> Inl ErrQuorumMismatch
                | Inr block \<Rightarrow>
                    bindE (rejectE (bk_Hash block \<noteq> rc_BlockHash receipt) ErrQuorumMismatch)
                      (\<lambda>_. bindE (collectProviders reader (W 1)
                          (\<lambda>b i. case be_BaseReceiptFee b i of
                                   None \<Rightarrow> (None, Some CallFailed, None)
                                 | Some f \<Rightarrow> f (rc_TxHash receipt)))
                      (\<lambda>fees. bindE (unanimous (checkBaseFee receipt) (\<lambda>v. v) fees)
                      (\<lambda>agreed. bindE (baseOracleFee (quorum_CallContract G reader (later 2 W) block
                          (oracleCall operatorFeeSelector (rc_GasUsed receipt))))
                      (\<lambda>operator. case agreed of
                          None \<Rightarrow> Inl NilDereference
                        | Some l1 \<Rightarrow> addBaseFees l1 operator)))))"

end
