(* ===== verification/Rpc_Agreement.thy ===== *)
theory Rpc_Agreement
  imports Rpc_Quorum
begin

text \<open>
  What agreement of the providers means: a round returns the answers of all providers and no others,
  whatever the order in which they arrive; the loop over them returns a value only if all of them
  gave it; normalised log responses are equal exactly if they hold the same logs.
\<close>

section \<open>A round returns what every provider answered\<close>

lemma collect_receive:
  assumes "collect answer (Receive k parent # arrivals) (p # pending) vals = Inr vs"
  obtains index v where "index \<in> set (p # pending)" "answer index = (v, None, None)"
    "collect answer arrivals (remove1 index (p # pending)) (vals[index := v]) = Inr vs"
proof -
  define index where "index = (p # pending) ! (k mod Suc (length pending))"
  obtain v e c where a: "answer index = (v, e, c)" by (cases "answer index")
  have "index \<in> set (p # pending)" unfolding index_def by (rule nth_mem) simp
  moreover have "(if e \<noteq> None \<or> c \<noteq> None then Inl (redactedProviderError parent e c)
      else collect answer arrivals (remove1 index (p # pending)) (vals[index := v])) = Inr vs"
    using assms unfolding collect.simps Let_def index_def [symmetric] a prod.case .
  then have "e = None" "c = None" "collect answer arrivals (remove1 index (p # pending)) (vals[index := v]) = Inr vs"
    by (simp_all split: if_splits)
  ultimately show thesis using a that by blast
qed

lemma collect_sound:
  "collect answer arrivals pending vals = Inr vs \<Longrightarrow> distinct pending \<Longrightarrow> set pending \<subseteq> {..<length vals} \<Longrightarrow>
    length vs = length vals \<and>
    (\<forall>i < length vals. if i \<in> set pending then answer i = (vs ! i, None, None) else vs ! i = vals ! i)"
proof (induction arrivals arbitrary: pending vals)
  case Nil
  then show ?case by (cases pending) simp_all
next
  case (Cons x arrivals)
  show ?case
  proof (cases pending)
    case (Cons p ps)
    with Cons.prems(1) obtain k parent where x: "x = Receive k parent" by (cases x) simp_all
    obtain j v where j: "j \<in> set pending" "answer j = (v, None, None)"
      "collect answer arrivals (remove1 j pending) (vals[j := v]) = Inr vs"
      by (rule collect_receive [OF Cons.prems(1) [unfolded x Cons]]) (simp add: Cons)
    have s: "set (remove1 j pending) = set pending - {j}" by (rule set_remove1_eq [OF Cons.prems(2)])
    have "set (remove1 j pending) \<subseteq> {..<length (vals[j := v])}" using Cons.prems(3) s by auto
    from Cons.IH [OF j(3) distinct_remove1 [OF Cons.prems(2)] this]
    have "length vs = length vals" and all: "i < length vals \<Longrightarrow> if i \<in> set pending - {j} then answer i = (vs ! i, None, None)
        else vs ! i = vals[j := v] ! i" for i
      unfolding s by simp_all
    moreover have "if i \<in> set pending then answer i = (vs ! i, None, None) else vs ! i = vals ! i" if "i < length vals" for i
      using all [OF that] j(1,2) that by (cases "i = j") auto
    ultimately show ?thesis by blast
  qed (use Cons.prems in simp)
qed

lemma collectProviders_sound:
  assumes "collectProviders reader w call = Inr vs"
  shows "length vs = length (qr_providers reader)"
    "i < length (qr_providers reader) \<Longrightarrow> call (w_backend w) i = (vs ! i, None, None)"
  using collect_sound [OF assms [unfolded collectProviders_def Let_def]] by (simp_all add: lessThan_atLeast0)

text \<open>If every provider answers and all answers arrive, the round succeeds in every order of arrival.\<close>

lemma collect_complete:
  assumes "\<And>i. i \<in> set pending \<Longrightarrow> answer i = (v i, None, None)" and "length ks = length pending"
    and "distinct pending" and "set pending \<subseteq> {..<length vals}"
  shows "collect answer (map (\<lambda>k. Receive k (parent k)) ks @ rest) pending vals =
    Inr (map (\<lambda>i. if i \<in> set pending then v i else vals ! i) [0..<length vals])"
  using assms
proof (induction ks arbitrary: pending vals)
  case Nil
  then show ?case by (simp add: map_nth)
next
  case (Cons k ks)
  then obtain p ps where p: "pending = p # ps" by (cases pending) auto
  define index where "index = (p # ps) ! (k mod Suc (length ps))"
  have i: "index \<in> set (p # ps)" unfolding index_def by (rule nth_mem) simp
  note s = set_remove1_eq [OF Cons.prems(3), of index]
  have "collect answer (map (\<lambda>k. Receive k (parent k)) ks @ rest) (remove1 index pending) (vals[index := v index]) =
      Inr (map (\<lambda>j. if j \<in> set (remove1 index pending) then v j else vals[index := v index] ! j) [0..<length (vals[index := v index])])"
  proof (rule Cons.IH)
    show "length ks = length (remove1 index pending)" using Cons.prems(2) i by (simp add: p length_remove1 del: remove1.simps)
    show "answer j = (v j, None, None)" if "j \<in> set (remove1 index pending)" for j
      using that Cons.prems(1) by (meson notin_set_remove1)
  qed (use Cons.prems s in auto)
  also have "\<dots> = Inr (map (\<lambda>j. if j \<in> set pending then v j else vals ! j) [0..<length vals])"
    using i Cons.prems(4) s by (auto simp: p nth_list_update)
  finally show ?case using Cons.prems(1) [of index] i
    by (simp add: p index_def [symmetric] Let_def del: remove1.simps)
qed

lemma collectProviders_complete:
  assumes "\<And>i. i < length (qr_providers reader) \<Longrightarrow> call (w_backend w) i = (v i, None, None)"
    and "w_arrivals w = map (\<lambda>k. Receive k (parent k)) ks @ rest" and "length ks = length (qr_providers reader)"
  shows "collectProviders reader w call = Inr (map v [0..<length (qr_providers reader)])"
  unfolding collectProviders_def Let_def assms(2)
  by (subst collect_complete [where v = v]) (use assms in auto)

section \<open>The loop over the answers\<close>

lemma agreeStep_fold:
  "foldE (agreeStep check key) (Some a) vs = Inr r \<longleftrightarrow>
     r = Some a \<and> (\<forall>u \<in> set vs. \<exists>w. check u = Inr w \<and> key w = key a)"
proof (induction vs)
  case (Cons u vs)
  have "foldE (agreeStep check key) (Some a) (u # vs) = Inr r \<longleftrightarrow>
      (\<exists>w. check u = Inr w \<and> key a = key w) \<and> foldE (agreeStep check key) (Some a) vs = Inr r"
    unfolding foldE_Cons_Inr by (auto simp: agreeStep_def [of _ _ _ u] bindE_Inr split: if_splits)
  with Cons.IH show ?case by auto
qed auto

lemma unanimous_Inr:
  "unanimous check key (v # vs) = Inr r \<longleftrightarrow>
     (\<exists>a. r = Some a \<and> check v = Inr a \<and> (\<forall>u \<in> set vs. \<exists>w. check u = Inr w \<and> key w = key a))"
proof -
  have "unanimous check key (v # vs) = Inr r \<longleftrightarrow> (\<exists>a. check v = Inr a \<and> foldE (agreeStep check key) (Some a) vs = Inr r)"
    unfolding unanimous_def foldE_Cons_Inr by (auto simp: agreeStep_def [of _ _ None] bindE_Inr)
  then show ?thesis unfolding agreeStep_fold by auto
qed

lemma unanimous_all:
  assumes "unanimous check key vs = Inr r" and "vs \<noteq> []"
  obtains a where "r = Some a" "\<And>u. u \<in> set vs \<Longrightarrow> \<exists>w. check u = Inr w \<and> key w = key a" "check (hd vs) = Inr a"
  using assms by (cases vs) (auto simp: unanimous_Inr)

text \<open>A round followed by the loop: every provider's answer passes the check and has the same key.\<close>

lemma agreed_round:
  assumes c: "collectProviders reader w call = Inr vs" and u: "unanimous check key vs = Inr r"
    and n: "qr_providers reader \<noteq> []"
  obtains a where "r = Some a" "\<And>i. i < length (qr_providers reader) \<Longrightarrow>
      \<exists>v b. call (w_backend w) i = (v, None, None) \<and> check v = Inr b \<and> key b = key a"
    "\<exists>v. call (w_backend w) 0 = (v, None, None) \<and> check v = Inr a"
proof -
  note s = collectProviders_sound [OF c]
  have ne: "vs \<noteq> []" using s(1) n by auto
  from unanimous_all [OF u ne] obtain a where a: "r = Some a"
    "\<And>u. u \<in> set vs \<Longrightarrow> \<exists>w. check u = Inr w \<and> key w = key a" "check (hd vs) = Inr a" by blast
  show thesis
  proof (rule that [OF a(1)])
    fix i assume i: "i < length (qr_providers reader)"
    then have "vs ! i \<in> set vs" using s(1) by simp
    with a(2) s(2) [OF i] show "\<exists>v b. call (w_backend w) i = (v, None, None) \<and> check v = Inr b \<and> key b = key a" by blast
  next
    show "\<exists>v. call (w_backend w) 0 = (v, None, None) \<and> check v = Inr a"
      using s(2) [of 0] n a(3) ne by (simp add: hd_conv_nth)
  qed
qed

section \<open>Headers\<close>

text \<open>Asked for a block by its number, a provider reports exactly this block.\<close>

definition reports :: "geth \<Rightarrow> world \<Rightarrow> nat \<Rightarrow> BlockRef \<Rightarrow> bool" where
  "reports G w i block \<longleftrightarrow> (\<exists>h. be_HeaderByNumber (w_backend w) i (Some (uint (bk_Number block))) = (h, None, None) \<and>
     blockRefFromHeader G (Some (bk_Number block)) h = Inr block)"

lemma blockRef_number: "blockRefFromHeader G (Some n) h = Inr ref \<Longrightarrow> bk_Number ref = n"
  by (auto simp: blockRefFromHeader_def split: option.splits if_splits)

lemma Header_reports:
  assumes "quorum_Header G reader w number = Inr block" and n: "qr_providers reader \<noteq> []"
  shows "bk_Number block = number" "i < length (qr_providers reader) \<Longrightarrow> reports G w i block"
proof -
  from assms(1) obtain hs r where c: "collectProviders reader w (\<lambda>b i. be_HeaderByNumber b i (Some (uint number))) = Inr hs"
    and u: "unanimous (blockRefFromHeader G (Some number)) (\<lambda>ref. ref) hs = Inr r"
    and b: "block = (case r of None \<Rightarrow> zeroBlockRef | Some ref \<Rightarrow> ref)"
    by (auto simp: quorum_Header_def bindE_Inr)
  obtain a where a: "r = Some a" "\<And>i. i < length (qr_providers reader) \<Longrightarrow>
      \<exists>v b. be_HeaderByNumber (w_backend w) i (Some (uint number)) = (v, None, None) \<and>
        blockRefFromHeader G (Some number) v = Inr b \<and> b = a"
    by (rule agreed_round [OF c u n]) blast
  from b a(1) have "a = block" by simp
  with a(2) have all: "i < length (qr_providers reader) \<Longrightarrow> \<exists>v. be_HeaderByNumber (w_backend w) i (Some (uint number)) = (v, None, None) \<and>
        blockRefFromHeader G (Some number) v = Inr block" for i by blast
  from all [of 0] n show num: "bk_Number block = number" by (auto dest: blockRef_number)
  show "reports G w i block" if "i < length (qr_providers reader)"
    using all [OF that] num by (auto simp: reports_def)
qed

lemma requireCanonical_reports:
  assumes "requireCanonicalBlock G reader w block = Inr ()" and "qr_providers reader \<noteq> []"
  shows "i < length (qr_providers reader) \<Longrightarrow> reports G w i block"
  using assms Header_reports(2) by (auto simp: requireCanonicalBlock_def bindE_Inr rejectE_Inr split: if_splits)

text \<open>The common head lies at or below what every provider reported for the tag.\<close>

lemma head_agree: "foldE (headStep G) (n, f, a) hs = Inr (m', f', a') \<Longrightarrow> a' \<longrightarrow> a"
proof (induction hs arbitrary: n f a)
  case (Cons h hs)
  from Cons.prems obtain m f1 a1 where h: "headStep G (n, f, a) h = Inr (m, f1, a1)" "foldE (headStep G) (m, f1, a1) hs = Inr (m', f', a')"
    unfolding foldE_Cons_Inr by auto
  from Cons.IH [OF h(2)] h(1) show ?case by (auto simp: headStep_def bindE_Inr split: if_splits)
qed simp

lemma head_fold:
  assumes "\<And>h. headerHash G h \<noteq> 0" and "foldE (headStep G) (m, first, agree) hs = Inr (m', first', agree')"
  shows "m' \<le> m \<and> (bk_Hash first \<noteq> 0 \<longrightarrow> first' = first) \<and> (\<forall>h \<in> set hs. \<exists>ref. blockRefFromHeader G None h = Inr ref \<and>
    m' \<le> bk_Number ref \<and> (agree' \<longrightarrow> ref = first'))"
  using assms(2)
proof (induction hs arbitrary: m first agree)
  case (Cons h hs)
  from Cons.prems obtain ref where r: "blockRefFromHeader G None h = Inr ref"
    and rest: "foldE (headStep G) (min m (bk_Number ref), if bk_Hash first = 0 then ref else first,
        if bk_Hash first = 0 then agree else agree \<and> first = ref) hs = Inr (m', first', agree')"
    unfolding foldE_Cons_Inr by (auto simp: headStep_def [of _ _ h] bindE_Inr)
  have z: "bk_Hash ref \<noteq> 0" using r assms(1) by (auto simp: blockRefFromHeader_def split: option.splits if_splits)
  have keep: "agree' \<longrightarrow> a" if "foldE (headStep G) (n, f, a) hs = Inr (m', first', agree')" for n f a
    using head_agree [OF that] .
  from Cons.IH [OF rest] keep [OF rest] r z show ?case by (auto split: if_splits)
qed simp

lemma commonHead_below:
  assumes g: "\<And>h. headerHash G h \<noteq> 0" and c: "commonHead G reader W tag = Inr block" and n: "qr_providers reader \<noteq> []"
    and i: "i < length (qr_providers reader)"
  shows "\<exists>h ref. be_HeaderByNumber (w_backend (W 0)) i tag = (h, None, None) \<and> blockRefFromHeader G None h = Inr ref \<and>
    bk_Number block \<le> bk_Number ref"
proof -
  from c obtain hs m first agree where h: "collectProviders reader (W 0) (\<lambda>b i. be_HeaderByNumber b i tag) = Inr hs"
    and f: "foldE (headStep G) (- 1, zeroBlockRef, True) hs = Inr (m, first, agree)"
    and b: "agree \<and> block = first \<or> quorum_Header G reader (W 1) m = Inr block"
    by (auto simp: commonHead_def bindE_Inr split: if_splits)
  note s = collectProviders_sound [OF h]
  have "hs ! i \<in> set hs" using s(1) i by simp
  with head_fold [OF g f] obtain ref where "blockRefFromHeader G None (hs ! i) = Inr ref" "m \<le> bk_Number ref" "agree \<longrightarrow> ref = first"
    by blast
  with s(2) [OF i] b Header_reports(1) [OF _ n] show ?thesis by auto
qed

end
