(* ===== verification/Rpc_Logs.thy ===== *)
theory Rpc_Logs
  imports Rpc_Agreement
begin

text \<open>
  Normalised log responses: the encoding of a valid log determines it, the normal form holds exactly
  the logs of the response, once each and in the order of the comparison, and two responses have the
  same encodings exactly if they hold the same logs.
\<close>

section \<open>The encoding of a log\<close>

lemma concat_words_inject:
  "concat (map (word_bytes 32) (xs :: hash list)) = concat (map (word_bytes 32) ys) \<Longrightarrow> length xs = length ys \<Longrightarrow> xs = ys"
proof (induction xs arbitrary: ys)
  case (Cons x xs)
  then obtain y ys' where ys: "ys = y # ys'" by (cases ys) auto
  from Cons.prems have "word_bytes 32 x = word_bytes 32 y" "concat (map (word_bytes 32) xs) = concat (map (word_bytes 32) ys')"
    by (simp_all add: ys append_eq_append_conv)
  with Cons.IH [of ys'] Cons.prems(2) ys show ?case by simp
qed simp

lemma small_u64: "m < 2 ^ 64 \<Longrightarrow> n < 2 ^ 64 \<Longrightarrow> (of_nat m :: u64) = of_nat n \<longleftrightarrow> m = n"
  by (simp add: word_of_nat_eq_iff take_bit_nat_eq_self)

definition readable :: "Log \<Rightarrow> bool" where
  "readable l \<longleftrightarrow> (\<exists>ts d. log_Topics l = Some ts \<and> log_Data l = Some d \<and> length ts < 2 ^ 64 \<and> length d < 2 ^ 64) \<and>
     \<not> log_Removed l"

lemma encodeLog_inject:
  assumes "encodeLog l = encodeLog m" and "readable l" and "readable m"
  shows "l = m"
proof -
  from assms(2,3) obtain ts d us e where l: "log_Topics l = Some ts" "log_Data l = Some d" "length ts < 2 ^ 64" "length d < 2 ^ 64"
    and m: "log_Topics m = Some us" "log_Data m = Some e" "length us < 2 ^ 64" "length e < 2 ^ 64"
    and r: "log_Removed l = False" "log_Removed m = False"
    by (auto simp: readable_def)
  have head: "word_bytes 20 (log_Address l) = word_bytes 20 (log_Address m)"
    "word_bytes 8 (of_nat (length ts) :: u64) = word_bytes 8 (of_nat (length us) :: u64)"
    and rest: "concat (map (word_bytes 32) ts) @ word_bytes 8 (of_nat (length d) :: u64) @ d @ word_bytes 8 (log_BlockNumber l) @
        word_bytes 32 (log_TxHash l) @ word_bytes 8 (log_TxIndex l) @ word_bytes 32 (log_BlockHash l) @
        word_bytes 8 (log_BlockTimestamp l) @ word_bytes 8 (log_Index l) =
      concat (map (word_bytes 32) us) @ word_bytes 8 (of_nat (length e) :: u64) @ e @ word_bytes 8 (log_BlockNumber m) @
        word_bytes 32 (log_TxHash m) @ word_bytes 8 (log_TxIndex m) @ word_bytes 32 (log_BlockHash m) @
        word_bytes 8 (log_BlockTimestamp m) @ word_bytes 8 (log_Index m)"
    using assms(1) by (simp_all add: encodeLog_def appendUint64_def l m append_eq_append_conv)
  have n: "length ts = length us" using head(2) l(3) m(3) by (simp add: word_bytes_inject small_u64)
  have c: "length (concat (map (word_bytes 32) ts)) = length (concat (map (word_bytes 32) us))"
    using n by (simp add: length_concat comp_def sum_list_triv)
  have topics: "concat (map (word_bytes 32) ts) = concat (map (word_bytes 32) us)"
    and len: "word_bytes 8 (of_nat (length d) :: u64) = word_bytes 8 (of_nat (length e) :: u64)"
    and tail: "d @ word_bytes 8 (log_BlockNumber l) @
        word_bytes 32 (log_TxHash l) @ word_bytes 8 (log_TxIndex l) @ word_bytes 32 (log_BlockHash l) @
        word_bytes 8 (log_BlockTimestamp l) @ word_bytes 8 (log_Index l) = e @ word_bytes 8 (log_BlockNumber m) @
        word_bytes 32 (log_TxHash m) @ word_bytes 8 (log_TxIndex m) @ word_bytes 32 (log_BlockHash m) @
        word_bytes 8 (log_BlockTimestamp m) @ word_bytes 8 (log_Index m)"
    using rest c by (simp_all add: append_eq_append_conv)
  have "length d = length e" using len l(4) m(4) by (simp add: word_bytes_inject small_u64)
  with tail head(1) have "d = e" "log_Address l = log_Address m" "log_BlockNumber l = log_BlockNumber m" "log_TxHash l = log_TxHash m"
    "log_TxIndex l = log_TxIndex m" "log_BlockHash l = log_BlockHash m" "log_BlockTimestamp l = log_BlockTimestamp m"
    "log_Index l = log_Index m"
    by (simp_all add: append_eq_append_conv word_bytes_inject)
  with concat_words_inject [OF topics n] l m r show ?thesis by (auto intro: Log.equality)
qed

lemma valid_readable:
  assumes "validateLog l anchor = Inr ()"
  shows "readable l" "cloneLog l = l"
  using assms by (auto simp: validateLog_def readable_def cloneLog_def split: option.splits if_splits)

lemma valid_inj:
  assumes "\<And>l. l \<in> A \<Longrightarrow> validateLog l anchor = Inr ()"
  shows "inj_on encodeLog A" "inj_on log_key A"
proof -
  show e: "inj_on encodeLog A"
    by (rule inj_onI) (rule encodeLog_inject, assumption, (rule valid_readable(1), erule assms)+)
  show "inj_on log_key A" by (rule inj_onI) (simp add: log_key_def inj_onD [OF e])
qed

section \<open>The normal form\<close>

text \<open>The state of the loop after the logs \<open>A\<close>.\<close>

definition normal_part :: "logFilterAnchor \<Rightarrow> (logIdentity \<Rightarrow> bytes option) \<Rightarrow> Log list \<Rightarrow> Log set \<Rightarrow> bool" where
  "normal_part anchor seen ns A \<longleftrightarrow>
     set ns = A \<and> distinct ns \<and> (\<forall>l \<in> A. validateLog l anchor = Inr ()) \<and>
     (\<forall>i e. seen i = Some e \<longrightarrow> (\<exists>l \<in> A. encodeLog l = e)) \<and> (\<forall>l \<in> A. seen (log_identity l) \<noteq> None)"

lemma normal_partD:
  assumes "normal_part anchor seen ns A"
  shows "set ns = A" "distinct ns" "\<And>l. l \<in> A \<Longrightarrow> validateLog l anchor = Inr ()"
    "\<And>i e. seen i = Some e \<Longrightarrow> \<exists>l \<in> A. encodeLog l = e" "\<And>l. l \<in> A \<Longrightarrow> seen (log_identity l) \<noteq> None"
  using assms unfolding normal_part_def by blast+

lemma normalizeStep_part:
  assumes p: "normal_part anchor seen ns A" and s: "normalizeStep anchor (seen, ns) l = Inr (seen', ns')"
  shows "normal_part anchor seen' ns' (insert l A)"
proof -
  from s have v: "validateLog l anchor = Inr ()" by (auto simp: normalizeStep_def bindE_Inr)
  note r = valid_readable [OF v] and d = normal_partD [OF p]
  show ?thesis
  proof (cases "seen (log_identity l)")
    case None
    with s v r(2) have s': "seen' = seen(log_identity l \<mapsto> encodeLog l)" "ns' = ns @ [l]"
      by (auto simp: normalizeStep_def Let_def)
    have "l \<notin> A" using None d(5) by blast
    then have "set ns' = insert l A" "distinct ns'" using d(1,2) by (simp_all add: s')
    moreover have "\<exists>k \<in> insert l A. encodeLog k = e" if "seen' i = Some e" for i e
      using that d(4) [of i e] by (auto simp: s' split: if_splits)
    ultimately show ?thesis using d(3,5) v by (simp add: normal_part_def s')
  next
    case (Some e)
    with s v r(2) have e: "e = encodeLog l" "seen' = seen" "ns' = ns"
      by (auto simp: normalizeStep_def Let_def split: if_splits)
    from d(4) [OF Some] obtain k where k: "k \<in> A" "encodeLog k = e" by blast
    from encodeLog_inject [of k l] k e(1) r(1) valid_readable(1) [OF d(3) [OF k(1)]] have "k = l" by simp
    with k(1) p e show ?thesis by (simp add: insert_absorb)
  qed
qed

lemma normalize_fold:
  "foldE (normalizeStep anchor) (seen, ns) ls = Inr (seen', ns') \<Longrightarrow> normal_part anchor seen ns A \<Longrightarrow>
     normal_part anchor seen' ns' (set ls \<union> A)"
proof (induction ls arbitrary: seen ns A)
  case (Cons l ls)
  then obtain s1 n1 where s: "normalizeStep anchor (seen, ns) l = Inr (s1, n1)"
    and f: "foldE (normalizeStep anchor) (s1, n1) ls = Inr (seen', ns')"
    unfolding foldE_Cons_Inr by auto
  from Cons.IH [OF f normalizeStep_part [OF Cons.prems(2) s]] show ?case by simp
qed simp

lemma log_before_key: "log_before l m \<longleftrightarrow> log_key l < log_key m"
  by (auto simp: log_before_def log_key_def less_prod_def')

lemma normalizeLogs_form:
  assumes "normalizeLogs anchor (Some ls) = Inr (ns, es)"
  shows "set ns = set ls" "es = map encodeLog ns" "sorted_wrt log_before ns" "\<And>l. l \<in> set ls \<Longrightarrow> validateLog l anchor = Inr ()"
proof -
  from assms obtain seen ms where f: "foldE (normalizeStep anchor) (Map.empty, []) ls = Inr (seen, ms)"
    and ns: "ns = sort_key log_key ms" "es = map encodeLog ns"
    by (auto simp: normalizeLogs_def bindE_Inr Let_def split: if_splits)
  have "normal_part anchor seen ms (set ls \<union> {})" by (rule normalize_fold [OF f]) (simp add: normal_part_def)
  note p = normal_partD(1-3) [OF this, unfolded Un_empty_right]
  show "set ns = set ls" "es = map encodeLog ns" by (simp_all add: ns p(1))
  show "\<And>l. l \<in> set ls \<Longrightarrow> validateLog l anchor = Inr ()" by (fact p(3))
  have "inj_on log_key (set ls)" by (rule valid_inj(2) [OF p(3)])
  then have "distinct (map log_key ns)" using p(1,2) by (simp add: ns distinct_map)
  then have "sorted_wrt (<) (map log_key ns)" using sorted_sort_key [of log_key ms] by (simp add: strict_sorted_iff ns(1))
  then show "sorted_wrt log_before ns" by (simp add: sorted_wrt_map log_before_key [abs_def])
qed

lemma normalizeLogs_same:
  assumes "normalizeLogs anchor (Some ls) = Inr (ns, es)" and "normalizeLogs anchor (Some ms) = Inr (ns', es')"
  shows "es = es' \<longleftrightarrow> set ls = set ms"
proof
  note a = normalizeLogs_form [OF assms(1)] and b = normalizeLogs_form [OF assms(2)]
  assume "es = es'"
  then have "map encodeLog ns = map encodeLog ns'" using a(2) b(2) by simp
  moreover have "inj_on encodeLog (set ns \<union> set ns')"
    by (rule valid_inj(1)) (use a(1,4) b(1,4) in auto)
  ultimately have "ns = ns'" by (rule map_inj_on)
  then show "set ls = set ms" using a(1) b(1) by simp
next
  note a = normalizeLogs_form [OF assms(1)] and b = normalizeLogs_form [OF assms(2)]
  assume s: "set ls = set ms"
  have k: "sorted_wrt (<) (map log_key ns)" "sorted_wrt (<) (map log_key ns')"
    using a(3) b(3) by (simp_all add: sorted_wrt_map log_before_key [abs_def])
  have "set (map log_key ns') = set (map log_key ns)" by (simp add: a(1) b(1) s)
  from strict_sorted_equal [OF k this] have "map log_key ns = map log_key ns'" by simp
  moreover have "inj_on log_key (set ns \<union> set ns')" by (rule valid_inj(2)) (use a(1,4) b(1,4) in auto)
  ultimately have "ns = ns'" by (rule map_inj_on)
  then show "es = es'" using a(2) b(2) by simp
qed

end
