(* ===== verification/Rpc_Properties.thy ===== *)
theory Rpc_Properties
  imports Rpc_Logs
begin

text \<open>
  The properties of the quorum reader: values at a block are those of every provider, a receipt is
  agreed, canonical and final for every provider, and log responses agree exactly if they hold the
  same logs.
\<close>

section \<open>A valid reader\<close>

lemma registered_domains:
  "foldE (registerIdentity lt) (a, b, c) is = Inr r \<Longrightarrow>
     distinct (map (\<lambda>i. lt (pi_TrustDomain i)) is) \<and> (\<forall>i \<in> set is. lt (pi_TrustDomain i) \<notin> c)"
proof (induction "is" arbitrary: a b c)
  case (Cons i "is")
  then obtain s where s: "registerIdentity lt (a, b, c) i = Inr s" "foldE (registerIdentity lt) s is = Inr r"
    unfolding foldE_Cons_Inr by blast
  from s(1) have c: "lt (pi_TrustDomain i) \<notin> c"
    and s': "s = (insert (lt (pi_ID i)) a, insert (lt (pi_Fingerprint i)) b, insert (lt (pi_TrustDomain i)) c)"
    by (auto simp: registerIdentity_def normalizedIdentity_def Let_def split: if_splits)
  from Cons.IH [OF s(2) [unfolded s']] c show ?case by auto
qed simp

lemma new_reader:
  assumes "NewQuorumReader lt ps t = Inr reader"
  shows "qr_providers reader = ps" "2 \<le> length ps" "ps \<noteq> []" "distinct (map (\<lambda>p. lt (pi_TrustDomain (pv_Identity p))) ps)"
proof -
  from assms obtain r where r: "foldE (registerIdentity lt) ({}, {}, {}) (map pv_Identity ps) = Inr r" "qr_providers reader = ps" "2 \<le> length ps"
    by (auto simp: NewQuorumReader_def validateProviders_def validateProviderIdentities_def bindE_Inr split: if_splits)
  then show "qr_providers reader = ps" "2 \<le> length ps" "ps \<noteq> []" by auto
  show "distinct (map (\<lambda>p. lt (pi_TrustDomain (pv_Identity p))) ps)"
    using registered_domains [OF r(1)] by (simp add: comp_def)
qed

lemma balance_round:
  assumes "balanceAtHash reader w block account = Inr r" and n: "qr_providers reader \<noteq> []"
  shows "\<exists>v. r = Some v \<and> 0 \<le> v \<and> (\<forall>i < length (qr_providers reader).
    be_BalanceAtHash (w_backend w) i account (bk_Hash block) = (Some v, None, None))"
proof -
  from assms(1) obtain vs where c: "collectProviders reader w (\<lambda>b i. be_BalanceAtHash b i account (bk_Hash block)) = Inr vs"
    and u: "unanimous checkBalance (\<lambda>v. v) vs = Inr r" by (auto simp: balanceAtHash_def bindE_Inr)
  have ck: "checkBalance x = Inr y \<longleftrightarrow> x = Some y \<and> 0 \<le> y" for x y
    by (auto simp: checkBalance_def split: option.splits)
  show ?thesis by (rule agreed_round [OF c u n]) (auto simp: ck)
qed

lemma bytes_round:
  assumes c: "collectProviders reader w call = Inr vs" and u: "unanimousBytes vs = Inr r" and n: "qr_providers reader \<noteq> []"
  shows "\<exists>v. r = Some v \<and> (\<forall>i < length (qr_providers reader). call (w_backend w) i = (Some v, None, None))"
  by (rule agreed_round [OF c u [unfolded unanimousBytes_def] n]) (auto simp: optE_Inr)

text \<open>C34: A balance, the code or the result of a call at a block, if the reader returns it, is the
  answer of every provider, all providers report the block as canonical, and the providers are at
  least two with pairwise different trust domains.\<close>
theorem state_unanimous:
  assumes "NewQuorumReader lt ps t = Inr reader"
  shows "2 \<le> length ps \<and> distinct (map (\<lambda>p. lt (pi_TrustDomain (pv_Identity p))) ps) \<and>
    (\<forall>r. quorum_BalanceAt G reader W block account = Inr r \<longrightarrow> (\<exists>v. r = Some v \<and> 0 \<le> v \<and> (\<forall>i < length ps.
       reports G (W 0) i block \<and> be_BalanceAtHash (w_backend (W 1)) i account (bk_Hash block) = (Some v, None, None)))) \<and>
    (\<forall>r. quorum_CodeAt G reader W block account = Inr r \<longrightarrow> (\<exists>v. r = Some v \<and> (\<forall>i < length ps.
       reports G (W 0) i block \<and> be_CodeAtHash (w_backend (W 1)) i account (bk_Hash block) = (Some v, None, None)))) \<and>
    (\<forall>r. quorum_CallContract G reader W block c = Inr r \<longrightarrow> (\<exists>v. r = Some v \<and> (\<forall>i < length ps.
       reports G (W 0) i block \<and> be_CallContractAtHash (w_backend (W 1)) i c (bk_Hash block) = (Some v, None, None))))"
proof -
  note n = new_reader [OF assms] and ne = new_reader(3) [OF assms, folded new_reader(1) [OF assms]]
  show ?thesis
  proof (intro conjI allI impI, fact n(2), fact n(4), goal_cases balance code called)
    case (balance r)
    then have r: "requireCanonicalBlock G reader (W 0) block = Inr ()" "balanceAtHash reader (W 1) block account = Inr r"
      by (auto simp: quorum_BalanceAt_def bindE_Inr)
    from balance_round [OF r(2) ne] requireCanonical_reports [OF r(1) ne] show ?case unfolding n(1) by blast
  next
    case (code r)
    then obtain vs where r: "requireCanonicalBlock G reader (W 0) block = Inr ()" "unanimousBytes vs = Inr r"
      "collectProviders reader (W 1) (\<lambda>b i. be_CodeAtHash b i account (bk_Hash block)) = Inr vs"
      by (auto simp: quorum_CodeAt_def bindE_Inr)
    from bytes_round [OF r(3,2) ne] requireCanonical_reports [OF r(1) ne] show ?case unfolding n(1) by blast
  next
    case (called r)
    then obtain vs where r: "requireCanonicalBlock G reader (W 0) block = Inr ()" "unanimousBytes vs = Inr r"
      "collectProviders reader (W 1) (\<lambda>b i. be_CallContractAtHash b i c (bk_Hash block)) = Inr vs"
      by (auto simp: quorum_CallContract_def callAtHash_def bindE_Inr)
    from bytes_round [OF r(3,2) ne] requireCanonical_reports [OF r(1) ne] show ?case unfolding n(1) by blast
  qed
qed

section \<open>Receipts\<close>



section \<open>Logs\<close>

lemma agreeStep_mismatch:
  assumes "\<forall>v \<in> set vs. \<exists>w. check v = Inr w" and "\<exists>v \<in> set vs. \<forall>w. check v = Inr w \<longrightarrow> key w \<noteq> key a"
  shows "foldE (agreeStep check key) (Some a) vs = Inl ErrQuorumMismatch"
  using assms
proof (induction vs)
  case (Cons u vs)
  then obtain w where w: "check u = Inr w" by auto
  show ?case
  proof (cases "key a = key w")
    case True
    with w Cons.prems have "\<exists>v \<in> set vs. \<forall>w. check v = Inr w \<longrightarrow> key w \<noteq> key a" by auto
    with Cons True w show ?thesis by (simp add: agreeStep_def [of _ _ _ u])
  qed (simp add: agreeStep_def w)
qed simp

text \<open>C36: When every provider answers with a well-formed list of logs, the query succeeds exactly if
  the lists hold the same logs, in whatever order and with whatever repetitions; it returns these logs
  without repetition in the order of block, transaction and index. Otherwise it reports a mismatch.\<close>
theorem FilterLogs_exact:
  assumes "NewQuorumReader lt ps t = Inr reader" and "explicitFilterAnchor query = Inr anchor"
    and "w_arrivals w = map (\<lambda>k. Receive k None) ks @ rest" and "length ks = length ps"
    and "\<And>i. i < length ps \<Longrightarrow> be_FilterLogs (w_backend w) i query = (Some (answered i), None, None)"
    and "\<And>i. i < length ps \<Longrightarrow> \<exists>normal. normalizeLogs anchor (Some (answered i)) = Inr normal"
  shows "if \<forall>i < length ps. set (answered i) = set (answered 0)
    then \<exists>logs. FilterLogs reader w query = Inr logs \<and> set logs = set (answered 0) \<and> sorted_wrt log_before logs
    else FilterLogs reader w query = Inl ErrQuorumMismatch"
proof -
  note n = new_reader [OF assms(1)]
  define N where "N i = projr (normalizeLogs anchor (Some (answered i)))" for i
  have N: "normalizeLogs anchor (Some (answered i)) = Inr (N i)" if "i < length ps" for i
    using assms(6) [OF that] by (auto simp: N_def)
  have form: "set (fst (N i)) = set (answered i)" "sorted_wrt log_before (fst (N i))" if "i < length ps" for i
    using normalizeLogs_form(1,3) [of anchor "answered i" "fst (N i)" "snd (N i)"] N [OF that] by simp_all
  have same: "snd (N i) = snd (N j) \<longleftrightarrow> set (answered i) = set (answered j)" if "i < length ps" "j < length ps" for i j
    using normalizeLogs_same [of anchor "answered i" "fst (N i)" "snd (N i)" "answered j" "fst (N j)" "snd (N j)"] N that by simp
  obtain m where m: "length ps = Suc m" using n(3) by (cases ps) auto
  then have pos0: "0 < length ps" by simp
  have c: "collectProviders reader w (\<lambda>b i. be_FilterLogs b i query) = Inr (map (\<lambda>i. Some (answered i)) [0..<length ps])"
    by (subst collectProviders_complete [where v = "\<lambda>i. Some (answered i)" and parent = "\<lambda>_. None" and rest = rest]) (use assms(3-5) n(1) in simp_all)
  have rs: "map (\<lambda>i. Some (answered i)) [0..<length ps] = Some (answered 0) # map (\<lambda>i. Some (answered i)) [1..<length ps]"
    unfolding m by (simp add: upt_conv_Cons del: upt_Suc)
  show ?thesis
  proof (cases "\<forall>i < length ps. set (answered i) = set (answered 0)")
    case True
    have "unanimous (normalizeLogs anchor) snd (map (\<lambda>i. Some (answered i)) [0..<length ps]) = Inr (Some (N 0))"
    proof -
      have "\<exists>w. normalizeLogs anchor u = Inr w \<and> snd w = snd (N 0)" if "u \<in> set (map (\<lambda>i. Some (answered i)) [1..<length ps])" for u
      proof -
        from that obtain i where i: "i < length ps" "u = Some (answered i)" by auto
        have "snd (N i) = snd (N 0)" using True [rule_format, OF i(1)] same [OF i(1) pos0] by blast
        with N [OF i(1)] i(2) show ?thesis by simp
      qed
      moreover have "normalizeLogs anchor (Some (answered 0)) = Inr (N 0)" using N [of 0] m by simp
      ultimately show ?thesis unfolding rs unanimous_Inr by blast
    qed
    then have "FilterLogs reader w query = Inr (fst (N 0))" using assms(2) c by (simp add: FilterLogs_def split_beta)
    moreover have "set (fst (N 0)) = set (answered 0)" "sorted_wrt log_before (fst (N 0))" using form [of 0] m by simp_all
    ultimately show ?thesis unfolding if_P [OF True] by blast
  next
    case False
    have "foldE (agreeStep (normalizeLogs anchor) snd) (Some (N 0)) (map (\<lambda>i. Some (answered i)) [1..<length ps]) = Inl ErrQuorumMismatch"
    proof (rule agreeStep_mismatch)
      show "\<forall>v \<in> set (map (\<lambda>i. Some (answered i)) [1..<length ps]). \<exists>x. normalizeLogs anchor v = Inr x" using N by auto
      from False obtain i where i: "i < length ps" "set (answered i) \<noteq> set (answered 0)" by blast
      then have pos: "i \<noteq> 0" by (intro notI) simp
      show "\<exists>v \<in> set (map (\<lambda>i. Some (answered i)) [1..<length ps]). \<forall>x. normalizeLogs anchor v = Inr x \<longrightarrow> snd x \<noteq> snd (N 0)"
      proof (rule bexI [of _ "Some (answered i)"])
        show "\<forall>x. normalizeLogs anchor (Some (answered i)) = Inr x \<longrightarrow> snd x \<noteq> snd (N 0)"
          using N [OF i(1)] same [OF i(1), of 0] i(2) m by simp
        show "Some (answered i) \<in> set (map (\<lambda>i. Some (answered i)) [1..<length ps])" using i(1) pos by simp
      qed
    qed
    then have "unanimous (normalizeLogs anchor) snd (map (\<lambda>i. Some (answered i)) [0..<length ps]) = Inl ErrQuorumMismatch"
      using N m unfolding rs unanimous_def by (simp add: agreeStep_def [of _ _ None])
    then show ?thesis unfolding if_not_P [OF False] using assms(2) c by (simp add: FilterLogs_def)
  qed
qed

section \<open>Examples\<close>

definition ex_geth :: geth where
  "ex_geth = \<lparr>headerHash = (\<lambda>h. 77), SanityCheck = (\<lambda>h. True), CreateBloom = (\<lambda>r. []), MarshalReceipt = (\<lambda>r. Some (rc_other r))\<rparr>"

definition ex_header :: Header where
  "ex_header = \<lparr>hdr_Number = Some 10, hdr_Difficulty = Some 0, hdr_Extra = Some [], hdr_GasUsed = 1, hdr_GasLimit = 2,
     hdr_BaseFee = None, hdr_ParentHash = 76, hdr_Time = 5, hdr_other = []\<rparr>"

definition ex_ref :: BlockRef where
  "ex_ref = \<lparr>bk_Number = 10, bk_Hash = 77, bk_ParentHash = 76, bk_Timestamp = 5\<rparr>"

definition ex_receipt :: Receipt where
  "ex_receipt = \<lparr>rc_TxHash = 5, rc_BlockHash = 77, rc_BlockNumber = Some 10, rc_Logs = Some [], rc_Status = 1, rc_PostState = [],
     rc_CumulativeGasUsed = 9, rc_GasUsed = 9, rc_EffectiveGasPrice = None, rc_BlobGasPrice = None, rc_TransactionIndex = 0,
     rc_Bloom = [], rc_other = []\<rparr>"

definition ex_log :: "u64 \<Rightarrow> Log" where
  "ex_log i = \<lparr>log_Address = 1, log_Topics = Some [2], log_Data = Some [], log_BlockNumber = 10, log_TxHash = 5, log_TxIndex = 0,
     log_BlockHash = 77, log_BlockTimestamp = 5, log_Index = i, log_Removed = False\<rparr>"

text \<open>The second provider answers with the logs in another order and with a repetition.\<close>

definition ex_logs :: "nat \<Rightarrow> Log list" where
  "ex_logs i = (if i = 0 then [ex_log 0, ex_log 1] else [ex_log 1, ex_log 0, ex_log 1])"

definition ex_backend :: backend where
  "ex_backend = \<lparr>be_HeaderByNumber = (\<lambda>i n. (Some ex_header, None, None)), be_BalanceAtHash = (\<lambda>i a h. (Some 42, None, None)),
     be_CodeAtHash = (\<lambda>i a h. (Some [1], None, None)), be_CallContractAtHash = (\<lambda>i c h. (Some [2], None, None)),
     be_TransactionReceipt = (\<lambda>i h. (Some ex_receipt, None, None)), be_FilterLogs = (\<lambda>i q. (Some (ex_logs i), None, None)),
     be_BaseReceiptFee = (\<lambda>i. None)\<rparr>"

definition ex_world :: world where
  "ex_world = \<lparr>w_backend = ex_backend, w_arrivals = map (\<lambda>k. Receive k None) [1, 0] @ []\<rparr>"

definition ex_provider :: "char \<Rightarrow> u64 \<Rightarrow> Provider" where
  "ex_provider c a = \<lparr>pv_Identity = \<lparr>pi_ID = [c], pi_Fingerprint = [c], pi_TrustDomain = [c]\<rparr>,
     pv_Reader = Some \<lparr>rd_typeOf = [], rd_pointer = a\<rparr>, pv_Close = True\<rparr>"

definition ex_providers :: "Provider list" where
  "ex_providers = [ex_provider CHR ''a'' 1, ex_provider CHR ''b'' 2]"

definition ex_reader :: QuorumReader where
  "ex_reader = \<lparr>qr_providers = ex_providers, qr_timeout = second, qr_closed = False\<rparr>"

definition ex_query :: FilterQuery where
  "ex_query = \<lparr>fq_BlockHash = None, fq_FromBlock = Some 10, fq_ToBlock = Some 10, fq_Addresses = [], fq_Topics = []\<rparr>"

lemma ex_reader_valid: "NewQuorumReader (\<lambda>v. v) ex_providers second = Inr ex_reader"
  by (simp add: NewQuorumReader_def validateProviders_def validateProviderIdentities_def registerReader_def registerIdentity_def
      normalizedIdentity_def ex_providers_def ex_provider_def ex_reader_def second_def Let_def)

theorem state_unanimous_witness:
  "quorum_BalanceAt ex_geth ex_reader (\<lambda>_. ex_world) ex_ref 9 = Inr (Some 42) \<and>
   reports ex_geth ex_world 0 ex_ref \<and> reports ex_geth ex_world 1 ex_ref"
proof -
  have r: "quorum_BalanceAt ex_geth ex_reader (\<lambda>_. ex_world) ex_ref 9 = Inr (Some 42)" by code_simp
  have "length ex_providers = 2" by (simp add: ex_providers_def)
  with state_unanimous [OF ex_reader_valid, of ex_geth "\<lambda>_. ex_world" ex_ref 9 undefined] r show ?thesis by auto
qed






theorem FilterLogs_exact_witness:
  "\<exists>logs. FilterLogs ex_reader ex_world ex_query = Inr logs \<and> set logs = {ex_log 0, ex_log 1}"
proof -
  have a: "explicitFilterAnchor ex_query = Inr (AnchorRange 10 10)" by code_simp
  have v: "validateLog (ex_log k) (AnchorRange 10 10) = Inr ()" "cloneLog (ex_log k) = ex_log k" for k
    by (simp_all add: validateLog_def cloneLog_def ex_log_def)
  have d: "log_identity (ex_log k) = (77, 5, k)" for k by (simp add: log_identity_def ex_log_def)
  have n: "\<exists>r. normalizeLogs (AnchorRange 10 10) (Some (ex_logs i)) = Inr r" for i
    by (simp add: normalizeLogs_def ex_logs_def normalizeStep_def v d Let_def)
  have s: "set (ex_logs i) = {ex_log 0, ex_log 1}" for i by (auto simp: ex_logs_def)
  show ?thesis
    using FilterLogs_exact [OF ex_reader_valid a, of ex_world "[1, 0]" "[]" ex_logs] n
    by (auto simp: ex_world_def ex_backend_def ex_providers_def s)
qed

end
