(* ===== verification/Spec2Isabelle.thy ===== *)
theory Spec2Isabelle
  imports Budget_Properties Domain_Properties Lease_Properties Rescue_Properties Store_Open Queue_Properties Rpc_Properties
begin

text \<open>
  Verification of guard-daemon, a daemon that watches an account of a compromised key and moves
  what arrives there to a safe destination, paying from a sponsor account. Several processes may run
  against the same databases; money is spent only within a budget and only by the holder of a lease.

  \<^bold>\<open>The program and the theories.\<close> File names are relative to \<^verbatim>\<open>src/\<close>. The definitions keep the names
  of the functions and methods they model; a method's transaction is the definition with the suffix
  \<^verbatim>\<open>_tx\<close>, one round of a waiting method the one with the suffix \<^verbatim>\<open>_round\<close>.

  \<^item> \<^verbatim>\<open>Guard_Prelude\<close>, \<^verbatim>\<open>Wire_Fields\<close>, \<^verbatim>\<open>Typed_Buckets\<close>: shared vocabulary. Bytes, big-endian integers and
    times of Go; error flow (\<^verbatim>\<open>bindE\<close>, \<^verbatim>\<open>foldE\<close>); a bbolt bucket as the record \<^verbatim>\<open>bolt\<close> with the locales
    \<^verbatim>\<open>bolt_engine\<close> (what a read returns after a write, entries in key order), \<^verbatim>\<open>bolt_engine_live\<close>
    (writes of legal sizes succeed) and, in \<^verbatim>\<open>Store_Model\<close>, \<^verbatim>\<open>seq_engine\<close> (the bucket's sequence).
    They are interpreted on sorted association lists, the engine of all examples. \<^verbatim>\<open>fixed_codec\<close>
    and \<^verbatim>\<open>typed_bucket\<close> are the interfaces between codecs, buckets and their clients.
  \<^item> \<^verbatim>\<open>Sha256\<close>, \<^verbatim>\<open>Domain_Model\<close>, \<^verbatim>\<open>Domain_Properties\<close>: \<^verbatim>\<open>internal/domain/model.go\<close> and \<^verbatim>\<open>claim.go\<close>.
    Candidates, incidents and claim plans with their identifiers. The hash function is computed;
    what is proved is that the hashed byte strings never clash.
  \<^item> \<^verbatim>\<open>Budget_Model\<close>, \<^verbatim>\<open>Budget_Ledger\<close>, \<^verbatim>\<open>Budget_Operations\<close>: \<^verbatim>\<open>internal/budget/\<close>. The ledger of reservations
    over a byte-level database with 256-bit amounts. \<^verbatim>\<open>Budget_Usage\<close> shows what its sums are,
    \<^verbatim>\<open>Budget_Book\<close> is the abstract book of reservations, \<^verbatim>\<open>Budget_Refinement\<close> that every call is a
    sequence of steps of the book, \<^verbatim>\<open>Budget_Safety\<close> and \<^verbatim>\<open>Budget_Runs\<close> what holds along all runs:
    the limits of every window, the finality of exposed and committed reservations.
  \<^item> \<^verbatim>\<open>Store_Model\<close>, \<^verbatim>\<open>Store_Codec\<close>, \<^verbatim>\<open>Store_Open\<close>, \<^verbatim>\<open>Store_Validation\<close>: \<^verbatim>\<open>internal/store/model.go\<close>,
    \<^verbatim>\<open>codec.go\<close>, \<^verbatim>\<open>bolt_store.go\<close>, \<^verbatim>\<open>bolt_validation.go\<close>. The state of the store is its eleven buckets,
    the closed flag, the wake-ups and the channels of the leases.
  \<^item> \<^verbatim>\<open>Store_Lease\<close>: \<^verbatim>\<open>internal/store/lease.go\<close>. \<^verbatim>\<open>Lease_Service\<close> states what a lease service promises as
    a locale, interprets it on the store and proves mutual exclusion for its clients.
  \<^item> \<^verbatim>\<open>Store_Rescue\<close>: \<^verbatim>\<open>internal/store/rescue_state.go\<close>. \<^verbatim>\<open>Rescue_Codec\<close> is the round trip of its records,
    \<^verbatim>\<open>Rescue_Phases\<close> the machine that its transitions implement, \<^verbatim>\<open>Rescue_Journal\<close> and \<^verbatim>\<open>Rescue_Runs\<close>
    the journal as a table and what no sequence of calls can undo, \<^verbatim>\<open>Rescue_Migration\<close> the migration
    of the previous schema.
  \<^item> \<^verbatim>\<open>Store_Queue\<close>, \<^verbatim>\<open>Store_Candidates\<close>: \<^verbatim>\<open>internal/store/bolt_candidates.go\<close>; \<^verbatim>\<open>Store_Chain\<close>,
    \<^verbatim>\<open>Store_Canonical\<close>: \<^verbatim>\<open>internal/store/bolt_canonical.go\<close>. \<^verbatim>\<open>Queue_View\<close> reads the buckets as tables,
    \<^verbatim>\<open>Queue_Invariant\<close> to \<^verbatim>\<open>Queue_Commit\<close> show that every transaction keeps their invariant,
    \<^verbatim>\<open>Queue_Reach\<close> closes this under every interleaving of calls and shows the order in which
    candidates leave, \<^verbatim>\<open>Queue_Chain\<close> the moves of the checkpoint and of the scan cursor.
  \<^item> \<^verbatim>\<open>Rpc_Model\<close>, \<^verbatim>\<open>Rpc_Quorum\<close>: \<^verbatim>\<open>internal/rpc/quorum.go\<close>, \<^verbatim>\<open>base_fees.go\<close>, \<^verbatim>\<open>pinned_state.go\<close>. The answers
    of the providers in each round are an argument, and so is the order in which they arrive.
    \<^verbatim>\<open>Rpc_Agreement\<close> and \<^verbatim>\<open>Rpc_Logs\<close> show what the reader's agreement means.

  \<^bold>\<open>How the parts interact.\<close> The watcher puts candidates into the queue and commits canonical blocks;
  the coordinator takes candidates with \<^verbatim>\<open>Next\<close>, journals each rescue, reserves its cost in the ledger,
  signs under the lease, exposes the reservation and broadcasts, and reconciles with agreed receipts.
  The budget ledger and the store are separate databases. Calls of one process on one database are
  serialised by bbolt's write lock, so a run is a sequence of transactions in any order; the update of
  the in-memory signals after a commit is one step with it.

  \<^bold>\<open>Errors, contexts, clocks.\<close> Every early return is a value of an error type. The context's state at
  each point where the code asks, the clock's reading and whether a commit reaches the disk are
  arguments (\<^verbatim>\<open>store_env\<close>), so theorems hold for every behaviour of them. Panics of the code (nil
  dereferences) are error values where a nil can reach them.

  \<^bold>\<open>Bounds and termination.\<close> There is no fuel: loops over buckets and lists are structural, loops that
  advance a block number terminate because the number grows below its maximum, and a call that waits
  consumes a given list of turns of the environment; it returns None when the list ends, and the
  properties of waiting calls speak of each round. Integers keep their width; where the code relies on
  the absence of overflow this is proved. Two loops of
  \<^verbatim>\<open>bolt_canonical.go\<close> delete under a cursor while they walk a bucket; the model walks the entries the
  bucket had at the start, which presumes that the cursor visits each of them once.

  \<^bold>\<open>Parameters.\<close> The laws of bbolt (above); go-ethereum's transaction decoding in the rescue journal;
  header hashes, bloom filters and JSON of receipts in the quorum reader. One property assumes that
  no header hashes to zero.

  \<^bold>\<open>Not modelled.\<close> The rescue coordinator (\<^verbatim>\<open>internal/rescue/\<close>) drives the parts above through network
  calls and signing; its use of the ledger, the journal and the lease is covered by theorems that
  hold for every sequence of calls. The watcher is subscriptions and timers over the reader.
  Configuration is the decoding of YAML and of operator input. The contract bindings are ABI calls of
  go-ethereum and the contract itself is Solidity with its own tests. Observability exports metrics.
  Process fences are file locks of the operating system; the daemon is start-up and wiring; RPC
  connections are dialling and timeouts.
\<close>

end
